(* ===== verification/Go_Prelude.thy ===== *)
theory Go_Prelude
  imports Main "HOL-Library.Sublist" "HOL-Library.Multiset" "HOL-Library.Word"
    "HOL-Library.Signed_Division" "HOL-Library.Monad_Syntax" "HOL-Library.State_Monad"
begin

text \<open>
  What every theory of the development shares: Go strings, Go maps (which may be nil),
  Go errors and panics, and the effect monad the controller code is written in.

  \<^item> A Go \<^verbatim>\<open>string\<close> or \<^verbatim>\<open>[]byte\<close> is a \<^typ>\<open>string\<close> (a list of bytes).
  \<^item> A Go map is \<^theory_text>\<open>('k, 'v) gomap\<close>: \<^const>\<open>None\<close> is the nil map, which can be read
    but not written.
  \<^item> A call that returns \<^verbatim>\<open>(T, error)\<close> is \<^theory_text>\<open>'a outcome\<close>: a value, an error, or a
    panic (nil dereference, index out of range, write to a nil map). A handler
    \<^verbatim>\<open>if err != nil\<close> sees errors and never panics.
\<close>

named_theorems go_simps \<open>evaluation rules of the Go standard library model\<close>
named_theorems run_simps \<open>how the primitive effects run\<close>
named_theorems only_intros \<open>rules that bound the events a program emits\<close>
named_theorems frame_intros \<open>rules for programs that change nothing but the log\<close>

text \<open>Non-nil stays \<open>m \<noteq> None\<close>: the rewriting to an existential hides the facts below.\<close>

declare not_None_eq [simp del]

section \<open>Strings\<close>

text \<open>\<^verbatim>\<open>strings.Contains\<close>: some position of the first string starts the second.\<close>

fun strContains :: "string \<Rightarrow> string \<Rightarrow> bool" where
  "strContains [] sub = (sub = [])"
| "strContains (c # cs) sub = (prefix sub (c # cs) \<or> strContains cs sub)"

definition hasPrefix :: "string \<Rightarrow> string \<Rightarrow> bool" where
  "hasPrefix s p = prefix p s"

definition trimSuffix :: "string \<Rightarrow> string \<Rightarrow> string" where
  "trimSuffix s suf = (if suffix suf s then take (length s - length suf) s else s)"

definition trimPrefix :: "string \<Rightarrow> string \<Rightarrow> string" where
  "trimPrefix s p = (if prefix p s then drop (length p) s else s)"

text \<open>\<^verbatim>\<open>strings.Join\<close>.\<close>

fun strJoin :: "string list \<Rightarrow> string \<Rightarrow> string" where
  "strJoin [] sep = []"
| "strJoin [s] sep = s"
| "strJoin (s # t # ss) sep = s @ sep @ strJoin (t # ss) sep"

text \<open>\<^verbatim>\<open>strings.Split\<close> at a one-byte separator; the result is never empty.\<close>

fun strSplit :: "string \<Rightarrow> char \<Rightarrow> string list" where
  "strSplit [] sep = [[]]"
| "strSplit (c # cs) sep =
     (if c = sep then [] # strSplit cs sep
      else (case strSplit cs sep of [] \<Rightarrow> [[c]] | w # ws \<Rightarrow> (c # w) # ws))"

text \<open>Decimal printing of integers (\<^verbatim>\<open>strconv.Itoa\<close> and \<^verbatim>\<open>%d\<close>).\<close>

definition digit :: "nat \<Rightarrow> char" where
  "digit d = char_of (48 + d)"

fun natDec :: "nat \<Rightarrow> string" where
  "natDec n = (if n < 10 then [digit n] else natDec (n div 10) @ [digit (n mod 10)])"

declare natDec.simps [simp del]

definition itoa :: "int \<Rightarrow> string" where
  "itoa i = (if i < 0 then CHR ''-'' # natDec (nat (- i)) else natDec (nat i))"

definition natVal :: "string \<Rightarrow> nat" where
  "natVal s = foldl (\<lambda>a c. 10 * a + (of_char c - 48)) 0 s"

lemma strContains_sublist: "strContains s sub \<longleftrightarrow> sublist sub s"
proof (induction s)
  case Nil
  then show ?case by simp
next
  case (Cons c cs)
  then show ?case by (auto simp: sublist_Cons_right)
qed

lemma trimSuffix_append [simp]: "trimSuffix (s @ suf) suf = s"
  by (simp add: trimSuffix_def suffix_def)

lemma trimSuffix_id: "\<not> suffix suf s \<Longrightarrow> trimSuffix s suf = s"
  by (simp add: trimSuffix_def)

lemma strSplit_nonempty [simp]: "strSplit s sep \<noteq> []"
  by (induction s) (auto split: list.splits)

lemma strJoin_Cons: "strJoin (s # ss) sep = s @ (if ss = [] then [] else sep @ strJoin ss sep)"
  by (cases ss) auto

lemma strSplit_word: "sep \<notin> set s \<Longrightarrow> strSplit s sep = [s]"
  by (induction s) auto

lemma strSplit_append:
  "sep \<notin> set s \<Longrightarrow> strSplit (s @ sep # t) sep = s # strSplit t sep"
  by (induction s) auto

text \<open>Splitting at the separator undoes joining with it.\<close>

lemma strSplit_strJoin:
  assumes "ss \<noteq> []" and "\<forall>s \<in> set ss. sep \<notin> set s"
  shows "strSplit (strJoin ss [sep]) sep = ss"
  using assms
proof (induction ss)
  case Nil
  then show ?case by simp
next
  case (Cons s ss)
  then show ?case
    by (cases ss) (auto simp: strSplit_word strSplit_append)
qed

lemma of_char_digit: "d < 10 \<Longrightarrow> of_char (digit d) = 48 + d"
  by (simp add: digit_def)

lemma natVal_snoc: "natVal (s @ [c]) = 10 * natVal s + (of_char c - 48)"
  by (simp add: natVal_def)

lemma natVal_natDec [simp]: "natVal (natDec n) = n"
proof (induction n rule: natDec.induct)
  case (1 n)
  show ?case
  proof (cases "n < 10")
    case True
    then show ?thesis by (simp add: natDec.simps [of n] natVal_def of_char_digit)
  next
    case False
    then have "natVal (natDec (n div 10)) = n div 10" by (rule "1.IH")
    with False show ?thesis
      by (simp add: natDec.simps [of n] natVal_snoc of_char_digit)
  qed
qed

lemma natDec_inj [simp]: "natDec m = natDec n \<longleftrightarrow> m = n"
  by (metis natVal_natDec)

lemma natDec_digits: "set (natDec n) \<subseteq> digit ` {..<10}"
proof (induction n rule: natDec.induct)
  case (1 n)
  show ?case
  proof (cases "n < 10")
    case True
    then show ?thesis by (auto simp: natDec.simps [of n])
  next
    case False
    then have "set (natDec (n div 10)) \<subseteq> digit ` {..<10}" by (rule "1.IH")
    with False show ?thesis by (auto simp: natDec.simps [of n])
  qed
qed

lemma digit_not_sym: "d < 10 \<Longrightarrow> digit d \<noteq> CHR ''-''" "d < 10 \<Longrightarrow> digit d \<noteq> CHR '',''"
  using of_char_digit [of d] by (auto dest: arg_cong [where f = "of_char :: char \<Rightarrow> nat"])

lemma natDec_no_sym: "CHR ''-'' \<notin> set (natDec n)" "CHR '','' \<notin> set (natDec n)"
  using natDec_digits [of n] digit_not_sym by fastforce+

lemma natDec_nonempty [simp]: "natDec n \<noteq> []"
  by (subst natDec.simps) simp

lemma itoa_inj [simp]: "itoa i = itoa j \<longleftrightarrow> i = j"
proof
  assume eq: "itoa i = itoa j"
  have hd_nat: "\<And>n s. natDec n \<noteq> CHR ''-'' # s"
    using natDec_no_sym(1) by (metis list.set_intros(1))
  show "i = j"
  proof (cases "i < 0"; cases "j < 0")
  qed (use eq hd_nat hd_nat [symmetric] in \<open>auto simp: itoa_def\<close>)
qed simp

lemma itoa_nat: "itoa (int n) = natDec n"
  by (simp add: itoa_def)

lemma digit_eval [simp]:
  "digit 0 = CHR ''0''" "digit (Suc 0) = CHR ''1''" "digit 2 = CHR ''2''" "digit 3 = CHR ''3''"
  "digit 4 = CHR ''4''" "digit 5 = CHR ''5''" "digit 6 = CHR ''6''" "digit 7 = CHR ''7''"
  "digit 8 = CHR ''8''" "digit 9 = CHR ''9''"
  by code_simp+

lemma natDec_small: "natDec 0 = ''0''" "natDec (Suc 0) = ''1''"
  by (simp_all add: natDec.simps)

lemma natDec_numeral: "natDec (numeral k) =
    (if numeral k < (10 :: nat) then [digit (numeral k)]
     else natDec (numeral k div 10) @ [digit (numeral k mod 10)])"
  by (rule natDec.simps)

lemmas itoa_eval = itoa_def natDec_numeral natDec_small

lemma subseq_distinct: "subseq xs ys \<Longrightarrow> distinct ys \<Longrightarrow> distinct xs"
  by (induction rule: list_emb.induct) (auto elim: list_emb_set)

section \<open>Maps\<close>

type_synonym ('k, 'v) gomap = "('k \<Rightarrow> 'v option) option"
type_synonym strmap = "(string, string) gomap"

text \<open>\<^verbatim>\<open>v, ok := m[k]\<close>: reading a nil map finds nothing.\<close>

definition mget :: "('k, 'v) gomap \<Rightarrow> 'k \<Rightarrow> 'v option" where
  "mget m k = (case m of None \<Rightarrow> None | Some f \<Rightarrow> f k)"

text \<open>\<^verbatim>\<open>m[k]\<close> with the zero value of the element type.\<close>

definition mindex :: "'v \<Rightarrow> ('k, 'v) gomap \<Rightarrow> 'k \<Rightarrow> 'v" where
  "mindex z m k = (case mget m k of None \<Rightarrow> z | Some v \<Rightarrow> v)"

text \<open>\<^verbatim>\<open>if m == nil { m = make(...) }\<close> and then \<^verbatim>\<open>m[k] = v\<close>.\<close>

definition mmake :: "('k, 'v) gomap \<Rightarrow> ('k, 'v) gomap" where
  "mmake m = (case m of None \<Rightarrow> Some Map.empty | Some f \<Rightarrow> Some f)"

definition mput :: "('k, 'v) gomap \<Rightarrow> 'k \<Rightarrow> 'v \<Rightarrow> ('k, 'v) gomap" where
  "mput m k v = map_option (\<lambda>f. f(k \<mapsto> v)) m"

text \<open>\<^verbatim>\<open>delete(m, k)\<close> is a no-op on a nil map.\<close>

definition mdelete :: "('k, 'v) gomap \<Rightarrow> 'k \<Rightarrow> ('k, 'v) gomap" where
  "mdelete m k = map_option (\<lambda>f. f(k := None)) m"

text \<open>A map literal.\<close>

definition mlit :: "('k \<times> 'v) list \<Rightarrow> ('k, 'v) gomap" where
  "mlit kvs = Some (map_of kvs)"

text \<open>
  One run of \<^verbatim>\<open>for k, v := range m\<close> visits every entry once, in an order the language
  leaves open: \<open>range_of m kvs\<close> says that \<open>kvs\<close> is one of the possible visits of \<open>m\<close>.
\<close>

definition range_of :: "('k, 'v) gomap \<Rightarrow> ('k \<times> 'v) list \<Rightarrow> bool" where
  "range_of m kvs \<longleftrightarrow> distinct (map fst kvs) \<and> (\<forall>k. map_of kvs k = mget m k)"

lemma mget_simps [simp]: "mget None k = None" "mget (Some f) k = f k"
  by (simp_all add: mget_def)

lemma mmake_simps [simp]: "mmake None = Some Map.empty" "mmake (Some f) = Some f"
  by (simp_all add: mmake_def)

lemma mput_simps [simp]: "mput None k v = None" "mput (Some f) k v = Some (f(k \<mapsto> v))"
  by (simp_all add: mput_def)

lemma mdelete_simps [simp]: "mdelete None k = None" "mdelete (Some f) k = Some (f(k := None))"
  by (simp_all add: mdelete_def)

lemma mget_mmake [simp]: "mget (mmake m) k = mget m k"
  by (cases m) simp_all

lemma mmake_not_None [simp]: "mmake m \<noteq> None"
  by (cases m) simp_all

lemma mget_mput: "m \<noteq> None \<Longrightarrow> mget (mput m k v) k' = (if k' = k then Some v else mget m k')"
  by (cases m) auto

lemma mget_mdelete: "mget (mdelete m k) k' = (if k' = k then None else mget m k')"
  by (cases m) auto

lemma mget_mlit [simp]: "mget (mlit kvs) k = map_of kvs k"
  by (simp add: mlit_def)

lemma mlit_not_None [simp]: "mlit kvs \<noteq> None"
  by (simp add: mlit_def)

lemma range_of_SomeD: "range_of m kvs \<Longrightarrow> (k, v) \<in> set kvs \<longleftrightarrow> mget m k = Some v"
  by (metis range_of_def map_of_eq_Some_iff)

lemma gomap_eqI:
  assumes "m \<noteq> None" and "m' \<noteq> None" and "\<And>k. mget m k = mget m' k"
  shows "m = m'"
proof -
  from assms(1,2) obtain f g where "m = Some f" and "m' = Some g" by blast
  with assms(3) show ?thesis by auto
qed

section \<open>Errors, panics, outcomes\<close>

text \<open>
  The reasons of Kubernetes API errors that the code tells apart, and the errors it makes.
  \<open>Wrap\<close> is \<^verbatim>\<open>fmt.Errorf("...: %w", err)\<close>: the predicates of the API error package and
  \<^verbatim>\<open>errors.Is\<close> look through it.
\<close>

datatype reason = ReasonNotFound | ReasonConflict | ReasonBadRequest | ReasonOther string

datatype error =
    ApiError reason string
  | Wrap string error
  | ErrMsg string
  | DisableNonTLSConfigErr

fun reasonOf :: "error \<Rightarrow> reason option" where
  "reasonOf (ApiError r _) = Some r"
| "reasonOf (Wrap _ e) = reasonOf e"
| "reasonOf _ = None"

definition isNotFound :: "error \<Rightarrow> bool" where
  "isNotFound e = (reasonOf e = Some ReasonNotFound)"

definition isConflict :: "error \<Rightarrow> bool" where
  "isConflict e = (reasonOf e = Some ReasonConflict)"

fun isDisableNonTLS :: "error \<Rightarrow> bool" where
  "isDisableNonTLS DisableNonTLSConfigErr = True"
| "isDisableNonTLS (Wrap _ e) = isDisableNonTLS e"
| "isDisableNonTLS _ = False"

text \<open>\<^verbatim>\<open>client.IgnoreNotFound(err)\<close> on a non-nil error.\<close>

definition ignoreNotFound :: "error \<Rightarrow> error option" where
  "ignoreNotFound e = (if isNotFound e then None else Some e)"

datatype 'a outcome = Ok 'a | Err error | Panic string

fun obind :: "'a outcome \<Rightarrow> ('a \<Rightarrow> 'b outcome) \<Rightarrow> 'b outcome" where
  "obind (Ok a) f = f a"
| "obind (Err e) f = Err e"
| "obind (Panic p) f = Panic p"

text \<open>\<^verbatim>\<open>if err != nil { return fmt.Errorf("msg: %w", err) }\<close>.\<close>

fun wrapErr :: "string \<Rightarrow> 'a outcome \<Rightarrow> 'a outcome" where
  "wrapErr msg (Ok a) = Ok a"
| "wrapErr msg (Err e) = Err (Wrap msg e)"
| "wrapErr msg (Panic p) = Panic p"

text \<open>A result of a library function, which does not panic.\<close>

fun lift :: "error + 'a \<Rightarrow> 'a outcome" where
  "lift (Inl e) = Err e"
| "lift (Inr a) = Ok a"

text \<open>\<^verbatim>\<open>*p\<close>: dereferencing a nil pointer panics.\<close>

fun deref :: "'a option \<Rightarrow> 'a outcome" where
  "deref None = Panic ''nil pointer dereference''"
| "deref (Some a) = Ok a"

text \<open>A loop over a slice whose body may fail.\<close>

fun mapOutcome :: "('a \<Rightarrow> 'b outcome) \<Rightarrow> 'a list \<Rightarrow> 'b list outcome" where
  "mapOutcome f [] = Ok []"
| "mapOutcome f (x # xs) = obind (f x) (\<lambda>y. obind (mapOutcome f xs) (\<lambda>ys. Ok (y # ys)))"

lemma obind_Ok [simp]: "obind r f = Ok b \<longleftrightarrow> (\<exists>a. r = Ok a \<and> f a = Ok b)"
  by (cases r) auto

lemma wrapErr_Ok [simp]: "wrapErr msg r = Ok a \<longleftrightarrow> r = Ok a"
  by (cases r) auto

lemma lift_Ok [simp]: "lift r = Ok a \<longleftrightarrow> r = Inr a"
  by (cases r) auto

lemma deref_Ok [simp]: "deref p = Ok a \<longleftrightarrow> p = Some a"
  by (cases p) auto

lemma mapOutcome_Ok: "mapOutcome f xs = Ok ys \<longleftrightarrow> list_all2 (\<lambda>x y. f x = Ok y) xs ys"
proof (induction xs arbitrary: ys)
  case (Cons x xs)
  then show ?case by (cases ys) auto
qed auto

lemma isNotFound_simps [simp]:
  "isNotFound (ApiError r m) \<longleftrightarrow> r = ReasonNotFound" "isNotFound (Wrap m e) = isNotFound e"
  "\<not> isNotFound (ErrMsg m)" "\<not> isNotFound DisableNonTLSConfigErr"
  by (simp_all add: isNotFound_def)

lemma isConflict_simps [simp]:
  "isConflict (ApiError r m) \<longleftrightarrow> r = ReasonConflict" "isConflict (Wrap m e) = isConflict e"
  "\<not> isConflict (ErrMsg m)" "\<not> isConflict DisableNonTLSConfigErr"
  by (simp_all add: isConflict_def)

lemma conflict_not_notFound: "isConflict e \<Longrightarrow> \<not> isNotFound e"
  by (simp add: isConflict_def isNotFound_def)

end
