(* ===== verification/Kube_Types.thy ===== *)
theory Kube_Types
  imports Go_Prelude
begin

text \<open>
  The Kubernetes objects the operator reads and writes, with the fields its source names.
  These are data declarations of the API packages (\<^verbatim>\<open>k8s.io/api\<close>,
  \<^verbatim>\<open>k8s.io/apimachinery\<close>), not of this repository: nothing here computes, except the
  comparison of quantities.

  A pointer field that may be nil is an \<^theory_text>\<open>option\<close>; a map is a \<open>gomap\<close>; an integer of 32
  or 64 bits on which the code only compares is an \<^typ>\<open>int\<close>.
\<close>

section \<open>Quantities\<close>

text \<open>
  A \<^verbatim>\<open>resource.Quantity\<close> is a fixed-point number. Its documentation says that parsing
  rounds to at most three decimal places, so a quantity is a whole number of thousandths.
  \<^verbatim>\<open>Cmp\<close> orders quantities by value and \<^verbatim>\<open>Value()\<close> rounds up to a whole number.
\<close>

datatype quantity = Quantity (milli: int)

instantiation quantity :: linorder
begin

definition less_eq_quantity :: "quantity \<Rightarrow> quantity \<Rightarrow> bool" where
  "less_eq_quantity p q \<longleftrightarrow> milli p \<le> milli q"

definition less_quantity :: "quantity \<Rightarrow> quantity \<Rightarrow> bool" where
  "less_quantity p q \<longleftrightarrow> milli p < milli q"

instance
  by standard (auto simp: less_eq_quantity_def less_quantity_def quantity.expand)

end

instantiation quantity :: zero
begin

definition zero_quantity :: quantity where
  "zero_quantity = Quantity 0"

instance ..

end

definition qCmp :: "quantity \<Rightarrow> quantity \<Rightarrow> int" where
  "qCmp p q = (if p < q then -1 else if p = q then 0 else 1)"

definition qValue :: "quantity \<Rightarrow> int" where
  "qValue q = (milli q + 999) div 1000"

definition units :: "int \<Rightarrow> quantity" where
  "units n = Quantity (1000 * n)"

lemma qCmp_simps [simp]:
  "qCmp p q = 0 \<longleftrightarrow> p = q" "qCmp p q = -1 \<longleftrightarrow> p < q" "qCmp p q = 1 \<longleftrightarrow> q < p"
  by (auto simp: qCmp_def)

lemma qValue_units [simp]: "qValue (units n) = n"
  by (simp add: qValue_def units_def)

lemma units_less [simp]: "units m < units n \<longleftrightarrow> m < n"
  by (simp add: less_quantity_def units_def)

lemma units_inj [simp]: "units m = units n \<longleftrightarrow> m = n"
  by (simp add: units_def)

lemma units_0 [simp]: "units 0 = 0"
  by (simp add: units_def zero_quantity_def)

type_synonym resourceList = "(string, quantity) gomap"

record resourceRequirements =
  rr_Limits :: resourceList
  rr_Requests :: resourceList

section \<open>Metadata\<close>

type_synonym gotime = int

record ownerReference =
  or_APIVersion :: string
  or_Kind :: string
  or_Name :: string
  or_UID :: string
  or_Controller :: "bool option"
  or_BlockOwnerDeletion :: "bool option"

record objectMeta =
  om_Name :: string
  om_Namespace :: string
  om_UID :: string
  om_Generation :: int
  om_Labels :: strmap
  om_Annotations :: strmap
  om_DeletionTimestamp :: "gotime option"
  om_Finalizers :: "string list"
  om_OwnerReferences :: "ownerReference list"

definition emptyMeta :: objectMeta where
  "emptyMeta = \<lparr>om_Name = [], om_Namespace = [], om_UID = [], om_Generation = 0,
     om_Labels = None, om_Annotations = None, om_DeletionTimestamp = None,
     om_Finalizers = [], om_OwnerReferences = []\<rparr>"

text \<open>Name and namespace: how the API server addresses an object of a kind.\<close>

type_synonym nskey = "string \<times> string"

definition metaKey :: "objectMeta \<Rightarrow> nskey" where
  "metaKey m = (om_Namespace m, om_Name m)"

section \<open>Pods\<close>

record objectFieldSelector =
  fs_FieldPath :: string
  fs_APIVersion :: string

record envVar =
  ev_Name :: string
  ev_Value :: string
  ev_ValueFrom :: "objectFieldSelector option"

record volumeMount =
  vm_Name :: string
  vm_MountPath :: string
  vm_SubPath :: string
  vm_ReadOnly :: bool

datatype projection =
    ConfigMapProjection string "(string \<times> string) list"
  | SecretProjection string "(string \<times> string) list" "bool option"

datatype volumeSource =
    ConfigMapVolume string
  | ProjectedVolume "projection list" "int option"
  | EmptyDirVolume
  | SecretVolume string
  | DownwardAPIVolume "(string \<times> string) list"
  | OtherVolume string

record volume =
  vo_Name :: string
  vo_Source :: volumeSource

record containerPort =
  cp_Name :: string
  cp_ContainerPort :: int

datatype intOrString = FromInt int | FromString string

record probe =
  pr_TCPPort :: intOrString
  pr_InitialDelaySeconds :: int
  pr_TimeoutSeconds :: int
  pr_PeriodSeconds :: int
  pr_SuccessThreshold :: int
  pr_FailureThreshold :: int

text \<open>Security contexts and scheduling terms the source only passes on are kept as their JSON.\<close>

datatype opaque = Opaque string

record container =
  co_Name :: string
  co_Image :: string
  co_Command :: "string list"
  co_Args :: "string list"
  co_Resources :: resourceRequirements
  co_Env :: "envVar list option"
  co_Ports :: "containerPort list"
  co_VolumeMounts :: "volumeMount list option"
  co_ReadinessProbe :: "probe option"
  co_PreStop :: "string list option"
  co_SecurityContext :: "opaque option"

record podSecurityContext =
  psc_FSGroup :: "int option"
  psc_RunAsUser :: "int option"
  psc_Others :: "opaque option"

record topologySpreadConstraint =
  ts_MaxSkew :: int
  ts_TopologyKey :: string
  ts_WhenUnsatisfiable :: string
  ts_MatchLabels :: strmap

record podSpec =
  ps_TopologySpreadConstraints :: "topologySpreadConstraint list"
  ps_SecurityContext :: "podSecurityContext option"
  ps_ImagePullSecrets :: "string list option"
  ps_TerminationGracePeriodSeconds :: "int option"
  ps_ServiceAccountName :: string
  ps_AutomountServiceAccountToken :: "bool option"
  ps_Affinity :: "opaque option"
  ps_Tolerations :: "opaque list"
  ps_InitContainers :: "container list"
  ps_Volumes :: "volume list"
  ps_Containers :: "container list"

record podTemplateSpec =
  pt_Meta :: objectMeta
  pt_Spec :: podSpec

definition emptyResources :: resourceRequirements where
  "emptyResources = \<lparr>rr_Limits = None, rr_Requests = None\<rparr>"

definition emptyContainer :: container where
  "emptyContainer = \<lparr>co_Name = [], co_Image = [], co_Command = [], co_Args = [],
     co_Resources = emptyResources, co_Env = None, co_Ports = [], co_VolumeMounts = None,
     co_ReadinessProbe = None, co_PreStop = None, co_SecurityContext = None\<rparr>"

definition emptyPodSpec :: podSpec where
  "emptyPodSpec = \<lparr>ps_TopologySpreadConstraints = [], ps_SecurityContext = None,
     ps_ImagePullSecrets = None, ps_TerminationGracePeriodSeconds = None,
     ps_ServiceAccountName = [], ps_AutomountServiceAccountToken = None, ps_Affinity = None,
     ps_Tolerations = [], ps_InitContainers = [], ps_Volumes = [], ps_Containers = []\<rparr>"

text \<open>The elements of a slice that may be nil.\<close>

definition slice :: "'a list option \<Rightarrow> 'a list" where
  "slice s = (case s of None \<Rightarrow> [] | Some xs \<Rightarrow> xs)"

lemma slice_simps [simp]: "slice None = []" "slice (Some xs) = xs"
  by (simp_all add: slice_def)

section \<open>Workloads, services, configuration\<close>

record persistentVolumeClaim =
  pvc_Meta :: objectMeta
  pvc_Requests :: resourceList
  pvc_AccessModes :: "string list"
  pvc_StorageClassName :: "string option"

record updateStrategy =
  us_Type :: string
  us_Partition :: "int option"

record statefulSet =
  st_Meta :: objectMeta
  st_Replicas :: "int option"
  st_ServiceName :: string
  st_Selector :: "strmap option"
  st_VolumeClaimTemplates :: "persistentVolumeClaim list"
  st_PodManagementPolicy :: string
  st_UpdateStrategy :: updateStrategy
  st_Template :: podTemplateSpec
  st_ReadyReplicas :: int
  st_CurrentRevision :: string
  st_UpdateRevision :: string

record servicePort =
  sp_Name :: string
  sp_Protocol :: string
  sp_Port :: int
  sp_TargetPort :: intOrString
  sp_AppProtocol :: "string option"
  sp_NodePort :: int

text \<open>\<open>ss_Others\<close> stands for the fields of a service's spec that the source never names.\<close>

record serviceSpec =
  ss_Type :: string
  ss_ClusterIP :: string
  ss_SessionAffinity :: string
  ss_Selector :: strmap
  ss_Ports :: "servicePort list"
  ss_PublishNotReadyAddresses :: bool
  ss_Others :: "opaque option"

record service =
  sv_Meta :: objectMeta
  sv_Spec :: serviceSpec

record secret =
  se_Meta :: objectMeta
  se_Type :: string
  se_Data :: strmap

record configMap =
  cm_Meta :: objectMeta
  cm_Data :: strmap

record serviceAccount =
  sa_Meta :: objectMeta

record policyRule =
  rule_APIGroups :: "string list"
  rule_Resources :: "string list"
  rule_Verbs :: "string list"

record role =
  ro_Meta :: objectMeta
  ro_Rules :: "policyRule list"

record roleRef =
  ref_APIGroup :: string
  ref_Kind :: string
  ref_Name :: string

record subject =
  su_Kind :: string
  su_Name :: string

record roleBinding =
  rb_Meta :: objectMeta
  rb_RoleRef :: roleRef
  rb_Subjects :: "subject list"

record endpoints =
  ep_Meta :: objectMeta
  ep_Subsets :: "string list list"

record pod =
  po_Meta :: objectMeta

text \<open>An object as the generic client sees it.\<close>

datatype object =
    OService service
  | OSecret secret
  | OConfigMap configMap
  | OServiceAccount serviceAccount
  | ORole role
  | ORoleBinding roleBinding
  | OStatefulSet statefulSet

fun objMeta :: "object \<Rightarrow> objectMeta" where
  "objMeta (OService s) = sv_Meta s"
| "objMeta (OSecret s) = se_Meta s"
| "objMeta (OConfigMap c) = cm_Meta c"
| "objMeta (OServiceAccount a) = sa_Meta a"
| "objMeta (ORole r) = ro_Meta r"
| "objMeta (ORoleBinding b) = rb_Meta b"
| "objMeta (OStatefulSet s) = st_Meta s"

end
