(* ===== verification/Cluster_Types.thy ===== *)
theory Cluster_Types
  imports Kube_Types
begin

text \<open>
  \<^verbatim>\<open>api/v1beta1/rabbitmqcluster_types.go\<close>: the \<^verbatim>\<open>RabbitmqCluster\<close> resource and the
  questions its methods answer. The status part of the resource is in the theory \<open>Status\<close>,
  which is why the type of the whole resource takes the status as a parameter here.
\<close>

section \<open>The specification\<close>

record vaultTLSSpec =
  vt_PKIIssuerPath :: string
  vt_CommonName :: string
  vt_AltNames :: string
  vt_IpSans :: string

record vaultSpec =
  va_Role :: string
  va_Annotations :: strmap
  va_DefaultUserPath :: string
  va_DefaultUserUpdaterImage :: "string option"
  va_TLS :: vaultTLSSpec

record embeddedLabelsAnnotations =
  el_Labels :: strmap
  el_Annotations :: strmap

record embeddedObjectMeta =
  eo_Name :: string
  eo_Namespace :: string
  eo_Labels :: strmap
  eo_Annotations :: strmap

record serviceOverride =
  so_Meta :: "embeddedLabelsAnnotations option"
  so_Spec :: "serviceSpec option"

record podTemplateOverride =
  pto_Meta :: "embeddedObjectMeta option"
  pto_Spec :: "podSpec option"

record pvcOverride =
  po_pvcMeta :: embeddedObjectMeta
  po_pvcRequests :: resourceList
  po_pvcAccessModes :: "string list"
  po_pvcStorageClassName :: "string option"

record stsSpecOverride =
  sso_Replicas :: "int option"
  sso_Selector :: "strmap option"
  sso_Template :: "podTemplateOverride option"
  sso_VolumeClaimTemplates :: "pvcOverride list"
  sso_ServiceName :: string
  sso_PodManagementPolicy :: string
  sso_UpdateStrategy :: "updateStrategy option"

record stsOverride =
  sto_Meta :: "embeddedLabelsAnnotations option"
  sto_Spec :: "stsSpecOverride option"

record overrideSpec =
  ov_StatefulSet :: "stsOverride option"
  ov_Service :: "serviceOverride option"

record tlsSpec =
  tls_SecretName :: string
  tls_CaSecretName :: string
  tls_DisableNonTLSListeners :: bool

record configurationSpec =
  cf_AdditionalPlugins :: "string list"
  cf_AdditionalConfig :: string
  cf_AdvancedConfig :: string
  cf_EnvConfig :: string

record persistenceSpec =
  pe_StorageClassName :: "string option"
  pe_Storage :: "quantity option"

record clusterServiceSpec =
  cs_Type :: string
  cs_Annotations :: strmap

record clusterSpec =
  spec_Replicas :: "int option"
  spec_Image :: string
  spec_ImagePullSecrets :: "string list option"
  spec_Service :: clusterServiceSpec
  spec_Persistence :: persistenceSpec
  spec_Resources :: "resourceRequirements option"
  spec_Affinity :: "opaque option"
  spec_Tolerations :: "opaque list"
  spec_Rabbitmq :: configurationSpec
  spec_TLS :: tlsSpec
  spec_Override :: overrideSpec
  spec_SkipPostDeploySteps :: bool
  spec_TerminationGracePeriodSeconds :: "int option"
  spec_Vault :: "vaultSpec option"

record 'st cluster =
  rc_Meta :: objectMeta
  rc_Spec :: clusterSpec
  rc_Status :: 'st

abbreviation rc_Name :: "'st cluster \<Rightarrow> string" where
  "rc_Name c \<equiv> om_Name (rc_Meta c)"

abbreviation rc_Namespace :: "'st cluster \<Rightarrow> string" where
  "rc_Namespace c \<equiv> om_Namespace (rc_Meta c)"

section \<open>Methods\<close>

definition vaultSpec_TLSEnabled :: "vaultSpec \<Rightarrow> bool" where
  "vaultSpec_TLSEnabled v = (vt_PKIIssuerPath (va_TLS v) \<noteq> [])"

definition vaultSpec_DefaultUserSecretEnabled :: "vaultSpec \<Rightarrow> bool" where
  "vaultSpec_DefaultUserSecretEnabled v = (va_DefaultUserPath v \<noteq> [])"

definition VaultEnabled :: "'st cluster \<Rightarrow> bool" where
  "VaultEnabled c = (spec_Vault (rc_Spec c) \<noteq> None)"

text \<open>The three questions below test \<^verbatim>\<open>VaultEnabled\<close> before they dereference the pointer.\<close>

definition UsesDefaultUserUpdaterImage :: "'st cluster \<Rightarrow> bool" where
  "UsesDefaultUserUpdaterImage c =
     (case spec_Vault (rc_Spec c) of None \<Rightarrow> False | Some v \<Rightarrow> va_DefaultUserUpdaterImage v = None)"

definition VaultDefaultUserSecretEnabled :: "'st cluster \<Rightarrow> bool" where
  "VaultDefaultUserSecretEnabled c =
     (case spec_Vault (rc_Spec c) of None \<Rightarrow> False | Some v \<Rightarrow> vaultSpec_DefaultUserSecretEnabled v)"

definition VaultTLSEnabled :: "'st cluster \<Rightarrow> bool" where
  "VaultTLSEnabled c =
     (case spec_Vault (rc_Spec c) of None \<Rightarrow> False | Some v \<Rightarrow> vaultSpec_TLSEnabled v)"

definition SecretTLSEnabled :: "'st cluster \<Rightarrow> bool" where
  "SecretTLSEnabled c = (tls_SecretName (spec_TLS (rc_Spec c)) \<noteq> [])"

definition TLSEnabled :: "'st cluster \<Rightarrow> bool" where
  "TLSEnabled c = (SecretTLSEnabled c \<or> VaultTLSEnabled c)"

definition MutualTLSEnabled :: "'st cluster \<Rightarrow> bool" where
  "MutualTLSEnabled c =
     ((SecretTLSEnabled c \<and> tls_CaSecretName (spec_TLS (rc_Spec c)) \<noteq> []) \<or> VaultTLSEnabled c)"

definition MemoryLimited :: "'st cluster \<Rightarrow> bool" where
  "MemoryLimited c =
     (case spec_Resources (rc_Spec c) of
        None \<Rightarrow> False
      | Some r \<Rightarrow> rr_Limits r \<noteq> None \<and> mindex 0 (rr_Limits r) ''memory'' \<noteq> 0)"

definition SingleTLSSecret :: "'st cluster \<Rightarrow> bool" where
  "SingleTLSSecret c =
     (MutualTLSEnabled c
      \<and> tls_CaSecretName (spec_TLS (rc_Spec c)) = tls_SecretName (spec_TLS (rc_Spec c)))"

definition DisableNonTLSListeners :: "'st cluster \<Rightarrow> bool" where
  "DisableNonTLSListeners c = tls_DisableNonTLSListeners (spec_TLS (rc_Spec c))"

text \<open>The loop with its early return.\<close>

fun pluginIn :: "string \<Rightarrow> string list \<Rightarrow> bool" where
  "pluginIn plugin [] = False"
| "pluginIn plugin (p # ps) = (if p = plugin then True else pluginIn plugin ps)"

definition AdditionalPluginEnabled :: "'st cluster \<Rightarrow> string \<Rightarrow> bool" where
  "AdditionalPluginEnabled c plugin = pluginIn plugin (cf_AdditionalPlugins (spec_Rabbitmq (rc_Spec c)))"

definition StreamNeeded :: "'st cluster \<Rightarrow> bool" where
  "StreamNeeded c =
     (AdditionalPluginEnabled c ''rabbitmq_stream''
      \<or> AdditionalPluginEnabled c ''rabbitmq_multi_dc_replication'')"

definition ServiceSubDomain :: "'st cluster \<Rightarrow> string" where
  "ServiceSubDomain c = rc_Name c @ ''.'' @ rc_Namespace c @ ''.svc''"

definition ChildResourceName :: "'st cluster \<Rightarrow> string \<Rightarrow> string" where
  "ChildResourceName c name = trimSuffix (strJoin [rc_Name c, name] ''-'') ''-''"

definition PVCName :: "'st cluster \<Rightarrow> int \<Rightarrow> string" where
  "PVCName c i = strJoin [''persistence'', rc_Name c, ''server'', itoa i] ''-''"

section \<open>Lemmas\<close>

lemma pluginIn_iff [simp]: "pluginIn p ps \<longleftrightarrow> p \<in> set ps"
  by (induction ps) auto

lemma MutualTLS_TLS: "MutualTLSEnabled c \<Longrightarrow> TLSEnabled c"
  by (auto simp: MutualTLSEnabled_def TLSEnabled_def)

lemma VaultTLS_enabled: "VaultTLSEnabled c \<Longrightarrow> VaultEnabled c"
  by (auto simp: VaultTLSEnabled_def VaultEnabled_def split: option.splits)

text \<open>A suffix that does not end in a dash survives the trimming.\<close>

lemma ChildResourceName_suffix:
  assumes "s \<noteq> []" and "last s \<noteq> CHR ''-''"
  shows "ChildResourceName c s = rc_Name c @ ''-'' @ s"
proof -
  have "last (rc_Name c @ ''-'' @ s) = last s" using assms(1) by simp
  then have "\<not> suffix ''-'' (rc_Name c @ ''-'' @ s)"
    using assms(2) by (metis suffix_def last_snoc)
  then show ?thesis by (simp add: ChildResourceName_def trimSuffix_id)
qed

lemma ChildResourceName_empty [simp]: "ChildResourceName c [] = rc_Name c"
  by (simp add: ChildResourceName_def)

lemmas child_names = ChildResourceName_suffix [of "''server''"] ChildResourceName_suffix [of "''nodes''"]
  ChildResourceName_suffix [of "''erlang-cookie''"] ChildResourceName_suffix [of "''default-user''"]
  ChildResourceName_suffix [of "''plugins-conf''"] ChildResourceName_suffix [of "''server-conf''"]
  ChildResourceName_suffix [of "''peer-discovery''"]

lemma PVCName_shape: "PVCName c i = ''persistence-'' @ ChildResourceName c ''server'' @ ''-'' @ itoa i"
  by (simp add: PVCName_def child_names)

lemma PVCName_eq [simp]: "PVCName c i = PVCName c j \<longleftrightarrow> i = j"
  by (simp add: PVCName_shape)

text \<open>
  The names of the child resources of one cluster are pairwise distinct: the suffixes
  \<^verbatim>\<open>server\<close>, \<^verbatim>\<open>nodes\<close>, \<^verbatim>\<open>erlang-cookie\<close>, \<^verbatim>\<open>default-user\<close>,
  \<^verbatim>\<open>plugins-conf\<close>, \<^verbatim>\<open>server-conf\<close>, \<^verbatim>\<open>peer-discovery\<close> and the empty suffix of
  the client service (whose name is the cluster's own) never collide.
\<close>

theorem child_names_distinct:
  "distinct (map (ChildResourceName c)
     [[], ''server'', ''nodes'', ''erlang-cookie'', ''default-user'', ''plugins-conf'',
      ''server-conf'', ''peer-discovery''])"
  by (simp add: child_names)

text \<open>
  The operator addresses the volume claim of pod \<open>i\<close> by the name the StatefulSet controller
  gives it, \<^verbatim>\<open>persistence-<cluster>-server-<i>\<close>, that is the claim template's name, the
  StatefulSet's name and the ordinal; different ordinals give different names.
\<close>

theorem PVCName_shape_inj:
  "PVCName c i = ''persistence-'' @ ChildResourceName c ''server'' @ ''-'' @ itoa i
   \<and> (PVCName c i = PVCName c j \<longleftrightarrow> i = j)"
  by (simp add: PVCName_shape)

end
