(* ===== verification/Status.thy ===== *)
theory Status
  imports Cluster_Types
begin

text \<open>
  \<^verbatim>\<open>internal/status\<close> and \<^verbatim>\<open>api/v1beta1/rabbitmqcluster_status.go\<close>: the conditions
  in the status of a cluster, how each is computed from the child resources, and the two
  operations on the list of conditions.

  \<^verbatim>\<open>time.Now()\<close> is an argument. A computation that may panic (the container at index 0 of an
  empty list) is an \<open>outcome\<close>; the locale \<open>condition_manager\<close> states what the
  three computed conditions have in common, and the fixpoint property is proved once in it.
\<close>

section \<open>Conditions\<close>

datatype conditionType =
    AllReplicasReady
  | ClusterAvailable
  | NoWarnings
  | ReconcileSuccess
  | OtherCondition string

datatype conditionStatus = ConditionTrue | ConditionFalse | ConditionUnknown

record condition =
  cond_Type :: conditionType
  cond_Status :: conditionStatus
  cond_LastTransitionTime :: gotime
  cond_Reason :: string
  cond_Message :: string

definition newRabbitmqClusterCondition :: "conditionType \<Rightarrow> condition" where
  "newRabbitmqClusterCondition ty =
     \<lparr>cond_Type = ty, cond_Status = ConditionUnknown, cond_LastTransitionTime = 0,
      cond_Reason = [], cond_Message = []\<rparr>"

definition UpdateState :: "gotime \<Rightarrow> conditionStatus \<Rightarrow> condition \<Rightarrow> condition" where
  "UpdateState now st c =
     (let c = (if cond_Status c \<noteq> st then c\<lparr>cond_LastTransitionTime := now\<rparr> else c)
      in c\<lparr>cond_Status := st\<rparr>)"

definition UpdateReason :: "string \<Rightarrow> string list \<Rightarrow> condition \<Rightarrow> condition" where
  "UpdateReason reason messages c =
     c\<lparr>cond_Reason := reason, cond_Message := strJoin messages ''. ''\<rparr>"

definition ReconcileSuccessCondition ::
    "gotime \<Rightarrow> conditionStatus \<Rightarrow> string \<Rightarrow> string \<Rightarrow> condition" where
  "ReconcileSuccessCondition now st reason message =
     \<lparr>cond_Type = ReconcileSuccess, cond_Status = st, cond_LastTransitionTime = now,
      cond_Reason = reason, cond_Message = message\<rparr>"

text \<open>
  A child resource as the type switches see it; the pointer inside the interface may be nil.
\<close>

datatype resource =
    StsResource "statefulSet option"
  | EndpointsResource "endpoints option"
  | OtherResource

definition startCondition :: "conditionType \<Rightarrow> condition option \<Rightarrow> condition" where
  "startCondition ty old =
     (case old of
        None \<Rightarrow> newRabbitmqClusterCondition ty
      | Some oc \<Rightarrow> (newRabbitmqClusterCondition ty)
                     \<lparr>cond_LastTransitionTime := cond_LastTransitionTime oc\<rparr>)"

text \<open>The label \<^verbatim>\<open>assignLastTransitionTime\<close> of the three functions.\<close>

definition assignLastTransitionTime :: "gotime \<Rightarrow> condition option \<Rightarrow> condition \<Rightarrow> condition" where
  "assignLastTransitionTime now old c =
     (if (case old of None \<Rightarrow> True | Some oc \<Rightarrow> cond_Status oc \<noteq> cond_Status c)
      then c\<lparr>cond_LastTransitionTime := now\<rparr> else c)"

definition verdict :: "conditionStatus \<Rightarrow> string \<Rightarrow> condition \<Rightarrow> condition" where
  "verdict st reason c = c\<lparr>cond_Status := st, cond_Reason := reason\<rparr>"

definition verdictMsg :: "conditionStatus \<Rightarrow> string \<Rightarrow> string \<Rightarrow> condition \<Rightarrow> condition" where
  "verdictMsg st reason msg c = c\<lparr>cond_Status := st, cond_Reason := reason, cond_Message := msg\<rparr>"

section \<open>The computed conditions\<close>

text \<open>In each loop, leaving by \<^verbatim>\<open>goto\<close> is returning, and the loop carries the condition on.\<close>

fun allReplicasLoop :: "resource list \<Rightarrow> condition \<Rightarrow> condition" where
  "allReplicasLoop [] c = c"
| "allReplicasLoop (StsResource None # rs) c =
     verdictMsg ConditionUnknown ''MissingStatefulSet'' ''Could not find StatefulSet'' c"
| "allReplicasLoop (StsResource (Some sts) # rs) c =
     (let desiredReplicas = (case st_Replicas sts of None \<Rightarrow> 1 | Some n \<Rightarrow> n)
      in if desiredReplicas = st_ReadyReplicas sts
         then verdict ConditionTrue ''AllPodsAreReady'' c
         else allReplicasLoop rs
                (verdictMsg ConditionFalse ''NotAllPodsReady''
                   (itoa (st_ReadyReplicas sts) @ ''/'' @ itoa desiredReplicas @ '' Pods ready'') c))"
| "allReplicasLoop (_ # rs) c = allReplicasLoop rs c"

definition AllReplicasReadyCondition ::
    "resource list \<Rightarrow> condition option \<Rightarrow> gotime \<Rightarrow> condition" where
  "AllReplicasReadyCondition resources oldCondition now =
     assignLastTransitionTime now oldCondition
       (allReplicasLoop resources (startCondition AllReplicasReady oldCondition))"

fun someAddresses :: "string list list \<Rightarrow> bool" where
  "someAddresses [] = False"
| "someAddresses (addrs # subsets) = (if length addrs > 0 then True else someAddresses subsets)"

fun clusterAvailableLoop :: "resource list \<Rightarrow> condition \<Rightarrow> condition" where
  "clusterAvailableLoop [] c = c"
| "clusterAvailableLoop (EndpointsResource None # rs) c =
     verdictMsg ConditionUnknown ''CouldNotRetrieveEndpoints''
       ''Could not verify available service endpoints'' c"
| "clusterAvailableLoop (EndpointsResource (Some ep) # rs) c =
     (if someAddresses (ep_Subsets ep)
      then verdict ConditionTrue ''AtLeastOneEndpointAvailable'' c
      else clusterAvailableLoop rs
             (verdictMsg ConditionFalse ''NoEndpointsAvailable''
                ''The service has no endpoints available'' c))"
| "clusterAvailableLoop (_ # rs) c = clusterAvailableLoop rs c"

definition ClusterAvailableCondition ::
    "resource list \<Rightarrow> condition option \<Rightarrow> gotime \<Rightarrow> condition" where
  "ClusterAvailableCondition resources oldCondition now =
     assignLastTransitionTime now oldCondition
       (clusterAvailableLoop resources (startCondition ClusterAvailable oldCondition))"

text \<open>
  \<^verbatim>\<open>equality.Semantic.DeepEqual\<close> compares quantities by value, and a missing entry of a
  resource list reads as the zero quantity.
\<close>

fun noWarningsLoop :: "resource list \<Rightarrow> condition \<Rightarrow> condition outcome" where
  "noWarningsLoop [] c = Ok c"
| "noWarningsLoop (StsResource None # rs) c =
     Ok (verdictMsg ConditionUnknown ''MissingStatefulSet'' ''Could not find StatefulSet'' c)"
| "noWarningsLoop (StsResource (Some sts) # rs) c =
     (case ps_Containers (pt_Spec (st_Template sts)) of
        [] \<Rightarrow> Panic ''index out of range''
      | co # _ \<Rightarrow>
         (if mindex 0 (rr_Limits (co_Resources co)) ''memory''
               \<noteq> mindex 0 (rr_Requests (co_Resources co)) ''memory''
          then Ok (verdictMsg ConditionFalse ''MemoryRequestAndLimitDifferent''
                 ''RabbitMQ container memory resource request and limit must be equal'' c)
          else noWarningsLoop rs (verdict ConditionTrue ''NoWarnings'' c)))"
| "noWarningsLoop (_ # rs) c = noWarningsLoop rs c"

definition NoWarningsCondition ::
    "resource list \<Rightarrow> condition option \<Rightarrow> gotime \<Rightarrow> condition outcome" where
  "NoWarningsCondition resources oldCondition now =
     obind (noWarningsLoop resources (startCondition NoWarnings oldCondition))
       (\<lambda>c. Ok (assignLastTransitionTime now oldCondition c))"

section \<open>What the computed conditions have in common\<close>

text \<open>Everything of a condition but the time of its last transition.\<close>

definition cond_core :: "condition \<Rightarrow> conditionType \<times> conditionStatus \<times> string \<times> string" where
  "cond_core c = (cond_Type c, cond_Status c, cond_Reason c, cond_Message c)"

locale condition_manager =
  fixes cond :: "resource list \<Rightarrow> condition option \<Rightarrow> gotime \<Rightarrow> condition outcome"
    and ty :: conditionType
  assumes cond_type: "cond rs old now = Ok c \<Longrightarrow> cond_Type c = ty"
    and cond_same: "cond rs old now = Ok c \<Longrightarrow> \<exists>c'. cond rs old' now' = Ok c' \<and> cond_core c' = cond_core c"
    and cond_time: "cond rs old now = Ok c \<Longrightarrow> cond_LastTransitionTime c =
      (case old of None \<Rightarrow> now
       | Some oc \<Rightarrow> if cond_Status oc = cond_Status c then cond_LastTransitionTime oc else now)"
begin

lemma cond_transition:
  assumes "cond rs (Some oc) now = Ok c" and "now \<noteq> cond_LastTransitionTime oc"
  shows "cond_LastTransitionTime c \<noteq> cond_LastTransitionTime oc \<longleftrightarrow> cond_Status c \<noteq> cond_Status oc"
  using cond_time [OF assms(1)] assms(2) by auto

text \<open>Computing the condition again from the same resources changes nothing.\<close>

lemma cond_stable:
  assumes "cond rs old now = Ok c"
  shows "cond rs (Some c) now' = Ok c"
proof -
  from cond_same [OF assms, of "Some c" now'] obtain c' where
    c': "cond rs (Some c) now' = Ok c'" and core: "cond_core c' = cond_core c" by blast
  from cond_time [OF c'] core have "cond_LastTransitionTime c' = cond_LastTransitionTime c"
    by (simp add: cond_core_def)
  with core have "c' = c" by (simp add: cond_core_def condition.equality)
  with c' show ?thesis by simp
qed

end

text \<open>
  The facts about the loops: the status, reason and message they compute do not read the
  transition time, and they leave type and time alone.
\<close>

definition frame :: "condition \<Rightarrow> conditionType \<times> gotime" where
  "frame c = (cond_Type c, cond_LastTransitionTime c)"

lemma verdict_frame [simp]:
  "frame (verdict st r c) = frame c" "frame (verdictMsg st r m c) = frame c"
  by (simp_all add: frame_def verdict_def verdictMsg_def)

lemma verdict_core:
  assumes "cond_core c = cond_core c'"
  shows "cond_core (verdict st r c) = cond_core (verdict st r c')"
    and "cond_core (verdictMsg st r m c) = cond_core (verdictMsg st r m c')"
  using assms by (simp_all add: cond_core_def verdict_def verdictMsg_def)

lemma allReplicasLoop_frame [simp]: "frame (allReplicasLoop rs c) = frame c"
  by (induction rs c rule: allReplicasLoop.induct) (auto simp: Let_def)

lemma allReplicasLoop_core:
  "cond_core c = cond_core c' \<Longrightarrow> cond_core (allReplicasLoop rs c) = cond_core (allReplicasLoop rs c')"
proof (induction rs c arbitrary: c' rule: allReplicasLoop.induct)
  case (3 sts rs c)
  show ?case
    using "3.IH" [OF refl _ verdict_core(2) [OF "3.prems"]] verdict_core(1) [OF "3.prems"]
    by (simp add: Let_def)
qed (auto intro: verdict_core)

lemma clusterAvailableLoop_frame [simp]: "frame (clusterAvailableLoop rs c) = frame c"
  by (induction rs c rule: clusterAvailableLoop.induct) auto

lemma clusterAvailableLoop_core:
  "cond_core c = cond_core c' \<Longrightarrow>
   cond_core (clusterAvailableLoop rs c) = cond_core (clusterAvailableLoop rs c')"
proof (induction rs c arbitrary: c' rule: clusterAvailableLoop.induct)
  case (3 ep rs c)
  show ?case
    using "3.IH" [OF _ verdict_core(2) [OF "3.prems"]] verdict_core(1) [OF "3.prems"]
    by simp
qed (auto intro: verdict_core)

lemma noWarningsLoop_frame: "noWarningsLoop rs c = Ok d \<Longrightarrow> frame d = frame c"
  by (induction rs c rule: noWarningsLoop.induct) (auto split: list.splits if_splits)

lemma noWarningsLoop_core:
  "cond_core c = cond_core c' \<Longrightarrow> noWarningsLoop rs c = Ok d \<Longrightarrow>
   \<exists>d'. noWarningsLoop rs c' = Ok d' \<and> cond_core d' = cond_core d"
proof (induction rs c arbitrary: c' rule: noWarningsLoop.induct)
  case (3 sts rs c)
  show ?case
  proof (cases "ps_Containers (pt_Spec (st_Template sts))")
    case Nil
    with "3.prems"(2) show ?thesis by simp
  next
    case (Cons co cos)
    with "3.prems" "3.IH" [OF Cons _ verdict_core(1) [OF "3.prems"(1)]]
    show ?thesis by (auto split: if_splits intro: verdict_core)
  qed
qed (auto intro: verdict_core)

lemma startCondition_simps [simp]:
  "cond_Type (startCondition ty old) = ty"
  "cond_LastTransitionTime (startCondition ty (Some oc)) = cond_LastTransitionTime oc"
  "cond_core (startCondition ty old) = cond_core (newRabbitmqClusterCondition ty)"
  by (simp_all add: startCondition_def newRabbitmqClusterCondition_def cond_core_def split: option.splits)

lemma assign_core [simp]: "cond_core (assignLastTransitionTime now old c) = cond_core c"
  by (simp add: assignLastTransitionTime_def cond_core_def)

lemma assign_time:
  assumes "frame c = frame (startCondition ty old)"
  shows "cond_Type (assignLastTransitionTime now old c) = ty"
    and "cond_LastTransitionTime (assignLastTransitionTime now old c) =
      (case old of None \<Rightarrow> now
       | Some oc \<Rightarrow> if cond_Status oc = cond_Status (assignLastTransitionTime now old c)
                    then cond_LastTransitionTime oc else now)"
  using assms by (auto simp: frame_def assignLastTransitionTime_def split: option.splits)

interpretation allReplicas: condition_manager
  "\<lambda>rs old now. Ok (AllReplicasReadyCondition rs old now)" AllReplicasReady
proof
  fix rs old now c old' now'
  assume "Ok (AllReplicasReadyCondition rs old now) = Ok c"
  then have c: "c = AllReplicasReadyCondition rs old now" by simp
  show "cond_Type c = AllReplicasReady"
    unfolding c AllReplicasReadyCondition_def by (rule assign_time) simp
  show "\<exists>c'. Ok (AllReplicasReadyCondition rs old' now') = Ok c' \<and> cond_core c' = cond_core c"
    unfolding c AllReplicasReadyCondition_def
    by (auto intro: allReplicasLoop_core)
  show "cond_LastTransitionTime c = (case old of None \<Rightarrow> now
       | Some oc \<Rightarrow> if cond_Status oc = cond_Status c then cond_LastTransitionTime oc else now)"
    unfolding c AllReplicasReadyCondition_def by (rule assign_time) simp
qed

interpretation available: condition_manager
  "\<lambda>rs old now. Ok (ClusterAvailableCondition rs old now)" ClusterAvailable
proof
  fix rs old now c old' now'
  assume "Ok (ClusterAvailableCondition rs old now) = Ok c"
  then have c: "c = ClusterAvailableCondition rs old now" by simp
  show "cond_Type c = ClusterAvailable"
    unfolding c ClusterAvailableCondition_def by (rule assign_time) simp
  show "\<exists>c'. Ok (ClusterAvailableCondition rs old' now') = Ok c' \<and> cond_core c' = cond_core c"
    unfolding c ClusterAvailableCondition_def
    by (auto intro: clusterAvailableLoop_core)
  show "cond_LastTransitionTime c = (case old of None \<Rightarrow> now
       | Some oc \<Rightarrow> if cond_Status oc = cond_Status c then cond_LastTransitionTime oc else now)"
    unfolding c ClusterAvailableCondition_def by (rule assign_time) simp
qed

interpretation warnings: condition_manager NoWarningsCondition NoWarnings
proof
  fix rs old now c old' now'
  assume "NoWarningsCondition rs old now = Ok c"
  then obtain d where d: "noWarningsLoop rs (startCondition NoWarnings old) = Ok d"
    and c: "c = assignLastTransitionTime now old d" by (auto simp: NoWarningsCondition_def)
  show "cond_Type c = NoWarnings"
    unfolding c by (rule assign_time) (rule noWarningsLoop_frame [OF d])
  show "\<exists>c'. NoWarningsCondition rs old' now' = Ok c' \<and> cond_core c' = cond_core c"
    using noWarningsLoop_core [OF _ d, of "startCondition NoWarnings old'"]
    by (auto simp: NoWarningsCondition_def c)
  show "cond_LastTransitionTime c = (case old of None \<Rightarrow> now
       | Some oc \<Rightarrow> if cond_Status oc = cond_Status c then cond_LastTransitionTime oc else now)"
    unfolding c by (rule assign_time) (rule noWarningsLoop_frame [OF d])
qed

section \<open>The status of a cluster\<close>

record secretReference =
  sr_Name :: string
  sr_Namespace :: string
  sr_Keys :: strmap

record serviceReference =
  svr_Name :: string
  svr_Namespace :: string

record defaultUserStatus =
  du_SecretReference :: "secretReference option"
  du_ServiceReference :: "serviceReference option"

record clusterStatus =
  cst_Conditions :: "condition list"
  cst_DefaultUser :: "defaultUserStatus option"
  cst_Binding :: "string option"
  cst_ObservedGeneration :: int

type_synonym rabbitmqCluster = "clusterStatus cluster"

text \<open>The loop of \<^verbatim>\<open>SetConditions\<close> remembers the last condition of each type.\<close>

fun lastOfType :: "conditionType \<Rightarrow> condition list \<Rightarrow> condition option \<Rightarrow> condition option" where
  "lastOfType ty [] old = old"
| "lastOfType ty (c # cs) old = lastOfType ty cs (if cond_Type c = ty then Some c else old)"

text \<open>\<open>clk ty\<close> is what \<^verbatim>\<open>time.Now()\<close> returns while the condition of type \<open>ty\<close> is computed.\<close>

definition SetConditions ::
    "(conditionType \<Rightarrow> gotime) \<Rightarrow> resource list \<Rightarrow> clusterStatus \<Rightarrow> clusterStatus outcome" where
  "SetConditions clk resources st =
     (let oldAllPodsReady = lastOfType AllReplicasReady (cst_Conditions st) None;
          oldClusterAvailable = lastOfType ClusterAvailable (cst_Conditions st) None;
          oldNoWarnings = lastOfType NoWarnings (cst_Conditions st) None;
          oldReconcile = lastOfType ReconcileSuccess (cst_Conditions st) None;
          allReplicasReadyCond =
            AllReplicasReadyCondition resources oldAllPodsReady (clk AllReplicasReady);
          clusterAvailableCond =
            ClusterAvailableCondition resources oldClusterAvailable (clk ClusterAvailable)
      in obind (NoWarningsCondition resources oldNoWarnings (clk NoWarnings)) (\<lambda>noWarningsCond.
         let reconciledCondition =
               (case oldReconcile of
                  Some oc \<Rightarrow> oc
                | None \<Rightarrow> ReconcileSuccessCondition (clk ReconcileSuccess) ConditionUnknown
                            ''Initialising'' [])
         in Ok (st\<lparr>cst_Conditions :=
              [allReplicasReadyCond, clusterAvailableCond, noWarningsCond, reconciledCondition]\<rparr>)))"

fun setFirst ::
    "conditionType \<Rightarrow> (condition \<Rightarrow> condition) \<Rightarrow> condition list \<Rightarrow> condition list" where
  "setFirst ty f [] = []"
| "setFirst ty f (c # cs) = (if cond_Type c = ty then f c # cs else c # setFirst ty f cs)"

definition SetCondition ::
    "gotime \<Rightarrow> conditionType \<Rightarrow> conditionStatus \<Rightarrow> string \<Rightarrow> string list
     \<Rightarrow> clusterStatus \<Rightarrow> clusterStatus" where
  "SetCondition now condType condStatus reason messages st =
     st\<lparr>cst_Conditions :=
       setFirst condType (\<lambda>c. UpdateReason reason messages (UpdateState now condStatus c))
         (cst_Conditions st)\<rparr>"

section \<open>Properties of the two operations on the conditions\<close>

lemma lastOfType_type: "lastOfType ty cs old = Some c \<Longrightarrow> cond_Type c = ty \<or> old = Some c"
proof (induction cs arbitrary: old)
  case Nil
  then show ?case by simp
next
  case (Cons d ds)
  show ?case
  proof (cases "cond_Type d = ty")
    case True
    with Cons.prems Cons.IH [of "Some d"] show ?thesis by auto
  next
    case False
    with Cons.prems Cons.IH [of old] show ?thesis by simp
  qed
qed

lemma lastOfType_None: "lastOfType ty cs None = Some c \<Longrightarrow> cond_Type c = ty"
  using lastOfType_type by fastforce

lemma SetConditions_cases:
  assumes "SetConditions clk rs st = Ok st'"
  obtains a b w r where "st' = st\<lparr>cst_Conditions := [a, b, w, r]\<rparr>"
    "a = AllReplicasReadyCondition rs (lastOfType AllReplicasReady (cst_Conditions st) None)
           (clk AllReplicasReady)"
    "b = ClusterAvailableCondition rs (lastOfType ClusterAvailable (cst_Conditions st) None)
           (clk ClusterAvailable)"
    "NoWarningsCondition rs (lastOfType NoWarnings (cst_Conditions st) None) (clk NoWarnings) = Ok w"
    "r = (case lastOfType ReconcileSuccess (cst_Conditions st) None of
            Some oc \<Rightarrow> oc
          | None \<Rightarrow> ReconcileSuccessCondition (clk ReconcileSuccess) ConditionUnknown
                      ''Initialising'' [])"
    "cond_Type a = AllReplicasReady" "cond_Type b = ClusterAvailable" "cond_Type w = NoWarnings"
    "cond_Type r = ReconcileSuccess"
proof -
  from assms obtain w where
    w: "NoWarningsCondition rs (lastOfType NoWarnings (cst_Conditions st) None) (clk NoWarnings) = Ok w"
    by (auto simp: SetConditions_def Let_def)
  define r where "r = (case lastOfType ReconcileSuccess (cst_Conditions st) None of
            Some oc \<Rightarrow> oc
          | None \<Rightarrow> ReconcileSuccessCondition (clk ReconcileSuccess) ConditionUnknown
                      ''Initialising'' [])"
  have type: "cond_Type r = ReconcileSuccess"
    by (auto simp: r_def ReconcileSuccessCondition_def split: option.splits dest: lastOfType_None)
  have eq: "st' = st\<lparr>cst_Conditions :=
      [AllReplicasReadyCondition rs (lastOfType AllReplicasReady (cst_Conditions st) None)
         (clk AllReplicasReady),
       ClusterAvailableCondition rs (lastOfType ClusterAvailable (cst_Conditions st) None)
         (clk ClusterAvailable), w, r]\<rparr>"
    using assms by (simp add: SetConditions_def Let_def w r_def [symmetric])
  show ?thesis
    by (rule that [OF eq refl refl w r_def allReplicas.cond_type [OF refl]
          available.cond_type [OF refl] warnings.cond_type [OF w] type])
qed

text \<open>
  After \<^verbatim>\<open>SetConditions\<close> the status holds exactly the four operator conditions, in
  fixed order and one of each type (so a later \<^verbatim>\<open>SetCondition\<close> always finds its condition);
  a previous \<^verbatim>\<open>ReconcileSuccess\<close> condition is carried over unchanged, and nothing else of the
  status changes.
\<close>

theorem SetConditions_shape:
  assumes "SetConditions clk rs st = Ok st'"
  shows "map cond_Type (cst_Conditions st')
           = [AllReplicasReady, ClusterAvailable, NoWarnings, ReconcileSuccess]
    \<and> (case lastOfType ReconcileSuccess (cst_Conditions st) None of None \<Rightarrow> True
        | Some oc \<Rightarrow> cst_Conditions st' ! 3 = oc)
    \<and> st'\<lparr>cst_Conditions := cst_Conditions st\<rparr> = st"
proof -
  from assms obtain a b w r where eq: "st' = st\<lparr>cst_Conditions := [a, b, w, r]\<rparr>"
    and r: "r = (case lastOfType ReconcileSuccess (cst_Conditions st) None of
            Some oc \<Rightarrow> oc
          | None \<Rightarrow> ReconcileSuccessCondition (clk ReconcileSuccess) ConditionUnknown
                      ''Initialising'' [])"
    and types: "cond_Type a = AllReplicasReady" "cond_Type b = ClusterAvailable"
      "cond_Type w = NoWarnings" "cond_Type r = ReconcileSuccess"
    by (rule SetConditions_cases)
  have "case lastOfType ReconcileSuccess (cst_Conditions st) None of None \<Rightarrow> True
        | Some oc \<Rightarrow> cst_Conditions st' ! 3 = oc"
    by (simp add: eq r split: option.split)
  then show ?thesis by (simp add: eq types)
qed

definition demoStatus :: clusterStatus where
  "demoStatus = \<lparr>cst_Conditions = [ReconcileSuccessCondition 5 ConditionTrue ''Success'' []],
     cst_DefaultUser = None, cst_Binding = None, cst_ObservedGeneration = 1\<rparr>"

theorem SetConditions_shape_witness:
  "\<exists>st'. SetConditions (\<lambda>_. 9) [StsResource None, EndpointsResource None] demoStatus = Ok st'
     \<and> map cond_Type (cst_Conditions st')
         = [AllReplicasReady, ClusterAvailable, NoWarnings, ReconcileSuccess]
     \<and> cst_Conditions st' ! 3 = ReconcileSuccessCondition 5 ConditionTrue ''Success'' []"
proof -
  obtain st' where st': "SetConditions (\<lambda>_. 9) [StsResource None, EndpointsResource None] demoStatus = Ok st'"
    by (simp add: SetConditions_def Let_def NoWarningsCondition_def)
  have last: "lastOfType ReconcileSuccess (cst_Conditions demoStatus) None
      = Some (ReconcileSuccessCondition 5 ConditionTrue ''Success'' [])"
    by (simp add: demoStatus_def ReconcileSuccessCondition_def)
  show ?thesis
    using st' SetConditions_shape [OF st'] last by (intro exI [of _ st']) simp
qed

text \<open>
  Recomputing the conditions from the same child resources, at whatever later time, changes
  nothing: the transition times move only with the statuses. The reconciler therefore writes
  the status once and not on every pass.
\<close>

theorem SetConditions_stable:
  assumes "SetConditions clk rs st = Ok st'"
  shows "SetConditions clk' rs st' = Ok st'"
  using assms
proof (rule SetConditions_cases)
  fix a b w r
  assume st': "st' = st\<lparr>cst_Conditions := [a, b, w, r]\<rparr>"
    and a: "a = AllReplicasReadyCondition rs (lastOfType AllReplicasReady (cst_Conditions st) None)
           (clk AllReplicasReady)"
    and b: "b = ClusterAvailableCondition rs (lastOfType ClusterAvailable (cst_Conditions st) None)
           (clk ClusterAvailable)"
    and w: "NoWarningsCondition rs (lastOfType NoWarnings (cst_Conditions st) None) (clk NoWarnings) = Ok w"
    and types: "cond_Type a = AllReplicasReady" "cond_Type b = ClusterAvailable"
      "cond_Type w = NoWarnings" "cond_Type r = ReconcileSuccess"
  from allReplicas.cond_stable [OF arg_cong [OF a [symmetric], of Ok], of "clk' AllReplicasReady"]
    available.cond_stable [OF arg_cong [OF b [symmetric], of Ok], of "clk' ClusterAvailable"]
    warnings.cond_stable [OF w, of "clk' NoWarnings"]
  show ?thesis by (simp add: SetConditions_def Let_def st' types)
qed

theorem SetConditions_stable_witness:
  "\<exists>st'. SetConditions (\<lambda>_. 9) [StsResource None, EndpointsResource None] demoStatus = Ok st'
     \<and> SetConditions (\<lambda>_. 77) [StsResource None, EndpointsResource None] st' = Ok st'"
proof -
  obtain st' where st': "SetConditions (\<lambda>_. 9) [StsResource None, EndpointsResource None] demoStatus = Ok st'"
    by (simp add: SetConditions_def Let_def NoWarningsCondition_def)
  with SetConditions_stable [OF st', of "\<lambda>_. 77"] show ?thesis by blast
qed

lemma someAddresses_iff: "someAddresses subsets \<longleftrightarrow> (\<exists>addrs \<in> set subsets. addrs \<noteq> [])"
  by (induction subsets) auto

definition statusOf :: "bool \<Rightarrow> conditionStatus" where
  "statusOf b = (if b then ConditionTrue else ConditionFalse)"

lemma assign_status [simp]: "cond_Status (assignLastTransitionTime now old c) = cond_Status c"
  by (simp add: assignLastTransitionTime_def)

lemma replicas_status:
  "cond_Status (AllReplicasReadyCondition [StsResource s, EndpointsResource e] old now) =
    (case s of None \<Rightarrow> ConditionUnknown
     | Some sts \<Rightarrow> statusOf (st_ReadyReplicas sts = (case st_Replicas sts of None \<Rightarrow> 1 | Some n \<Rightarrow> n)))"
  by (cases s) (auto simp: AllReplicasReadyCondition_def verdict_def verdictMsg_def statusOf_def Let_def)

lemma available_status:
  "cond_Status (ClusterAvailableCondition [StsResource s, EndpointsResource e] old now) =
    (case e of None \<Rightarrow> ConditionUnknown
     | Some ep \<Rightarrow> statusOf (\<exists>addrs \<in> set (ep_Subsets ep). addrs \<noteq> []))"
  by (cases e) (simp_all add: ClusterAvailableCondition_def verdict_def verdictMsg_def statusOf_def
      someAddresses_iff)

lemma warnings_status:
  assumes "NoWarningsCondition [StsResource s, EndpointsResource e] old now = Ok w"
  shows "cond_Status w =
    (case s of None \<Rightarrow> ConditionUnknown
     | Some sts \<Rightarrow> let r = co_Resources (hd (ps_Containers (pt_Spec (st_Template sts)))) in
         statusOf (mindex 0 (rr_Limits r) ''memory'' = mindex 0 (rr_Requests r) ''memory''))"
proof (cases s)
  case None
  with assms show ?thesis by (auto simp: NoWarningsCondition_def verdictMsg_def)
next
  case (Some sts)
  with assms show ?thesis
    by (cases "ps_Containers (pt_Spec (st_Template sts))")
       (auto simp: NoWarningsCondition_def verdictMsg_def verdict_def statusOf_def Let_def
         split: if_splits)
qed

text \<open>
  C31. What the first three statuses mean, for the resources the controller passes (the
  StatefulSet and the endpoints of the client service, each possibly missing): all replicas are
  ready exactly when the ready count equals the desired one (1 if unset), the cluster is
  available exactly when some subset has an address, there is no warning exactly when the
  memory request and limit of the first container agree, and a missing object is \<^verbatim>\<open>Unknown\<close>.
\<close>

theorem SetConditions_meaning:
  assumes "SetConditions clk [StsResource s, EndpointsResource e] st = Ok st'"
  shows "map cond_Status (take 3 (cst_Conditions st')) =
    [case s of None \<Rightarrow> ConditionUnknown
       | Some sts \<Rightarrow> statusOf (st_ReadyReplicas sts = (case st_Replicas sts of None \<Rightarrow> 1 | Some n \<Rightarrow> n)),
     case e of None \<Rightarrow> ConditionUnknown
       | Some ep \<Rightarrow> statusOf (\<exists>addrs \<in> set (ep_Subsets ep). addrs \<noteq> []),
     case s of None \<Rightarrow> ConditionUnknown
       | Some sts \<Rightarrow> let r = co_Resources (hd (ps_Containers (pt_Spec (st_Template sts)))) in
           statusOf (mindex 0 (rr_Limits r) ''memory'' = mindex 0 (rr_Requests r) ''memory'')]"
proof -
  from assms obtain a b w r where eq: "st' = st\<lparr>cst_Conditions := [a, b, w, r]\<rparr>"
    and a: "a = AllReplicasReadyCondition [StsResource s, EndpointsResource e]
          (lastOfType AllReplicasReady (cst_Conditions st) None) (clk AllReplicasReady)"
    and b: "b = ClusterAvailableCondition [StsResource s, EndpointsResource e]
          (lastOfType ClusterAvailable (cst_Conditions st) None) (clk ClusterAvailable)"
    and w: "NoWarningsCondition [StsResource s, EndpointsResource e]
          (lastOfType NoWarnings (cst_Conditions st) None) (clk NoWarnings) = Ok w"
    by (rule SetConditions_cases)
  show ?thesis
    by (simp add: eq a b replicas_status available_status warnings_status [OF w])
qed

theorem SetConditions_meaning_witness:
  "\<exists>st'. SetConditions (\<lambda>_. 9) [StsResource None, EndpointsResource
        (Some \<lparr>ep_Meta = emptyMeta, ep_Subsets = [[], [''10.0.0.1'']]\<rparr>)] demoStatus = Ok st'
     \<and> map cond_Status (take 3 (cst_Conditions st'))
         = [ConditionUnknown, ConditionTrue, ConditionUnknown]"
proof -
  obtain st' where st': "SetConditions (\<lambda>_. 9) [StsResource None, EndpointsResource
        (Some \<lparr>ep_Meta = emptyMeta, ep_Subsets = [[], [''10.0.0.1'']]\<rparr>)] demoStatus = Ok st'"
    by (simp add: SetConditions_def Let_def NoWarningsCondition_def)
  with SetConditions_meaning [OF st'] show ?thesis by (auto simp: statusOf_def)
qed

lemma setFirst_nth:
  "i < length cs \<Longrightarrow> setFirst ty f cs ! i =
     (if cond_Type (cs ! i) = ty \<and> (\<forall>j < i. cond_Type (cs ! j) \<noteq> ty) then f (cs ! i) else cs ! i)"
proof (induction cs arbitrary: i)
  case Nil
  then show ?case by simp
next
  case (Cons c cs)
  then show ?case by (cases i) (auto simp: All_less_Suc2)
qed

lemma length_setFirst [simp]: "length (setFirst ty f cs) = length cs"
  by (induction cs) auto

text \<open>
  \<^verbatim>\<open>SetCondition\<close> changes the first condition of the given type and no other entry: it
  gets the status, the reason and the messages joined by \<^verbatim>\<open>. \<close>, and a new transition time
  exactly when its status changes; the other fields of the status stay.
\<close>

theorem SetCondition_effect:
  assumes "i < length (cst_Conditions st)"
  shows "cst_Conditions (SetCondition now ty s reason msgs st) ! i =
      (let c = cst_Conditions st ! i in
       if cond_Type c = ty \<and> (\<forall>j < i. cond_Type (cst_Conditions st ! j) \<noteq> ty)
       then \<lparr>cond_Type = ty, cond_Status = s,
             cond_LastTransitionTime = (if cond_Status c = s then cond_LastTransitionTime c else now),
             cond_Reason = reason, cond_Message = strJoin msgs ''. ''\<rparr>
       else c)
    \<and> length (cst_Conditions (SetCondition now ty s reason msgs st)) = length (cst_Conditions st)
    \<and> (SetCondition now ty s reason msgs st)\<lparr>cst_Conditions := cst_Conditions st\<rparr> = st"
  using assms
  by (auto simp: SetCondition_def setFirst_nth UpdateReason_def UpdateState_def Let_def)

theorem SetCondition_effect_witness:
  "0 < length (cst_Conditions demoStatus)
   \<and> cst_Conditions (SetCondition 8 ReconcileSuccess ConditionFalse ''Error'' [''x'', ''y''] demoStatus) ! 0
      = ReconcileSuccessCondition 8 ConditionFalse ''Error'' ''x. y''"
proof -
  have "0 < length (cst_Conditions demoStatus)" by (simp add: demoStatus_def)
  with SetCondition_effect [OF this, of 8 ReconcileSuccess ConditionFalse "''Error''" "[''x'', ''y'']"]
  show ?thesis by (simp add: demoStatus_def ReconcileSuccessCondition_def)
qed

end
