(* ===== verification/Metadata.thy ===== *)
theory Metadata
  imports Go_Prelude
begin

text \<open>
  \<^verbatim>\<open>internal/metadata\<close>: labels and annotations of the child resources
  (\<^verbatim>\<open>annotation.go\<close>, \<^verbatim>\<open>label.go\<close>).

  The merge is written twice. \<open>mergeWithFilterLoop\<close> is the loop over the entries the
  \<^verbatim>\<open>range\<close> statement happens to produce; \<open>mergeWithFilter\<close> is the pointwise map it
  computes, and what the other theories use. \<open>mergeWithFilter_loop\<close> shows they agree for
  every order of iteration.
\<close>

section \<open>Annotations\<close>

definition isKubernetesAnnotation :: "string \<Rightarrow> bool" where
  "isKubernetesAnnotation k = (strContains k ''kubernetes.io'' \<or> strContains k ''k8s.io'')"

definition isNotKubernetesAnnotation :: "string \<Rightarrow> bool" where
  "isNotKubernetesAnnotation k = (\<not> isKubernetesAnnotation k)"

text \<open>The inner loop, over one visit of one map.\<close>

fun mergeEntries :: "(string \<Rightarrow> bool) \<Rightarrow> (string \<times> string) list \<Rightarrow> strmap \<Rightarrow> strmap" where
  "mergeEntries flt [] result = result"
| "mergeEntries flt ((k, v) # kvs) result =
     mergeEntries flt kvs (if flt k then mput result k v else result)"

fun mergeWithFilterLoop :: "(string \<Rightarrow> bool) \<Rightarrow> strmap \<Rightarrow> (string \<times> string) list list \<Rightarrow> strmap" where
  "mergeWithFilterLoop flt base visits = foldl (\<lambda>r kvs. mergeEntries flt kvs r) (mmake base) visits"

definition mergeOne :: "(string \<Rightarrow> bool) \<Rightarrow> strmap \<Rightarrow> strmap \<Rightarrow> strmap" where
  "mergeOne flt m result =
     Some (\<lambda>k. if flt k \<and> mget m k \<noteq> None then mget m k else mget result k)"

definition mergeWithFilter :: "(string \<Rightarrow> bool) \<Rightarrow> strmap \<Rightarrow> strmap list \<Rightarrow> strmap" where
  "mergeWithFilter flt base maps = foldl (\<lambda>r m. mergeOne flt m r) (mmake base) maps"

definition ReconcileAnnotations :: "strmap \<Rightarrow> strmap list \<Rightarrow> strmap" where
  "ReconcileAnnotations existing defaults = mergeWithFilter (\<lambda>k. True) existing defaults"

definition ReconcileAndFilterAnnotations :: "strmap \<Rightarrow> strmap list \<Rightarrow> strmap" where
  "ReconcileAndFilterAnnotations existing defaults =
     mergeWithFilter isNotKubernetesAnnotation existing defaults"

lemma mget_mergeOne [simp]:
  "mget (mergeOne flt m r) k = (if flt k \<and> mget m k \<noteq> None then mget m k else mget r k)"
  by (simp add: mergeOne_def)

lemma mergeOne_not_None [simp]: "mergeOne flt m r \<noteq> None"
  by (simp add: mergeOne_def)

lemma mergeEntries_not_None [simp]: "r \<noteq> None \<Longrightarrow> mergeEntries flt kvs r \<noteq> None"
  by (induction flt kvs r rule: mergeEntries.induct) auto

lemma mget_mergeEntries:
  "r \<noteq> None \<Longrightarrow> distinct (map fst kvs) \<Longrightarrow>
   mget (mergeEntries flt kvs r) k =
     (if flt k \<and> map_of kvs k \<noteq> None then map_of kvs k else mget r k)"
proof (induction flt kvs r rule: mergeEntries.induct)
  case (1 flt result)
  then show ?case by simp
next
  case (2 flt k' v kvs result)
  have "(if flt k' then mput result k' v else result) \<noteq> None"
    using "2.prems"(1) by auto
  moreover have "map_of kvs k' = None"
    using "2.prems"(2) by (simp add: map_of_eq_None_iff)
  ultimately show ?case
    using 2 by (auto simp: mget_mput)
qed

lemma mergeEntries_mergeOne:
  "r \<noteq> None \<Longrightarrow> range_of m kvs \<Longrightarrow> mergeEntries flt kvs r = mergeOne flt m r"
  by (rule gomap_eqI) (auto simp: mget_mergeEntries range_of_def)

lemma mergeWithFilter_not_None [simp]: "mergeWithFilter flt base maps \<noteq> None"
  by (induction maps rule: rev_induct) (simp_all add: mergeWithFilter_def)

lemma mergeWithFilter_snoc:
  "mergeWithFilter flt base (maps @ [m]) = mergeOne flt m (mergeWithFilter flt base maps)"
  by (simp add: mergeWithFilter_def)

lemma mergeWithFilter_Nil [simp]: "mergeWithFilter flt base [] = mmake base"
  by (simp add: mergeWithFilter_def)

lemma fold_merges:
  "list_all2 range_of maps visits \<Longrightarrow> r \<noteq> None \<Longrightarrow>
   foldl (\<lambda>r kvs. mergeEntries flt kvs r) r visits = foldl (\<lambda>r m. mergeOne flt m r) r maps"
  by (induction arbitrary: r rule: list_all2_induct) (simp_all add: mergeEntries_mergeOne)

text \<open>
  Go leaves the order of a \<^verbatim>\<open>range\<close> over a map open; the merged annotations do not
  depend on it, for any number of merged maps, any filter and a nil or non-nil base.
\<close>

theorem mergeWithFilter_loop:
  assumes "list_all2 range_of maps visits"
  shows "mergeWithFilterLoop flt base visits = mergeWithFilter flt base maps"
  using fold_merges [OF assms, of "mmake base" flt] by (simp add: mergeWithFilter_def)

theorem mergeWithFilter_loop_witness:
  "mergeWithFilterLoop (\<lambda>k. k \<noteq> ''b'') None [[(''b'', ''1''), (''a'', ''2'')], [(''a'', ''3'')]]
     = mergeWithFilter (\<lambda>k. k \<noteq> ''b'') None
         [mlit [(''a'', ''2''), (''b'', ''1'')], mlit [(''a'', ''3'')]]"
  by (rule mergeWithFilter_loop) (simp add: range_of_def)

section \<open>What a reconciling merge promises\<close>

text \<open>
  The contract of the merges the builders use: the result is a map, the entries of an overlay
  that pass \<open>keep\<close> win over what is below them, and nothing else changes.
\<close>

locale annotation_merge =
  fixes merge :: "strmap \<Rightarrow> strmap list \<Rightarrow> strmap"
    and keep :: "string \<Rightarrow> bool"
  assumes merge_not_None: "merge base ms \<noteq> None"
    and merge_Nil: "merge base [] = mmake base"
    and merge_snoc: "mget (merge base (ms @ [m])) k =
      (if keep k \<and> mget m k \<noteq> None then mget m k else mget (merge base ms) k)"
begin

lemma merge_one:
  "mget (merge base [m]) k = (if keep k \<and> mget m k \<noteq> None then mget m k else mget base k)"
  using merge_snoc [of base "[]" m k] by (simp add: merge_Nil)

lemma merge_last: "keep k \<Longrightarrow> mget m k = Some v \<Longrightarrow> mget (merge base (ms @ [m])) k = Some v"
  by (simp add: merge_snoc)

lemma merge_below:
  "mget (merge base ms) k = mget base k" if "\<forall>m \<in> set ms. keep k \<longrightarrow> mget m k = None"
  using that by (induction ms rule: rev_induct) (auto simp: merge_Nil merge_snoc)

lemma merge_filtered: "\<not> keep k \<Longrightarrow> mget (merge base ms) k = mget base k"
  by (rule merge_below) simp

lemma merge_defined: "mget base k \<noteq> None \<Longrightarrow> mget (merge base ms) k \<noteq> None"
  by (induction ms rule: rev_induct) (auto simp: merge_Nil merge_snoc)

text \<open>The value of a key comes from the overlays alone when one of them has it.\<close>

lemma merge_indep:
  "\<exists>m \<in> set ms. keep k \<and> mget m k \<noteq> None \<Longrightarrow> mget (merge a ms) k = mget (merge b ms) k"
  by (induction ms rule: rev_induct) (auto simp: merge_snoc)

lemma merge_idem: "merge (merge base ms) ms = merge base ms"
proof (rule gomap_eqI)
  fix k
  show "mget (merge (merge base ms) ms) k = mget (merge base ms) k"
  proof (cases "\<exists>m \<in> set ms. keep k \<and> mget m k \<noteq> None")
    case True
    then show ?thesis by (rule merge_indep)
  next
    case False
    then show ?thesis by (intro merge_below) blast
  qed
qed (simp_all add: merge_not_None)

end

interpretation reconcile: annotation_merge ReconcileAnnotations "\<lambda>k. True"
  by unfold_locales (auto simp: ReconcileAnnotations_def mergeWithFilter_snoc)

interpretation filtered: annotation_merge ReconcileAndFilterAnnotations isNotKubernetesAnnotation
  by unfold_locales (auto simp: ReconcileAndFilterAnnotations_def mergeWithFilter_snoc)

text \<open>
  \<^verbatim>\<open>ReconcileAndFilterAnnotations\<close> never introduces or changes a Kubernetes annotation:
  a key that contains \<^verbatim>\<open>kubernetes.io\<close> or \<^verbatim>\<open>k8s.io\<close> keeps the value the object
  already had, whatever the cluster's own annotations say; every other key of the last map
  wins; and no existing key is lost.
\<close>

theorem filtered_annotations_contract:
  "(isKubernetesAnnotation k \<longrightarrow> mget (ReconcileAndFilterAnnotations base ms) k = mget base k)
   \<and> (\<not> isKubernetesAnnotation k \<and> mget m k = Some v
        \<longrightarrow> mget (ReconcileAndFilterAnnotations base (ms @ [m])) k = Some v)
   \<and> (mget base k \<noteq> None \<longrightarrow> mget (ReconcileAndFilterAnnotations base ms) k \<noteq> None)"
  by (simp add: filtered.merge_filtered filtered.merge_last filtered.merge_defined
      isNotKubernetesAnnotation_def)

theorem filtered_annotations_contract_witness:
  "mget (ReconcileAndFilterAnnotations (mlit [(''k8s.io/a'', ''old'')])
      [mlit [(''k8s.io/a'', ''new'')]]) ''k8s.io/a'' = Some ''old''
   \<and> mget (ReconcileAndFilterAnnotations None ([] @ [mlit [(''team'', ''x'')]])) ''team'' = Some ''x''
   \<and> mget (ReconcileAndFilterAnnotations (mlit [(''team'', ''y'')]) []) ''team'' \<noteq> None"
  using filtered_annotations_contract
      [of "''k8s.io/a''" "mlit [(''k8s.io/a'', ''old'')]" "[mlit [(''k8s.io/a'', ''new'')]]"]
    filtered_annotations_contract [of "''team''" None "[]" "mlit [(''team'', ''x'')]" "''x''"]
    filtered_annotations_contract [of "''team''" "mlit [(''team'', ''y'')]" "[]"]
  by (simp add: isKubernetesAnnotation_def)

section \<open>Labels\<close>

definition Label :: "string \<Rightarrow> strmap" where
  "Label instanceName = mlit
     [(''app.kubernetes.io/name'', instanceName),
      (''app.kubernetes.io/component'', ''rabbitmq''),
      (''app.kubernetes.io/part-of'', ''rabbitmq'')]"

definition GetLabels :: "string \<Rightarrow> strmap \<Rightarrow> strmap" where
  "GetLabels instanceName instanceLabels =
     mergeOne (\<lambda>label. \<not> hasPrefix label ''app.kubernetes.io'') instanceLabels (Label instanceName)"

definition LabelSelector :: "string \<Rightarrow> strmap" where
  "LabelSelector instanceName = mlit [(''app.kubernetes.io/name'', instanceName)]"

text \<open>A label selector matches the objects that carry every one of its labels.\<close>

definition selects :: "strmap \<Rightarrow> strmap \<Rightarrow> bool" where
  "selects sel labels \<longleftrightarrow> (\<forall>k v. mget sel k = Some v \<longrightarrow> mget labels k = Some v)"

lemma GetLabels_not_None [simp]: "GetLabels n ls \<noteq> None"
  by (simp add: GetLabels_def)

lemma Label_not_None [simp]: "Label n \<noteq> None"
  by (simp add: Label_def)

text \<open>The loop over the instance's labels, in any order, computes \<open>GetLabels\<close>.\<close>

lemma GetLabels_loop:
  "range_of instanceLabels kvs \<Longrightarrow>
   mergeEntries (\<lambda>label. \<not> hasPrefix label ''app.kubernetes.io'') kvs (Label n) = GetLabels n instanceLabels"
  by (simp add: GetLabels_def mergeEntries_mergeOne)

lemma mget_GetLabels:
  "mget (GetLabels n ls) k =
     (if hasPrefix k ''app.kubernetes.io'' then mget (Label n) k else mget ls k)"
proof -
  have "\<not> hasPrefix k ''app.kubernetes.io'' \<Longrightarrow> mget (Label n) k = None"
    by (auto simp: hasPrefix_def Label_def)
  then show ?thesis by (auto simp: GetLabels_def)
qed


end
