(* ===== verification/Environment.thy ===== *)
theory Environment
  imports Status Metadata
begin

text \<open>
  What the resource builders take from outside the repository, gathered in one record that
  every definition which needs it takes as its argument \<open>E\<close>:

  \<^item> \<^verbatim>\<open>controllerutil.SetControllerReference\<close>;
  \<^item> the JSON encoding and the strategic merge patch of service and pod specifications;
  \<^item> the \<^verbatim>\<open>gopkg.in/ini.v1\<close> library. An \<^verbatim>\<open>ini.File\<close> is the term of the operations
    performed on it, so that any deterministic library is one choice of \<open>env_iniError\<close> (did the
    last operation fail) and \<open>env_iniWrite\<close> (the text it writes);
  \<^item> the bytes \<^verbatim>\<open>rand.Read\<close> returns on its i-th call of a build;
  \<^item> the order in which a \<^verbatim>\<open>range\<close> over a map of service ports visits its entries.

  Two things these libraries document are named as hypotheses below.
\<close>

datatype iniFile =
    IniLoad string
  | IniEmpty
  | IniNewKey iniFile string string
  | IniAppend iniFile string

type_synonym json = string

record env =
  env_setControllerReference :: "rabbitmqCluster \<Rightarrow> objectMeta \<Rightarrow> error + objectMeta"
  env_marshalServiceSpec :: "serviceSpec \<Rightarrow> error + json"
  env_mergeServiceSpec :: "json \<Rightarrow> json \<Rightarrow> error + json"
  env_unmarshalServiceSpec :: "json \<Rightarrow> error + serviceSpec"
  env_marshalPodSpec :: "podSpec \<Rightarrow> error + json"
  env_mergePodSpec :: "json \<Rightarrow> json \<Rightarrow> error + json"
  env_unmarshalPodSpec :: "json \<Rightarrow> error + podSpec"
  env_iniError :: "iniFile \<Rightarrow> error option"
  env_iniWrite :: "iniFile \<Rightarrow> error + string"
  env_rand :: "nat \<Rightarrow> nat \<Rightarrow> error + string"
  env_visitPorts :: "(string, servicePort) gomap \<Rightarrow> (string \<times> servicePort) list"

text \<open>
  \<^verbatim>\<open>SetControllerReference\<close> "sets owner as a Controller OwnerReference on controlled": it
  touches the owner references only, and where the reference is already set it changes nothing.
\<close>

definition setsOwnerOnly :: "env \<Rightarrow> bool" where
  "setsOwnerOnly E \<longleftrightarrow>
     (\<forall>c m m'. env_setControllerReference E c m = Inr m' \<longrightarrow>
        m'\<lparr>om_OwnerReferences := om_OwnerReferences m\<rparr> = m
        \<and> env_setControllerReference E c m' = Inr m')"

text \<open>\<^verbatim>\<open>rand.Read\<close> fills the slice it is given or fails.\<close>

definition fillsBytes :: "env \<Rightarrow> bool" where
  "fillsBytes E \<longleftrightarrow> (\<forall>i n bs. env_rand E i n = Inr bs \<longrightarrow> length bs = n)"

text \<open>The guard of every builder's update: set the owner reference or wrap the error.\<close>

definition setOwner :: "env \<Rightarrow> rabbitmqCluster \<Rightarrow> objectMeta \<Rightarrow> objectMeta outcome" where
  "setOwner E c m =
     wrapErr ''failed setting controller reference'' (lift (env_setControllerReference E c m))"

lemma setOwner_fields:
  assumes "setsOwnerOnly E" and "setOwner E c m = Ok m'"
  shows "om_Name m' = om_Name m" "om_Namespace m' = om_Namespace m" "om_UID m' = om_UID m"
    "om_Labels m' = om_Labels m" "om_Annotations m' = om_Annotations m"
    "metaKey m' = metaKey m" "setOwner E c m' = Ok m'"
proof -
  from assms have eq: "m'\<lparr>om_OwnerReferences := om_OwnerReferences m\<rparr> = m"
    and again: "env_setControllerReference E c m' = Inr m'"
    by (auto simp: setsOwnerOnly_def setOwner_def)
  from eq show "om_Name m' = om_Name m" "om_Namespace m' = om_Namespace m" "om_UID m' = om_UID m"
    "om_Labels m' = om_Labels m" "om_Annotations m' = om_Annotations m" "metaKey m' = metaKey m"
    by (metis objectMeta.ext_inject objectMeta.surjective objectMeta.update_convs(9) metaKey_def)+
  from again show "setOwner E c m' = Ok m'" by (simp add: setOwner_def)
qed

text \<open>An operation on an \<^verbatim>\<open>ini.File\<close>, with the error it may return.\<close>

definition iniStep :: "env \<Rightarrow> iniFile \<Rightarrow> iniFile outcome" where
  "iniStep E f = (case env_iniError E f of None \<Rightarrow> Ok f | Some e \<Rightarrow> Err e)"

lemma iniStep_Ok [simp]: "iniStep E f = Ok g \<longleftrightarrow> env_iniError E f = None \<and> g = f"
  by (auto simp: iniStep_def split: option.splits)

section \<open>Metadata of the child objects\<close>

text \<open>
  The labels and annotations almost every child object inherits from the cluster, and the
  name and namespace its build gives it.
\<close>

definition inheritMeta :: "rabbitmqCluster \<Rightarrow> objectMeta \<Rightarrow> objectMeta" where
  "inheritMeta c m = m\<lparr>om_Labels := GetLabels (rc_Name c) (om_Labels (rc_Meta c)),
     om_Annotations := ReconcileAndFilterAnnotations (om_Annotations m) [om_Annotations (rc_Meta c)]\<rparr>"

definition namedMeta :: "rabbitmqCluster \<Rightarrow> string \<Rightarrow> objectMeta" where
  "namedMeta c suf = emptyMeta\<lparr>om_Name := ChildResourceName c suf, om_Namespace := rc_Namespace c\<rparr>"

lemma inheritMeta_key [simp]: "metaKey (inheritMeta c m) = metaKey m"
  by (simp add: inheritMeta_def metaKey_def)

lemma inheritMeta_again:
  assumes "om_Labels m' = om_Labels (inheritMeta c m)"
    and "om_Annotations m' = om_Annotations (inheritMeta c m)"
  shows "inheritMeta c m' = m'"
  using assms by (simp add: inheritMeta_def filtered.merge_idem)

section \<open>The contract of a builder's update\<close>

text \<open>
  A reconciler runs a builder's update on every pass, on an object it wrote before. The
  contract is that the update never moves the object to another name or namespace and that an
  object it has produced is a fixpoint: a pass over an up-to-date object writes nothing.
\<close>

locale resource_update =
  fixes upd :: "env \<Rightarrow> rabbitmqCluster \<Rightarrow> 'o \<Rightarrow> 'o outcome"
    and ometa :: "'o \<Rightarrow> objectMeta"
    and pre :: "env \<Rightarrow> rabbitmqCluster \<Rightarrow> bool"
  assumes upd_key: "setsOwnerOnly E \<Longrightarrow> upd E c ob = Ok ob' \<Longrightarrow> metaKey (ometa ob') = metaKey (ometa ob)"
    and upd_fix: "setsOwnerOnly E \<Longrightarrow> pre E c \<Longrightarrow> upd E c ob = Ok ob' \<Longrightarrow> upd E c ob' = Ok ob'"
begin

fun passes :: "nat \<Rightarrow> env \<Rightarrow> rabbitmqCluster \<Rightarrow> 'o \<Rightarrow> 'o outcome" where
  "passes 0 E c ob = Ok ob"
| "passes (Suc n) E c ob = obind (upd E c ob) (passes n E c)"

text \<open>However many passes follow the first, they succeed and change nothing.\<close>

lemma passes_stable:
  "setsOwnerOnly E \<Longrightarrow> pre E c \<Longrightarrow> upd E c ob = Ok ob' \<Longrightarrow> passes (Suc n) E c ob = Ok ob'"
proof (induction n arbitrary: ob)
  case 0
  then show ?case by simp
next
  case (Suc n)
  then have "upd E c ob' = Ok ob'" by (blast intro: upd_fix)
  with Suc.IH [OF Suc.prems(1,2) this] Suc.prems(3) show ?case by simp
qed

lemma passes_key:
  "setsOwnerOnly E \<Longrightarrow> passes n E c ob = Ok ob' \<Longrightarrow> metaKey (ometa ob') = metaKey (ometa ob)"
proof (induction n arbitrary: ob)
  case 0
  then show ?case by simp
next
  case (Suc n)
  then obtain mid where mid: "upd E c ob = Ok mid" and rest: "passes n E c mid = Ok ob'"
    by auto
  from upd_key [OF Suc.prems(1) mid] Suc.IH [OF Suc.prems(1) rest] show ?case by simp
qed

end

section \<open>Updates that rewrite the metadata and set the owner\<close>

text \<open>
  Most builders do three things: rewrite the metadata (\<open>touch\<close>), set the owner reference, and
  overwrite some other fields (\<open>put\<close>). Such an update meets the contract as soon as rewriting
  the metadata a second time changes nothing and \<open>put\<close> overwrites what it wrote.
\<close>

locale owned_update =
  fixes upd :: "env \<Rightarrow> rabbitmqCluster \<Rightarrow> 'o \<Rightarrow> 'o outcome"
    and ometa :: "'o \<Rightarrow> objectMeta"
    and touch :: "rabbitmqCluster \<Rightarrow> objectMeta \<Rightarrow> objectMeta"
    and put :: "rabbitmqCluster \<Rightarrow> objectMeta \<Rightarrow> 'o \<Rightarrow> 'o"
  assumes upd_eq: "upd E c ob = obind (setOwner E c (touch c (ometa ob))) (\<lambda>m. Ok (put c m ob))"
    and touch_key: "metaKey (touch c m) = metaKey m"
    and touch_again: "om_Labels m' = om_Labels (touch c m) \<Longrightarrow>
      om_Annotations m' = om_Annotations (touch c m) \<Longrightarrow> touch c m' = m'"
    and ometa_put: "ometa (put c m ob) = m"
    and put_put: "put c m (put c m ob) = put c m ob"

sublocale owned_update \<subseteq> resource_update upd ometa "\<lambda>_ _. True"
proof
  fix E c ob ob'
  assume E: "setsOwnerOnly E" and upd: "upd E c ob = Ok ob'"
  then obtain m where m: "setOwner E c (touch c (ometa ob)) = Ok m" and ob': "ob' = put c m ob"
    by (auto simp: upd_eq)
  note fields = setOwner_fields [OF E m]
  show "metaKey (ometa ob') = metaKey (ometa ob)"
    by (simp add: ob' ometa_put fields touch_key)
  have "touch c m = m" by (rule touch_again) (simp_all add: fields)
  then show "upd E c ob' = Ok ob'"
    by (simp add: upd_eq ob' ometa_put fields put_put)
qed

end
