(* ===== verification/Samples.thy ===== *)
theory Samples
  imports Environment
begin

text \<open>
  A concrete environment and concrete clusters: the inputs at which the witnesses of the
  properties are evaluated. The environment sets the owner reference the way the library
  documents it, reads and writes no JSON, accepts every ini operation, returns fixed bytes as
  random ones, and visits the entries of a map in the order of a fixed list of names.
\<close>

definition ownerOf :: "rabbitmqCluster \<Rightarrow> ownerReference" where
  "ownerOf c = \<lparr>or_APIVersion = ''rabbitmq.com/v1beta1'', or_Kind = ''RabbitmqCluster'',
     or_Name = rc_Name c, or_UID = om_UID (rc_Meta c), or_Controller = Some True,
     or_BlockOwnerDeletion = Some True\<rparr>"

definition samplePortNames :: "string list" where
  "samplePortNames = [''stream'', ''streams'', ''mqtt'', ''mqtts'', ''stomp'', ''stomps'', ''web-mqtt'',
     ''web-stomp'', ''web-mqtt-tls'', ''web-stomp-tls'', ''prometheus'', ''prometheus-tls'',
     ''management-tls'', ''management'', ''amqps'', ''amqp'']"

definition samplePodSpec :: podSpec where
  "samplePodSpec = emptyPodSpec\<lparr>ps_Containers := [emptyContainer\<lparr>co_Name := ''rabbitmq''\<rparr>]\<rparr>"

definition sampleServiceSpec :: serviceSpec where
  "sampleServiceSpec = \<lparr>ss_Type = ''ClusterIP'', ss_ClusterIP = [], ss_SessionAffinity = [],
     ss_Selector = None, ss_Ports = [], ss_PublishNotReadyAddresses = False, ss_Others = None\<rparr>"

definition sampleEnv :: env where
  "sampleEnv = \<lparr>
     env_setControllerReference = (\<lambda>c m. Inr (m\<lparr>om_OwnerReferences := [ownerOf c]\<rparr>)),
     env_marshalServiceSpec = (\<lambda>s. Inr ''{}''),
     env_mergeServiceSpec = (\<lambda>a b. Inr a),
     env_unmarshalServiceSpec = (\<lambda>j. Inr sampleServiceSpec),
     env_marshalPodSpec = (\<lambda>s. Inr ''{}''),
     env_mergePodSpec = (\<lambda>a b. Inr a),
     env_unmarshalPodSpec = (\<lambda>j. Inr samplePodSpec),
     env_iniError = (\<lambda>f. None),
     env_iniWrite = (\<lambda>f. Inr ''conf''),
     env_rand = (\<lambda>i n. Inr (replicate n (CHR ''k''))),
     env_visitPorts = (\<lambda>m. concat (map (\<lambda>k. case mget m k of None \<Rightarrow> [] | Some v \<Rightarrow> [(k, v)])
        samplePortNames))\<rparr>"

definition sampleSpec :: clusterSpec where
  "sampleSpec = \<lparr>
     spec_Replicas = Some 3,
     spec_Image = ''rabbitmq:3.10.2-management'',
     spec_ImagePullSecrets = Some [],
     spec_Service = \<lparr>cs_Type = ''ClusterIP'', cs_Annotations = None\<rparr>,
     spec_Persistence = \<lparr>pe_StorageClassName = None, pe_Storage = Some (units 10)\<rparr>,
     spec_Resources = Some \<lparr>rr_Limits = mlit [(''memory'', units 4096)],
        rr_Requests = mlit [(''memory'', units 4096)]\<rparr>,
     spec_Affinity = None, spec_Tolerations = [],
     spec_Rabbitmq = \<lparr>cf_AdditionalPlugins = [''rabbitmq_mqtt'', ''rabbitmq_web_mqtt''],
        cf_AdditionalConfig = [], cf_AdvancedConfig = [], cf_EnvConfig = []\<rparr>,
     spec_TLS = \<lparr>tls_SecretName = ''tls'', tls_CaSecretName = [], tls_DisableNonTLSListeners = False\<rparr>,
     spec_Override = \<lparr>ov_StatefulSet = None, ov_Service = None\<rparr>,
     spec_SkipPostDeploySteps = False,
     spec_TerminationGracePeriodSeconds = Some 604800,
     spec_Vault = None\<rparr>"

definition sampleCluster :: rabbitmqCluster where
  "sampleCluster = \<lparr>
     rc_Meta = emptyMeta\<lparr>om_Name := ''rmq'', om_Namespace := ''ns'', om_UID := ''u1'',
       om_Generation := 2\<rparr>,
     rc_Spec = sampleSpec,
     rc_Status = \<lparr>cst_Conditions = [],
       cst_DefaultUser = Some \<lparr>du_SecretReference = Some \<lparr>sr_Name = ''rmq-default-user'', sr_Namespace = ''ns'',
            sr_Keys = mlit [(''username'', ''username''), (''password'', ''password'')]\<rparr>,
          du_ServiceReference = Some \<lparr>svr_Name = ''rmq'', svr_Namespace = ''ns''\<rparr>\<rparr>,
       cst_Binding = Some ''rmq-default-user'', cst_ObservedGeneration = 0\<rparr>\<rparr>"

definition sampleVault :: vaultSpec where
  "sampleVault = \<lparr>va_Role = ''rabbitmq'', va_Annotations = None, va_DefaultUserPath = ''secret/data/rmq'',
     va_DefaultUserUpdaterImage = None,
     va_TLS = \<lparr>vt_PKIIssuerPath = ''pki/issue/x'', vt_CommonName = [], vt_AltNames = [], vt_IpSans = []\<rparr>\<rparr>"

definition vaultCluster :: rabbitmqCluster where
  "vaultCluster = sampleCluster\<lparr>rc_Spec := sampleSpec\<lparr>spec_Vault := Some sampleVault\<rparr>\<rparr>"

lemma sampleEnv_owner: "setsOwnerOnly sampleEnv"
  by (auto simp: setsOwnerOnly_def sampleEnv_def)

lemma sampleEnv_bytes: "fillsBytes sampleEnv"
  by (auto simp: fillsBytes_def sampleEnv_def)

lemma sample_setOwner [simp]:
  "setOwner sampleEnv c m = Ok (m\<lparr>om_OwnerReferences := [ownerOf c]\<rparr>)"
  by (simp add: setOwner_def sampleEnv_def)

lemma sample_libraries [simp]:
  "iniStep sampleEnv f = Ok f" "env_iniWrite sampleEnv f = Inr ''conf''"
  "env_rand sampleEnv i n = Inr (replicate n (CHR ''k''))"
  by (simp_all add: iniStep_def sampleEnv_def)

lemmas sample_defs = sampleCluster_def sampleSpec_def sampleVault_def vaultCluster_def emptyMeta_def

lemma sample_methods [simp]:
  "SecretTLSEnabled sampleCluster" "TLSEnabled sampleCluster" "\<not> MutualTLSEnabled sampleCluster"
  "\<not> VaultEnabled sampleCluster" "\<not> VaultTLSEnabled sampleCluster"
  "\<not> VaultDefaultUserSecretEnabled sampleCluster" "\<not> DisableNonTLSListeners sampleCluster"
  "AdditionalPluginEnabled sampleCluster p \<longleftrightarrow> p = ''rabbitmq_mqtt'' \<or> p = ''rabbitmq_web_mqtt''"
  "\<not> StreamNeeded sampleCluster" "rc_Name sampleCluster = ''rmq''" "rc_Namespace sampleCluster = ''ns''"
  by (simp_all add: sampleCluster_def sampleSpec_def emptyMeta_def TLSEnabled_def MutualTLSEnabled_def
      SecretTLSEnabled_def VaultTLSEnabled_def VaultEnabled_def VaultDefaultUserSecretEnabled_def
      DisableNonTLSListeners_def AdditionalPluginEnabled_def StreamNeeded_def)

end
