(* ===== verification/Services.thy ===== *)
theory Services
  imports Samples
begin

text \<open>
  \<^verbatim>\<open>headless_service.go\<close> and \<^verbatim>\<open>service.go\<close> of \<^verbatim>\<open>internal/resource\<close>: the
  headless service that names the nodes and the client service, whose ports depend on TLS, on
  the plugins and on the ports the API server already assigned.
\<close>

definition headlessServiceSuffix :: string where "headlessServiceSuffix = ''nodes''"
definition ServiceSuffix :: string where "ServiceSuffix = []"

section \<open>Headless service\<close>

definition emptyServiceSpec :: serviceSpec where
  "emptyServiceSpec = \<lparr>ss_Type = [], ss_ClusterIP = [], ss_SessionAffinity = [], ss_Selector = None,
     ss_Ports = [], ss_PublishNotReadyAddresses = False, ss_Others = None\<rparr>"

definition HeadlessService_Build :: "rabbitmqCluster \<Rightarrow> service" where
  "HeadlessService_Build c =
     \<lparr>sv_Meta = namedMeta c headlessServiceSuffix, sv_Spec = emptyServiceSpec\<rparr>"

definition headlessSpec :: "rabbitmqCluster \<Rightarrow> serviceSpec" where
  "headlessSpec c = \<lparr>
     ss_Type = ''ClusterIP'',
     ss_ClusterIP = ''None'',
     ss_SessionAffinity = ''None'',
     ss_Selector = LabelSelector (rc_Name c),
     ss_Ports =
       [\<lparr>sp_Name = ''epmd'', sp_Protocol = ''TCP'', sp_Port = 4369, sp_TargetPort = FromInt 4369,
         sp_AppProtocol = None, sp_NodePort = 0\<rparr>,
        \<lparr>sp_Name = ''cluster-rpc'', sp_Protocol = ''TCP'', sp_Port = 25672, sp_TargetPort = FromInt 25672,
         sp_AppProtocol = None, sp_NodePort = 0\<rparr>],
     ss_PublishNotReadyAddresses = True,
     ss_Others = None\<rparr>"

definition HeadlessService_Update :: "env \<Rightarrow> rabbitmqCluster \<Rightarrow> service \<Rightarrow> service outcome" where
  "HeadlessService_Update E c sv =
     obind (setOwner E c (inheritMeta c (sv_Meta sv)))
       (\<lambda>m. Ok (sv\<lparr>sv_Meta := m, sv_Spec := headlessSpec c\<rparr>))"

interpretation headless: owned_update HeadlessService_Update sv_Meta inheritMeta
    "\<lambda>c m sv. sv\<lparr>sv_Meta := m, sv_Spec := headlessSpec c\<rparr>"
  by (unfold_locales; (rule inheritMeta_again; assumption)?; simp add: HeadlessService_Update_def)

section \<open>Client service\<close>

definition Service_Build :: "rabbitmqCluster \<Rightarrow> service" where
  "Service_Build c = \<lparr>sv_Meta = namedMeta c ServiceSuffix, sv_Spec = emptyServiceSpec\<rparr>"

text \<open>The value of one assignment \<^verbatim>\<open>servicePortsMap[name] = corev1.ServicePort{...}\<close>.\<close>

definition svcPort :: "string \<Rightarrow> int \<Rightarrow> string \<Rightarrow> servicePort" where
  "svcPort name port app = \<lparr>sp_Name = name, sp_Protocol = ''TCP'', sp_Port = port,
     sp_TargetPort = FromInt port, sp_AppProtocol = Some app, sp_NodePort = 0\<rparr>"

definition whenElems :: "bool \<Rightarrow> 'a list \<Rightarrow> 'a list" where
  "whenElems b xs = (if b then xs else [])"

text \<open>The assignments of \<^verbatim>\<open>generateServicePortsMap\<close>, in the order of the source.\<close>

definition servicePortAssignments :: "rabbitmqCluster \<Rightarrow> servicePort list" where
  "servicePortAssignments c =
     whenElems (\<not> DisableNonTLSListeners c)
       ([svcPort ''amqp'' 5672 ''amqp'', svcPort ''management'' 15672 ''http'']
        @ whenElems (AdditionalPluginEnabled c ''rabbitmq_mqtt'') [svcPort ''mqtt'' 1883 ''mqtt'']
        @ whenElems (AdditionalPluginEnabled c ''rabbitmq_web_mqtt'') [svcPort ''web-mqtt'' 15675 ''http'']
        @ whenElems (AdditionalPluginEnabled c ''rabbitmq_stomp'')
            [svcPort ''stomp'' 61613 ''stomp.github.io/stomp'']
        @ whenElems (AdditionalPluginEnabled c ''rabbitmq_web_stomp'') [svcPort ''web-stomp'' 15674 ''http'']
        @ whenElems (StreamNeeded c) [svcPort ''stream'' 5552 ''rabbitmq.com/stream''])
     @ (if TLSEnabled c
        then [svcPort ''amqps'' 5671 ''amqps'', svcPort ''management-tls'' 15671 ''https'']
          @ whenElems (AdditionalPluginEnabled c ''rabbitmq_stomp'')
              [svcPort ''stomps'' 61614 ''stomp.github.io/stomp-tls'']
          @ whenElems (AdditionalPluginEnabled c ''rabbitmq_mqtt'') [svcPort ''mqtts'' 8883 ''mqtts'']
          @ whenElems (StreamNeeded c) [svcPort ''streams'' 5551 ''rabbitmq.com/stream-tls'']
          @ [svcPort ''prometheus-tls'' 15691 ''prometheus.io/metric-tls'']
        else [svcPort ''prometheus'' 15692 ''prometheus.io/metrics''])
     @ whenElems (MutualTLSEnabled c)
         (whenElems (AdditionalPluginEnabled c ''rabbitmq_web_stomp'')
            [svcPort ''web-stomp-tls'' 15673 ''https'']
          @ whenElems (AdditionalPluginEnabled c ''rabbitmq_web_mqtt'')
              [svcPort ''web-mqtt-tls'' 15676 ''https''])"

definition generateServicePortsMap :: "rabbitmqCluster \<Rightarrow> (string, servicePort) gomap" where
  "generateServicePortsMap c =
     foldl (\<lambda>m p. mput m (sp_Name p) p) (Some Map.empty) (servicePortAssignments c)"

text \<open>The first loop of \<^verbatim>\<open>updatePorts\<close>: the ports kept, and what is left of the map.\<close>

fun keepPorts :: "servicePort list \<Rightarrow> (string, servicePort) gomap
    \<Rightarrow> servicePort list \<times> (string, servicePort) gomap" where
  "keepPorts [] m = ([], m)"
| "keepPorts (servicePort # ports) m =
     (case mget m (sp_Name servicePort) of
        Some v \<Rightarrow>
          (let (updated, rest) = keepPorts ports (mdelete m (sp_Name servicePort))
           in (v\<lparr>sp_NodePort := sp_NodePort servicePort\<rparr> # updated, rest))
      | None \<Rightarrow> keepPorts ports m)"

definition updatePorts :: "env \<Rightarrow> rabbitmqCluster \<Rightarrow> servicePort list \<Rightarrow> servicePort list" where
  "updatePorts E c servicePorts =
     (let (updatedServicePorts, servicePortsMap) = keepPorts servicePorts (generateServicePortsMap c)
      in updatedServicePorts @ map snd (env_visitPorts E servicePortsMap))"

definition setAnnotations :: "rabbitmqCluster \<Rightarrow> strmap \<Rightarrow> strmap" where
  "setAnnotations c ann =
     (if cs_Annotations (spec_Service (rc_Spec c)) \<noteq> None
      then ReconcileAnnotations
             (ReconcileAndFilterAnnotations ann [om_Annotations (rc_Meta c)])
             [cs_Annotations (spec_Service (rc_Spec c))]
      else ReconcileAndFilterAnnotations ann [om_Annotations (rc_Meta c)])"

text \<open>\<^verbatim>\<open>mergeMap\<close> and \<^verbatim>\<open>copyLabelsAnnotations\<close> of \<^verbatim>\<open>statefulset.go\<close>.\<close>

definition mergeMap :: "strmap \<Rightarrow> strmap \<Rightarrow> strmap" where
  "mergeMap base override = mergeOne (\<lambda>k. True) override base"

definition copyLabelsAnnotations :: "objectMeta \<Rightarrow> embeddedLabelsAnnotations \<Rightarrow> objectMeta" where
  "copyLabelsAnnotations base override =
     (let m = (if el_Labels override \<noteq> None
               then base\<lparr>om_Labels := mergeMap (om_Labels base) (el_Labels override)\<rparr> else base)
      in if el_Annotations override \<noteq> None
         then m\<lparr>om_Annotations := mergeMap (om_Annotations m) (el_Annotations override)\<rparr> else m)"

definition applySvcOverride :: "env \<Rightarrow> service \<Rightarrow> serviceOverride \<Rightarrow> service outcome" where
  "applySvcOverride E svc override =
     (let svc = (case so_Meta override of
                   None \<Rightarrow> svc
                 | Some el \<Rightarrow> svc\<lparr>sv_Meta := copyLabelsAnnotations (sv_Meta svc) el\<rparr>)
      in case so_Spec override of
           None \<Rightarrow> Ok svc
         | Some spec \<Rightarrow>
             obind (wrapErr ''error marshalling Service Spec'' (lift (env_marshalServiceSpec E (sv_Spec svc))))
               (\<lambda>originalSvcSpec.
             obind (wrapErr ''error marshalling Service Spec override'' (lift (env_marshalServiceSpec E spec)))
               (\<lambda>patch.
             obind (wrapErr ''error patching Service Spec'' (lift (env_mergeServiceSpec E originalSvcSpec patch)))
               (\<lambda>patchedJSON.
             obind (wrapErr ''error unmarshalling patched Service Spec'' (lift (env_unmarshalServiceSpec E patchedJSON)))
               (\<lambda>patchedSvcSpec. Ok (svc\<lparr>sv_Spec := patchedSvcSpec\<rparr>))))))"

definition clusterIPService :: "rabbitmqCluster \<Rightarrow> bool" where
  "clusterIPService c =
     (cs_Type (spec_Service (rc_Spec c)) = ''ClusterIP'' \<or> cs_Type (spec_Service (rc_Spec c)) = [])"

definition touchService :: "rabbitmqCluster \<Rightarrow> objectMeta \<Rightarrow> objectMeta" where
  "touchService c m = m\<lparr>om_Annotations := setAnnotations c (om_Annotations m),
     om_Labels := GetLabels (rc_Name c) (om_Labels (rc_Meta c))\<rparr>"

definition servicePortsFor :: "env \<Rightarrow> rabbitmqCluster \<Rightarrow> servicePort list \<Rightarrow> servicePort list" where
  "servicePortsFor E c ports =
     (let ps = updatePorts E c ports
      in if clusterIPService c then map (\<lambda>p. p\<lparr>sp_NodePort := 0\<rparr>) ps else ps)"

definition Service_Update :: "env \<Rightarrow> rabbitmqCluster \<Rightarrow> service \<Rightarrow> service outcome" where
  "Service_Update E c sv =
     (let spec = sv_Spec sv;
          sv = sv\<lparr>sv_Meta := touchService c (sv_Meta sv),
                  sv_Spec := spec\<lparr>ss_Type := cs_Type (spec_Service (rc_Spec c)),
                    ss_Selector := LabelSelector (rc_Name c),
                    ss_Ports := servicePortsFor E c (ss_Ports spec)\<rparr>\<rparr>
      in obind (case ov_Service (spec_Override (rc_Spec c)) of
                  None \<Rightarrow> Ok sv
                | Some ov \<Rightarrow> wrapErr ''failed applying Service override'' (applySvcOverride E sv ov))
         (\<lambda>sv. obind (setOwner E c (sv_Meta sv)) (\<lambda>m. Ok (sv\<lparr>sv_Meta := m\<rparr>))))"

section \<open>The table of ports\<close>

lemma whenElems_simps [simp]:
  "map f (whenElems b xs) = whenElems b (map f xs)"
  "distinct (whenElems b xs) \<longleftrightarrow> (b \<longrightarrow> distinct xs)"
  "set (whenElems b xs) = (if b then set xs else {})"
  "list_all P (whenElems b xs) \<longleftrightarrow> (b \<longrightarrow> list_all P xs)"
  by (simp_all add: whenElems_def)

lemma sp_Name_svcPort [simp]: "sp_Name (svcPort n p a) = n" "sp_NodePort (svcPort n p a) = 0"
  by (simp_all add: svcPort_def)

text \<open>
  The names assigned for one cluster are some of sixteen distinct names, in this order.
\<close>

lemma subseq_whenElems: "subseq xs ys \<Longrightarrow> subseq (whenElems b xs) ys"
  by (simp add: whenElems_def)

lemma subseq_if: "subseq xs zs \<Longrightarrow> subseq ys ws \<Longrightarrow> subseq (if b then xs else ys) (zs @ ws)"
  by (auto intro: list_emb_prefix subseq_drop_many)

lemma assignments_distinct: "distinct (map sp_Name (servicePortAssignments c))"
proof -
  have "subseq (map sp_Name (servicePortAssignments c))
     (([''amqp'', ''management''] @ [''mqtt''] @ [''web-mqtt''] @ [''stomp''] @ [''web-stomp''] @ [''stream''])
      @ (([''amqps'', ''management-tls''] @ [''stomps''] @ [''mqtts''] @ [''streams''] @ [''prometheus-tls''])
         @ [''prometheus''])
      @ ([''web-stomp-tls''] @ [''web-mqtt-tls'']))"
    unfolding servicePortAssignments_def map_append if_distrib [of "map sp_Name"] whenElems_simps(1)
      list.map sp_Name_svcPort
    by (intro list_emb_append_mono subseq_whenElems subseq_if subseq_order.order_refl)
  then show ?thesis by (rule subseq_distinct) simp
qed

lemma assignments_NodePort: "p \<in> set (servicePortAssignments c) \<Longrightarrow> sp_NodePort p = 0"
proof -
  have "list_all (\<lambda>p. sp_NodePort p = 0) (servicePortAssignments c)"
    by (simp add: servicePortAssignments_def)
  then show "p \<in> set (servicePortAssignments c) \<Longrightarrow> sp_NodePort p = 0"
    by (simp add: list_all_iff)
qed

lemma foldl_mput:
  "m \<noteq> None \<Longrightarrow> distinct (map f ps) \<Longrightarrow>
   mget (foldl (\<lambda>m p. mput m (f p) p) m ps) k = Some v
     \<longleftrightarrow> (v \<in> set ps \<and> f v = k) \<or> (k \<notin> f ` set ps \<and> mget m k = Some v)"
proof (induction ps arbitrary: m)
  case Nil
  then show ?case by simp
next
  case (Cons p ps)
  have "mput m (f p) p \<noteq> None" using Cons.prems(1) by (cases m) auto
  with Cons show ?case by (auto simp: mget_mput)
qed

lemma generate_mget:
  "mget (generateServicePortsMap c) k = Some v \<longleftrightarrow> v \<in> set (servicePortAssignments c) \<and> sp_Name v = k"
  unfolding generateServicePortsMap_def by (subst foldl_mput) (auto simp: assignments_distinct)

text \<open>
  The contract of \<^verbatim>\<open>range\<close> on the maps that \<^verbatim>\<open>updatePorts\<close> iterates over: the visit
  lists the entries that are left, each once.
\<close>

definition visitsPorts :: "env \<Rightarrow> rabbitmqCluster \<Rightarrow> bool" where
  "visitsPorts E c \<longleftrightarrow>
     (\<forall>m. (\<forall>k v. mget m k = Some v \<longrightarrow> mget (generateServicePortsMap c) k = Some v)
          \<longrightarrow> range_of m (env_visitPorts E m))"

section \<open>Updating the ports\<close>

definition zeroNodePort :: "servicePort \<Rightarrow> servicePort" where
  "zeroNodePort p = p\<lparr>sp_NodePort := 0\<rparr>"

lemma zeroNodePort_simps [simp]:
  "sp_Name (zeroNodePort p) = sp_Name p" "zeroNodePort (p\<lparr>sp_NodePort := n\<rparr>) = zeroNodePort p"
  "sp_NodePort (zeroNodePort p) = 0" "sp_NodePort p = 0 \<Longrightarrow> zeroNodePort p = p"
  by (simp_all add: zeroNodePort_def)

lemma svcPort_zero [simp]: "zeroNodePort (svcPort n p a) = svcPort n p a"
  by simp

text \<open>A map of ports as \<open>generateServicePortsMap\<close> makes it: filed under their names, no node port.\<close>

definition portMap :: "(string, servicePort) gomap \<Rightarrow> bool" where
  "portMap m \<longleftrightarrow> (\<forall>k v. mget m k = Some v \<longrightarrow> sp_Name v = k \<and> sp_NodePort v = 0)"

lemma portMap_generate: "portMap (generateServicePortsMap c)"
  by (auto simp: portMap_def generate_mget assignments_NodePort)

lemma portMap_mdelete: "portMap m \<Longrightarrow> portMap (mdelete m k)"
  by (auto simp: portMap_def mget_mdelete)

lemma keepPorts_spec:
  "portMap m \<Longrightarrow> keepPorts ports m = (updated, rest) \<Longrightarrow>
     distinct (map sp_Name updated)
     \<and> (\<forall>p \<in> set updated. mget m (sp_Name p) = Some (zeroNodePort p))
     \<and> (\<forall>k. mget rest k = (if k \<in> sp_Name ` set updated then None else mget m k))"
proof (induction ports m arbitrary: updated rest rule: keepPorts.induct)
  case (1 m)
  then show ?case by simp
next
  case (2 p ports m)
  show ?case
  proof (cases "mget m (sp_Name p)")
    case None
    with 2 show ?thesis by simp
  next
    case (Some v)
    obtain u r where ur: "keepPorts ports (mdelete m (sp_Name p)) = (u, r)" by fastforce
    have v: "sp_Name v = sp_Name p" "sp_NodePort v = 0"
      using "2.prems"(1) Some by (auto simp: portMap_def)
    note IH = "2.IH"(2) [OF Some portMap_mdelete [OF "2.prems"(1)] ur]
    have "updated = v\<lparr>sp_NodePort := sp_NodePort p\<rparr> # u" "rest = r"
      using "2.prems"(2) Some ur by simp_all
    with IH Some v show ?thesis by (auto simp: mget_mdelete split: if_splits)
  qed
qed

text \<open>The two halves of the result of \<^verbatim>\<open>updatePorts\<close>.\<close>

lemma updatePorts_spec:
  assumes "visitsPorts E c"
  shows "distinct (map sp_Name (updatePorts E c ports))"
    and "p \<in> set (updatePorts E c ports) \<Longrightarrow> zeroNodePort p \<in> set (servicePortAssignments c)"
    and "sp_Name ` set (updatePorts E c ports) = sp_Name ` set (servicePortAssignments c)"
proof -
  obtain u r where ur: "keepPorts ports (generateServicePortsMap c) = (u, r)" by fastforce
  note spec = keepPorts_spec [OF portMap_generate ur]
  define kvs where "kvs = env_visitPorts E r"
  have L: "updatePorts E c ports = u @ map snd kvs"
    by (simp add: updatePorts_def ur kvs_def)
  have "\<forall>k v. mget r k = Some v \<longrightarrow> mget (generateServicePortsMap c) k = Some v"
    using spec by auto
  then have visit: "range_of r kvs"
    using assms by (auto simp: visitsPorts_def kvs_def)
  have kvs: "(k, v) \<in> set kvs \<longleftrightarrow> k \<notin> sp_Name ` set u \<and> v \<in> set (servicePortAssignments c) \<and> sp_Name v = k"
    for k v
    using range_of_SomeD [OF visit, of k v] spec by (auto simp: generate_mget)
  have "\<forall>kv \<in> set kvs. sp_Name (snd kv) = fst kv"
    using kvs by (metis prod.collapse)
  then have names: "map sp_Name (map snd kvs) = map fst kvs" by simp
  have u: "p \<in> set u \<Longrightarrow> zeroNodePort p \<in> set (servicePortAssignments c)" for p
    using spec by (auto simp: generate_mget)
  have "fst kv \<notin> sp_Name ` set u" if "kv \<in> set kvs" for kv
    using kvs that by (metis prod.collapse)
  then have "set (map sp_Name u) \<inter> set (map fst kvs) = {}"
    by (force simp: disjoint_iff)
  then show "distinct (map sp_Name (updatePorts E c ports))"
    using spec visit by (simp add: L names range_of_def del: map_map)
  show zero: "p \<in> set (updatePorts E c ports) \<Longrightarrow> zeroNodePort p \<in> set (servicePortAssignments c)" for p
    using u kvs by (auto simp: L assignments_NodePort)
  show "sp_Name ` set (updatePorts E c ports) = sp_Name ` set (servicePortAssignments c)"
  proof (intro equalityI subsetI)
    fix n assume "n \<in> sp_Name ` set (updatePorts E c ports)"
    then obtain p where "p \<in> set (updatePorts E c ports)" and n: "n = sp_Name p" by blast
    then have "sp_Name (zeroNodePort p) \<in> sp_Name ` set (servicePortAssignments c)"
      by (intro imageI zero)
    then show "n \<in> sp_Name ` set (servicePortAssignments c)" by (simp add: n)
  next
    fix n assume "n \<in> sp_Name ` set (servicePortAssignments c)"
    then obtain q where q: "q \<in> set (servicePortAssignments c)" "n = sp_Name q" by blast
    show "n \<in> sp_Name ` set (updatePorts E c ports)"
    proof (cases "n \<in> sp_Name ` set u")
      case True
      then show ?thesis by (auto simp: L)
    next
      case False
      with q kvs have "(n, q) \<in> set kvs" by simp
      then have "q \<in> snd ` set kvs" by (rule image_eqI [rotated]) simp
      with q(2) show ?thesis by (simp add: L)
    qed
  qed
qed

lemma assignment_named:
  "p \<in> set (servicePortAssignments c) \<Longrightarrow> q \<in> set (servicePortAssignments c) \<Longrightarrow>
   sp_Name p = sp_Name q \<Longrightarrow> p = q"
  using assignments_distinct by (metis distinct_map inj_onD)

text \<open>
  C22. Whatever ports the API server holds and in whatever order the map is visited, the updated
  ports of the client service are, up to node ports and order, exactly the ports the cluster's
  configuration asks for: one entry per wanted port, no stale and no duplicate entry.
\<close>

theorem updatePorts_exact:
  assumes "visitsPorts E c"
  shows "mset (map zeroNodePort (updatePorts E c ports)) = mset (servicePortAssignments c)
    \<and> distinct (map sp_Name (updatePorts E c ports))"
proof (intro conjI)
  note spec = updatePorts_spec [OF assms]
  show distinct: "distinct (map sp_Name (updatePorts E c ports))" by (rule updatePorts_spec [OF assms])
  have "map sp_Name (map zeroNodePort (updatePorts E c ports)) = map sp_Name (updatePorts E c ports)"
    by simp
  with distinct have "distinct (map zeroNodePort (updatePorts E c ports))"
    by (metis distinct_map)
  moreover have "distinct (servicePortAssignments c)"
    using assignments_distinct by (simp add: distinct_map)
  moreover have "set (map zeroNodePort (updatePorts E c ports)) = set (servicePortAssignments c)"
  proof (intro equalityI subsetI)
    fix q assume "q \<in> set (servicePortAssignments c)"
    moreover from this have "sp_Name q \<in> sp_Name ` set (updatePorts E c ports)"
      unfolding updatePorts_spec(3) [OF assms] by (rule imageI)
    then obtain p where "p \<in> set (updatePorts E c ports)" "sp_Name p = sp_Name q" by auto
    ultimately have "zeroNodePort p = q"
      using spec(2) by (intro assignment_named) simp_all
    with \<open>p \<in> set (updatePorts E c ports)\<close> show "q \<in> set (map zeroNodePort (updatePorts E c ports))"
      by auto
  qed (use spec(2) in auto)
  ultimately show "mset (map zeroNodePort (updatePorts E c ports)) = mset (servicePortAssignments c)"
    by (metis set_eq_iff_mset_eq_distinct)
qed

lemma sample_visits: "visitsPorts sampleEnv c"
proof -
  have names: "sp_Name ` set (servicePortAssignments c) \<subseteq> set samplePortNames"
  proof -
    have "list_all (\<lambda>p. sp_Name p \<in> set samplePortNames) (servicePortAssignments c)"
      by (simp add: servicePortAssignments_def samplePortNames_def)
    then show ?thesis by (auto simp: list_all_iff)
  qed
  have visit: "range_of m (env_visitPorts sampleEnv m)"
    if sub: "\<forall>k v. mget m k = Some v \<longrightarrow> mget (generateServicePortsMap c) k = Some v" for m
  proof -
    let ?visit = "\<lambda>ks. concat (map (\<lambda>k. case mget m k of None \<Rightarrow> [] | Some v \<Rightarrow> [(k, v)]) ks)"
    have "map fst (?visit ks) = filter (\<lambda>k. mget m k \<noteq> None) ks" for ks
      by (induction ks) (auto split: option.splits)
    moreover have "map_of (?visit ks) k = (if k \<in> set ks then mget m k else None)" for ks k
      by (induction ks) (auto split: option.splits)
    moreover have "mget m k = None" if "k \<notin> set samplePortNames" for k
    proof (cases "mget m k")
      case (Some v)
      with sub have "v \<in> set (servicePortAssignments c)" "sp_Name v = k"
        by (auto simp: generate_mget)
      with names that show ?thesis by auto
    qed simp
    moreover have "distinct samplePortNames" by (simp add: samplePortNames_def)
    ultimately show ?thesis
      by (auto simp: range_of_def sampleEnv_def)
  qed
  then show ?thesis by (simp add: visitsPorts_def)
qed

theorem updatePorts_exact_witness:
  "visitsPorts sampleEnv sampleCluster
   \<and> mset (map zeroNodePort (updatePorts sampleEnv sampleCluster
        [svcPort ''stale'' 1 ''x'', (svcPort ''amqp'' 5672 ''amqp'')\<lparr>sp_NodePort := 30672\<rparr>]))
      = mset (servicePortAssignments sampleCluster)"
  using updatePorts_exact [OF sample_visits] sample_visits by blast

section \<open>Node ports, and updating again\<close>

lemma keepPorts_nodePort:
  "portMap m \<Longrightarrow> keepPorts ports m = (updated, rest) \<Longrightarrow>
     (\<forall>p \<in> set updated. \<exists>q. find (\<lambda>q. sp_Name q = sp_Name p) ports = Some q
        \<and> sp_NodePort p = sp_NodePort q)
     \<and> (\<forall>k. mget rest k \<noteq> None \<longrightarrow> find (\<lambda>q. sp_Name q = k) ports = None)"
proof (induction ports m arbitrary: updated rest rule: keepPorts.induct)
  case (1 m)
  then show ?case by simp
next
  case (2 p ports m)
  show ?case
  proof (cases "mget m (sp_Name p)")
    case None
    with "2.prems" have kp: "keepPorts ports m = (updated, rest)" by simp
    note spec = keepPorts_spec [OF "2.prems"(1) kp]
    have "q \<in> set updated \<Longrightarrow> sp_Name p \<noteq> sp_Name q" for q using spec None by fastforce
    moreover have "mget rest (sp_Name p) = None" using spec None by simp
    ultimately show ?thesis using "2.IH"(1) [OF None "2.prems"(1) kp] by auto
  next
    case (Some v)
    obtain u r where ur: "keepPorts ports (mdelete m (sp_Name p)) = (u, r)" by fastforce
    note spec = keepPorts_spec [OF portMap_mdelete [OF "2.prems"(1)] ur]
    have v: "sp_Name v = sp_Name p" using "2.prems"(1) Some by (auto simp: portMap_def)
    have eqs: "updated = v\<lparr>sp_NodePort := sp_NodePort p\<rparr> # u" "rest = r"
      using "2.prems"(2) Some ur by simp_all
    have "q \<in> set u \<Longrightarrow> sp_Name p \<noteq> sp_Name q" for q
      using spec by (auto simp: mget_mdelete split: if_splits)
    moreover have "mget r k \<noteq> None \<Longrightarrow> k \<noteq> sp_Name p" for k
      using spec by (auto simp: mget_mdelete split: if_splits)
    ultimately show ?thesis
      using "2.IH"(2) [OF Some portMap_mdelete [OF "2.prems"(1)] ur] v by (auto simp: eqs)
  qed
qed

text \<open>
  Updating keeps the node port the API server allocated: every port of the result has the
  node port of the first existing port of its name, and 0 (allocate one) when there was none.
\<close>

theorem updatePorts_nodePort:
  assumes "visitsPorts E c" and "p \<in> set (updatePorts E c ports)"
  shows "sp_NodePort p =
    (case find (\<lambda>q. sp_Name q = sp_Name p) ports of None \<Rightarrow> 0 | Some q \<Rightarrow> sp_NodePort q)"
proof -
  obtain u r where ur: "keepPorts ports (generateServicePortsMap c) = (u, r)" by fastforce
  note kept = keepPorts_nodePort [OF portMap_generate ur]
  note spec = keepPorts_spec [OF portMap_generate ur]
  have "\<forall>k v. mget r k = Some v \<longrightarrow> mget (generateServicePortsMap c) k = Some v"
    using spec by auto
  then have visit: "range_of r (env_visitPorts E r)" using assms by (auto simp: visitsPorts_def)
  from assms(2) consider "p \<in> set u" | k where "(k, p) \<in> set (env_visitPorts E r)"
    by (auto simp: updatePorts_def ur)
  then show ?thesis
  proof cases
    case 1
    with kept show ?thesis by fastforce
  next
    case 2
    then have rp: "mget r k = Some p" using visit by (simp add: range_of_SomeD)
    then have "sp_Name p = k" "sp_NodePort p = 0"
      using spec portMap_generate [of c] by (auto simp: portMap_def split: if_splits)
    with kept rp show ?thesis by auto
  qed
qed

theorem updatePorts_nodePort_witness:
  "(svcPort ''amqps'' 5671 ''amqps'')\<lparr>sp_NodePort := 31000\<rparr> \<in> set (updatePorts sampleEnv sampleCluster
     [(svcPort ''amqps'' 5671 ''amqps'')\<lparr>sp_NodePort := 31000\<rparr>])
   \<and> sp_NodePort ((svcPort ''amqps'' 5671 ''amqps'')\<lparr>sp_NodePort := 31000\<rparr>) = 31000"
proof -
  have "mget (generateServicePortsMap sampleCluster) ''amqps'' = Some (svcPort ''amqps'' 5671 ''amqps'')"
    by (simp add: generate_mget servicePortAssignments_def)
  then have "(svcPort ''amqps'' 5671 ''amqps'')\<lparr>sp_NodePort := 31000\<rparr> \<in> set (updatePorts sampleEnv
     sampleCluster [(svcPort ''amqps'' 5671 ''amqps'')\<lparr>sp_NodePort := 31000\<rparr>])"
    by (simp add: updatePorts_def svcPort_def)
  with updatePorts_nodePort [OF sample_visits this] show ?thesis by simp
qed

lemma keepPorts_fix:
  "distinct (map sp_Name L) \<Longrightarrow> \<forall>p \<in> set L. mget m (sp_Name p) = Some (zeroNodePort p) \<Longrightarrow>
   fst (keepPorts L m) = L
   \<and> (\<forall>k. mget (snd (keepPorts L m)) k = (if k \<in> sp_Name ` set L then None else mget m k))"
proof (induction L arbitrary: m)
  case Nil
  then show ?case by simp
next
  case (Cons p L)
  have "sp_Name q \<noteq> sp_Name p" if "q \<in> set L" for q
    using Cons.prems(1) that by (metis distinct.simps(2) imageI list.map(2) set_map)
  then have "\<forall>q \<in> set L. mget (mdelete m (sp_Name p)) (sp_Name q) = Some (zeroNodePort q)"
    using Cons.prems by (auto simp: mget_mdelete)
  with Cons.IH [of "mdelete m (sp_Name p)"] Cons.prems
  show ?case by (auto simp: case_prod_beta Let_def zeroNodePort_def mget_mdelete)
qed

text \<open>A list that already is what the configuration asks for, node ports aside.\<close>

definition upToDatePorts :: "rabbitmqCluster \<Rightarrow> servicePort list \<Rightarrow> bool" where
  "upToDatePorts c L \<longleftrightarrow> distinct (map sp_Name L)
     \<and> (\<forall>p \<in> set L. zeroNodePort p \<in> set (servicePortAssignments c))
     \<and> sp_Name ` set L = sp_Name ` set (servicePortAssignments c)"

lemma updatePorts_upToDate: "visitsPorts E c \<Longrightarrow> upToDatePorts c (updatePorts E c ports)"
  by (simp add: upToDatePorts_def updatePorts_spec)

lemma zero_upToDate: "upToDatePorts c L \<Longrightarrow> upToDatePorts c (map zeroNodePort L)"
  by (auto simp: upToDatePorts_def comp_def image_image)

lemma updatePorts_fix:
  assumes "visitsPorts E c" and "upToDatePorts c L"
  shows "updatePorts E c L = L"
proof -
  have kept: "fst (keepPorts L (generateServicePortsMap c)) = L"
    and rest: "mget (snd (keepPorts L (generateServicePortsMap c))) k
      = (if k \<in> sp_Name ` set L then None else mget (generateServicePortsMap c) k)" for k
    using keepPorts_fix [of L "generateServicePortsMap c"] assms(2)
    by (simp_all add: upToDatePorts_def generate_mget)
  have none: "mget (snd (keepPorts L (generateServicePortsMap c))) k = None" for k
  proof (cases "mget (generateServicePortsMap c) k")
    case (Some v)
    then have "k \<in> sp_Name ` set L"
      using assms(2) by (auto simp: generate_mget upToDatePorts_def)
    then show ?thesis by (simp add: rest)
  qed (simp add: rest)
  then have "range_of (snd (keepPorts L (generateServicePortsMap c)))
      (env_visitPorts E (snd (keepPorts L (generateServicePortsMap c))))"
    using assms(1) by (simp add: visitsPorts_def)
  with none have "env_visitPorts E (snd (keepPorts L (generateServicePortsMap c))) = []"
    by (metis list.exhaust list.set_intros(1) option.distinct(1) prod.collapse range_of_SomeD)
  with kept show ?thesis by (simp add: updatePorts_def case_prod_beta)
qed

text \<open>
  Updating the ports a second time changes nothing, whatever order the map is visited in
  the second time (the code's two passes may see different orders), also after the node ports of
  a \<^verbatim>\<open>ClusterIP\<close> service were zeroed: the order of the ports the API server holds is kept,
  so the random order of map iteration does not make the reconciler rewrite the service.
\<close>

theorem servicePorts_stable:
  assumes "visitsPorts E c" and "visitsPorts E' c"
  shows "servicePortsFor E' c (servicePortsFor E c ports) = servicePortsFor E c ports"
proof -
  have "(\<lambda>p. p\<lparr>sp_NodePort := 0\<rparr>) = zeroNodePort"
    by (rule ext) (simp add: zeroNodePort_def)
  then have zero: "map (\<lambda>p. p\<lparr>sp_NodePort := 0\<rparr>) = map zeroNodePort" by (rule arg_cong)
  have "upToDatePorts c (servicePortsFor E c ports)"
    by (simp add: servicePortsFor_def Let_def zero updatePorts_upToDate [OF assms(1)] zero_upToDate)
  from updatePorts_fix [OF assms(2) this] show ?thesis
    by (auto simp: servicePortsFor_def Let_def zero)
qed

theorem servicePorts_stable_witness:
  "servicePortsFor sampleEnv sampleCluster (servicePortsFor sampleEnv sampleCluster [])
     = servicePortsFor sampleEnv sampleCluster []"
  by (rule servicePorts_stable [OF sample_visits sample_visits])

section \<open>Updating the service again\<close>

text \<open>
  The fixpoint needs a deterministic service spec: \<open>plainService\<close> excludes an override of the
  service spec, whose merge is the library's. Label and annotation overrides are included.
\<close>

definition plainService :: "env \<Rightarrow> rabbitmqCluster \<Rightarrow> bool" where
  "plainService E c \<longleftrightarrow> visitsPorts E c \<and>
     (case ov_Service (spec_Override (rc_Spec c)) of None \<Rightarrow> True | Some ov \<Rightarrow> so_Spec ov = None)"

definition overrideMeta :: "embeddedLabelsAnnotations option \<Rightarrow> objectMeta \<Rightarrow> objectMeta" where
  "overrideMeta el m = (case el of None \<Rightarrow> m | Some e \<Rightarrow> copyLabelsAnnotations m e)"

lemma copy_key [simp]: "metaKey (copyLabelsAnnotations m e) = metaKey m"
  by (simp add: copyLabelsAnnotations_def Let_def metaKey_def)

lemma overrideMeta_key [simp]: "metaKey (overrideMeta el m) = metaKey m"
  by (cases el) (simp_all add: overrideMeta_def)

lemma mget_setAnnotations:
  "mget (setAnnotations c a) k =
     (case mget (cs_Annotations (spec_Service (rc_Spec c))) k of
        Some v \<Rightarrow> Some v
      | None \<Rightarrow> if isNotKubernetesAnnotation k \<and> mget (om_Annotations (rc_Meta c)) k \<noteq> None
                then mget (om_Annotations (rc_Meta c)) k else mget a k)"
  by (cases "cs_Annotations (spec_Service (rc_Spec c))")
     (auto simp: setAnnotations_def reconcile.merge_one filtered.merge_one split: option.splits)

lemma setAnnotations_not_None [simp]: "setAnnotations c a \<noteq> None"
  by (simp add: setAnnotations_def reconcile.merge_not_None filtered.merge_not_None)

lemma mget_mergeMap [simp]:
  "mget (mergeMap a b) k = (if mget b k \<noteq> None then mget b k else mget a k)"
  by (simp add: mergeMap_def)

lemma mergeMap_not_None [simp]: "mergeMap a b \<noteq> None"
  by (simp add: mergeMap_def)

lemma setAnnotations_idem:
  "setAnnotations c (setAnnotations c a) = setAnnotations c a"
  "mergeMap (setAnnotations c (mergeMap (setAnnotations c a) b)) b = mergeMap (setAnnotations c a) b"
  by (rule gomap_eqI; auto simp: mget_setAnnotations split: option.splits)+

lemma touch_override_again:
  assumes "om_Labels m' = om_Labels (overrideMeta el (touchService c m))"
    and "om_Annotations m' = om_Annotations (overrideMeta el (touchService c m))"
  shows "overrideMeta el (touchService c m') = m'"
  using assms
  by (cases el)
     (auto simp: overrideMeta_def touchService_def copyLabelsAnnotations_def Let_def setAnnotations_idem
       intro!: objectMeta.equality split: if_splits)

abbreviation serviceMetaOverride :: "rabbitmqCluster \<Rightarrow> embeddedLabelsAnnotations option" where
  "serviceMetaOverride c \<equiv>
     (case ov_Service (spec_Override (rc_Spec c)) of None \<Rightarrow> None | Some ov \<Rightarrow> so_Meta ov)"

lemma applySvcOverride_meta:
  "applySvcOverride E sv ov = Ok sv' \<Longrightarrow> sv_Meta sv' = overrideMeta (so_Meta ov) (sv_Meta sv)"
  by (auto simp: applySvcOverride_def overrideMeta_def Let_def split: option.splits)

lemma Service_Update_meta:
  assumes "Service_Update E c sv = Ok sv'"
  shows "setOwner E c (overrideMeta (serviceMetaOverride c) (touchService c (sv_Meta sv))) = Ok (sv_Meta sv')"
proof (cases "ov_Service (spec_Override (rc_Spec c))")
  case None
  with assms show ?thesis by (auto simp: Service_Update_def overrideMeta_def Let_def)
next
  case (Some ov)
  with assms show ?thesis by (auto simp: Service_Update_def Let_def dest!: applySvcOverride_meta)
qed

lemma touchService_key [simp]: "metaKey (touchService c m) = metaKey m"
  by (simp add: touchService_def metaKey_def)

definition plainSpec :: "env \<Rightarrow> rabbitmqCluster \<Rightarrow> serviceSpec \<Rightarrow> serviceSpec" where
  "plainSpec E c spec = spec\<lparr>ss_Type := cs_Type (spec_Service (rc_Spec c)),
     ss_Selector := LabelSelector (rc_Name c), ss_Ports := servicePortsFor E c (ss_Ports spec)\<rparr>"

lemma Service_Update_plain:
  assumes "plainService E c"
  shows "Service_Update E c sv =
    obind (setOwner E c (overrideMeta (serviceMetaOverride c) (touchService c (sv_Meta sv))))
      (\<lambda>m. Ok \<lparr>sv_Meta = m, sv_Spec = plainSpec E c (sv_Spec sv)\<rparr>)"
  using assms
  by (cases sv)
     (auto simp: plainService_def Service_Update_def overrideMeta_def applySvcOverride_def Let_def
       plainSpec_def split: option.splits)

lemma plainSpec_again:
  "visitsPorts E c \<Longrightarrow> plainSpec E c (plainSpec E c spec) = plainSpec E c spec"
  by (simp add: plainSpec_def servicePorts_stable)

interpretation clientService: resource_update Service_Update sv_Meta plainService
proof
  fix E c sv sv'
  assume E: "setsOwnerOnly E" and upd: "Service_Update E c sv = Ok sv'"
  note fields = setOwner_fields [OF E Service_Update_meta [OF upd]]
  show "metaKey (sv_Meta sv') = metaKey (sv_Meta sv)" by (simp add: fields)
  assume plain: "plainService E c"
  then have visits: "visitsPorts E c" by (simp add: plainService_def)
  from upd have sv': "sv' = \<lparr>sv_Meta = sv_Meta sv', sv_Spec = plainSpec E c (sv_Spec sv)\<rparr>"
    by (auto simp: Service_Update_plain [OF plain])
  then have spec: "plainSpec E c (sv_Spec sv') = sv_Spec sv'"
    by (metis plainSpec_again [OF visits] service.select_convs(2))
  have "overrideMeta (serviceMetaOverride c) (touchService c (sv_Meta sv')) = sv_Meta sv'"
    by (rule touch_override_again) (rule fields)+
  then show "Service_Update E c sv' = Ok sv'"
    by (simp add: Service_Update_plain [OF plain] spec fields(7))
qed

text \<open>
  However often the reconciler updates the client service, every pass after the first
  succeeds and leaves it as the first pass wrote it, also with label and annotation overrides
  and annotations of the service specification, and the service keeps its name and namespace.
\<close>

theorem Service_Update_passes:
  assumes "setsOwnerOnly E" and "plainService E c" and "Service_Update E c sv = Ok sv'"
  shows "Service_Update E c sv' = Ok sv' \<and> clientService.passes (Suc n) E c sv = Ok sv'
    \<and> metaKey (sv_Meta sv') = metaKey (sv_Meta sv)"
  using clientService.upd_fix [OF assms] clientService.passes_stable [OF assms]
    clientService.upd_key [OF assms(1,3)] by simp

theorem Service_Update_passes_witness:
  "setsOwnerOnly sampleEnv \<and> plainService sampleEnv sampleCluster
   \<and> (\<exists>sv'. Service_Update sampleEnv sampleCluster (Service_Build sampleCluster) = Ok sv'
        \<and> Service_Update sampleEnv sampleCluster sv' = Ok sv')"
proof (intro conjI)
  show plain: "plainService sampleEnv sampleCluster"
    by (simp add: plainService_def sample_visits sampleCluster_def sampleSpec_def)
  obtain sv' where "Service_Update sampleEnv sampleCluster (Service_Build sampleCluster) = Ok sv'"
    by (simp add: Service_Update_plain [OF plain])
  with Service_Update_passes [OF sampleEnv_owner plain this]
  show "\<exists>sv'. Service_Update sampleEnv sampleCluster (Service_Build sampleCluster) = Ok sv'
        \<and> Service_Update sampleEnv sampleCluster sv' = Ok sv'" by blast
qed (rule sampleEnv_owner)

end
