(* ===== verification/Secrets.thy ===== *)
theory Secrets
  imports Services
begin

text \<open>
  \<^verbatim>\<open>erlang_cookie.go\<close> and \<^verbatim>\<open>default_user_secret.go\<close> of \<^verbatim>\<open>internal/resource\<close>:
  the shared secret of the nodes and the credentials of the default user, with the ports at
  which a client finds the cluster.
\<close>

section \<open>Base64\<close>

text \<open>\<^verbatim>\<open>base64.URLEncoding\<close> of the Go standard library, with padding, and its inverse.\<close>

definition b64Alphabet :: string where
  "b64Alphabet = ''ABCDEFGHIJKLMNOPQRSTUVWXYZabcdefghijklmnopqrstuvwxyz0123456789-_''"

definition b64Char :: "nat \<Rightarrow> char" where
  "b64Char i = b64Alphabet ! (i mod 64)"

fun b64Encode :: "nat list \<Rightarrow> string" where
  "b64Encode [] = []"
| "b64Encode [a] = [b64Char (a div 4), b64Char (a mod 4 * 16), CHR ''='', CHR ''='']"
| "b64Encode [a, b] =
     [b64Char (a div 4), b64Char (a mod 4 * 16 + b div 16), b64Char (b mod 16 * 4), CHR ''='']"
| "b64Encode (a # b # c # bs) =
     b64Char (a div 4) # b64Char (a mod 4 * 16 + b div 16) # b64Char (b mod 16 * 4 + c div 64)
       # b64Char (c mod 64) # b64Encode bs"

fun indexIn :: "char \<Rightarrow> string \<Rightarrow> nat option" where
  "indexIn x [] = None"
| "indexIn x (y # ys) = (if x = y then Some 0 else map_option Suc (indexIn x ys))"

fun b64Decode :: "string \<Rightarrow> nat list option" where
  "b64Decode [] = Some []"
| "b64Decode (p # q # r # s # rest) =
     (case (indexIn p b64Alphabet, indexIn q b64Alphabet) of
        (Some i, Some j) \<Rightarrow>
          (if [r, s] = ''=='' \<and> rest = [] then Some [i * 4 + j div 16]
           else (case indexIn r b64Alphabet of
                   None \<Rightarrow> None
                 | Some k \<Rightarrow>
                     (if s = CHR ''='' \<and> rest = [] then Some [i * 4 + j div 16, j mod 16 * 16 + k div 4]
                      else (case (indexIn s b64Alphabet, b64Decode rest) of
                              (Some l, Some bs) \<Rightarrow>
                                Some ((i * 4 + j div 16) # (j mod 16 * 16 + k div 4) # (k mod 4 * 64 + l) # bs)
                            | _ \<Rightarrow> None))))
      | _ \<Rightarrow> None)"
| "b64Decode _ = None"

lemma indexIn_alphabet: "i < 64 \<Longrightarrow> indexIn (b64Char i) b64Alphabet = Some i"
proof -
  have "list_all (\<lambda>i. indexIn (b64Char i) b64Alphabet = Some i) [0..<64]" by code_simp
  then show "i < 64 \<Longrightarrow> indexIn (b64Char i) b64Alphabet = Some i" by (simp add: list_all_iff)
qed

lemma b64Char_in [simp]: "b64Char i \<in> set b64Alphabet"
proof -
  have "i mod 64 < length b64Alphabet" by (simp add: b64Alphabet_def)
  then show ?thesis unfolding b64Char_def by (rule nth_mem)
qed

lemma pad_not_in: "CHR ''='' \<notin> set b64Alphabet"
  by (simp add: b64Alphabet_def)

lemma b64Char_not_pad [simp]: "b64Char i \<noteq> CHR ''=''"
  using b64Char_in pad_not_in by metis

lemma indexIn_SomeI: "x \<in> set ys \<Longrightarrow> \<exists>i. indexIn x ys = Some i"
  by (induction ys) auto

text \<open>The encoding is faithful: decoding gives the bytes back.\<close>

lemma b64_roundtrip: "\<forall>b \<in> set bs. b < 256 \<Longrightarrow> b64Decode (b64Encode bs) = Some bs"
proof (induction bs rule: b64Encode.induct)
  case (2 a)
  then have "a div 4 < 64" "a mod 4 * 16 < 64" "a div 4 * 4 + a mod 4 * 16 div 16 = a" by auto
  then show ?case by (simp add: indexIn_alphabet)
next
  case (3 a b)
  then have "a div 4 < 64" "a mod 4 * 16 + b div 16 < 64" "b mod 16 * 4 < 64" by auto
  moreover have "a div 4 * 4 + (a mod 4 * 16 + b div 16) div 16 = a" using 3 by auto
  moreover have "(a mod 4 * 16 + b div 16) mod 16 * 16 + b mod 16 * 4 div 4 = b"
    using 3 by auto
  ultimately show ?case by (simp add: indexIn_alphabet)
next
  case (4 a b c bs)
  then have "a div 4 < 64" "a mod 4 * 16 + b div 16 < 64" "b mod 16 * 4 + c div 64 < 64" "c mod 64 < 64"
    by auto
  moreover have "a div 4 * 4 + (a mod 4 * 16 + b div 16) div 16 = a" using 4 by auto
  moreover have "(a mod 4 * 16 + b div 16) mod 16 * 16 + (b mod 16 * 4 + c div 64) div 4 = b"
    using 4 by auto
  moreover have "(b mod 16 * 4 + c div 64) mod 4 * 64 + c mod 64 = c" using 4 by auto
  ultimately show ?case using 4 by (simp add: indexIn_alphabet)
qed simp

lemma b64_length: "length (b64Encode bs) = 4 * ((length bs + 2) div 3)"
proof (induction bs rule: b64Encode.induct)
  case (4 a b c bs)
  have "(length (a # b # c # bs) + 2) div 3 = Suc ((length bs + 2) div 3)" by simp
  with 4 show ?case by (simp only: b64Encode.simps list.size) simp
qed auto

lemma b64_chars: "length bs mod 3 = 0 \<Longrightarrow> set (b64Encode bs) \<subseteq> set b64Alphabet"
proof (induction bs rule: b64Encode.induct)
  case (4 a b c bs)
  from "4.prems" have "length bs mod 3 = 0" by (simp add: mod_Suc split: if_splits)
  with "4.IH" show ?case by simp
qed (auto simp: mod_Suc)

text \<open>Any string over the alphabet whose length is a multiple of four decodes.\<close>

lemma b64Decode_defined:
  "set s \<subseteq> set b64Alphabet \<Longrightarrow> length s = 4 * n \<Longrightarrow> \<exists>bs. b64Decode s = Some bs \<and> length bs = 3 * n"
proof (induction s arbitrary: n rule: b64Decode.induct)
  case (2 p q r s rest)
  obtain m where n: "n = Suc m" using "2.prems"(2) by (cases n) auto
  obtain i j k l where "indexIn p b64Alphabet = Some i" "indexIn q b64Alphabet = Some j"
    "indexIn r b64Alphabet = Some k" "indexIn s b64Alphabet = Some l"
    using "2.prems"(1) indexIn_SomeI by (metis insert_subset list.simps(15))
  moreover have "r \<noteq> CHR ''=''" "s \<noteq> CHR ''=''" using "2.prems"(1) pad_not_in by auto
  moreover have "\<exists>bs. b64Decode rest = Some bs \<and> length bs = 3 * m"
    using "2.IH" calculation "2.prems" n by auto
  ultimately show ?case by (auto simp: n)
qed (auto, presburger+)

section \<open>Random strings\<close>

definition bytesOf :: "string \<Rightarrow> nat list" where
  "bytesOf s = map of_char s"

text \<open>The argument \<open>i\<close> counts the calls of one build.\<close>

definition randomEncodedString :: "env \<Rightarrow> nat \<Rightarrow> nat \<Rightarrow> string outcome" where
  "randomEncodedString E i dataLen =
     obind (lift (env_rand E i dataLen)) (\<lambda>randomBytes. Ok (b64Encode (bytesOf randomBytes)))"

definition usernamePrefix :: string where "usernamePrefix = ''default_user_''"

lemma length_usernamePrefix [simp]: "length usernamePrefix = 13"
  by (simp add: usernamePrefix_def)

text \<open>A slice expression whose upper bound is negative panics.\<close>

definition generateUsername :: "env \<Rightarrow> nat \<Rightarrow> nat \<Rightarrow> string outcome" where
  "generateUsername E i l =
     obind (randomEncodedString E i l) (\<lambda>encodedSlice.
       if length encodedSlice < length usernamePrefix then Panic ''slice bounds out of range''
       else Ok (usernamePrefix @ take (length encodedSlice - length usernamePrefix) encodedSlice))"

lemma randomEncodedString_shape:
  assumes "fillsBytes E" and "randomEncodedString E i n = Ok s"
  shows "length s = 4 * ((n + 2) div 3)" and "n mod 3 = 0 \<Longrightarrow> set s \<subseteq> set b64Alphabet"
    and "\<exists>bs. length bs = n \<and> b64Decode s = Some bs"
proof -
  from assms obtain r where r: "length r = n" "s = b64Encode (bytesOf r)"
    by (auto simp: randomEncodedString_def fillsBytes_def)
  have "\<forall>b \<in> set (bytesOf r). b < 256"
    by (auto simp: bytesOf_def)
  then have "b64Decode s = Some (bytesOf r)" by (simp add: r b64_roundtrip)
  then show "\<exists>bs. length bs = n \<and> b64Decode s = Some bs" using r by (auto simp: bytesOf_def)
  show "length s = 4 * ((n + 2) div 3)" using r by (simp add: b64_length bytesOf_def)
  show "n mod 3 = 0 \<Longrightarrow> set s \<subseteq> set b64Alphabet" using r b64_chars [of "bytesOf r"] by (simp add: bytesOf_def)
qed

section \<open>Erlang cookie\<close>

definition erlangCookieName :: string where "erlangCookieName = ''erlang-cookie''"

definition ErlangCookie_Build :: "env \<Rightarrow> rabbitmqCluster \<Rightarrow> secret outcome" where
  "ErlangCookie_Build E c =
     obind (randomEncodedString E 0 24) (\<lambda>cookie.
       Ok \<lparr>se_Meta = namedMeta c erlangCookieName, se_Type = ''Opaque'',
           se_Data = mlit [(''.erlang.cookie'', cookie)]\<rparr>)"

definition ErlangCookie_Update :: "env \<Rightarrow> rabbitmqCluster \<Rightarrow> secret \<Rightarrow> secret outcome" where
  "ErlangCookie_Update E c s =
     obind (setOwner E c (inheritMeta c (se_Meta s))) (\<lambda>m. Ok (s\<lparr>se_Meta := m\<rparr>))"

interpretation erlangCookie: owned_update ErlangCookie_Update se_Meta inheritMeta "\<lambda>c m s. s\<lparr>se_Meta := m\<rparr>"
  by (unfold_locales; (rule inheritMeta_again; assumption)?; simp add: ErlangCookie_Update_def)

section \<open>Default user\<close>

definition DefaultUserSecretName :: string where "DefaultUserSecretName = ''default-user''"
definition bindingProvider :: string where "bindingProvider = ''rabbitmq''"
definition bindingType :: string where "bindingType = ''rabbitmq''"

definition generateDefaultUserConf :: "env \<Rightarrow> string \<Rightarrow> string \<Rightarrow> string outcome" where
  "generateDefaultUserConf E username password =
     obind (iniStep E (IniLoad [])) (\<lambda>cfg.
     obind (iniStep E (IniNewKey cfg ''default_user'' username)) (\<lambda>cfg.
     obind (iniStep E (IniNewKey cfg ''default_pass'' password)) (\<lambda>cfg.
     lift (env_iniWrite E cfg))))"

text \<open>The builder has its own copy of the loop over the additional plugins.\<close>

fun dus_pluginEnabled :: "string \<Rightarrow> string list \<Rightarrow> bool" where
  "dus_pluginEnabled plugin [] = False"
| "dus_pluginEnabled plugin (v # vs) = (if v = plugin then True else dus_pluginEnabled plugin vs)"

text \<open>The three map literals of \<^verbatim>\<open>updatePorts\<close>.\<close>

definition portNames :: "(string \<times> string) list" where
  "portNames = [(''rabbitmq_mqtt'', ''mqtt-port''), (''rabbitmq_stomp'', ''stomp-port''),
     (''rabbitmq_stream'', ''stream-port''), (''rabbitmq_web_mqtt'', ''web-mqtt-port''),
     (''rabbitmq_web_stomp'', ''web-stomp-port'')]"

definition TLSPort :: strmap where
  "TLSPort = mlit [(''mqtt-port'', ''8883''), (''stomp-port'', ''61614''), (''stream-port'', ''5551''),
     (''web-mqtt-port'', ''15676''), (''web-stomp-port'', ''15673'')]"

definition plainPort :: strmap where
  "plainPort = mlit [(''mqtt-port'', ''1883''), (''stomp-port'', ''61613''), (''stream-port'', ''5552''),
     (''web-mqtt-port'', ''15675''), (''web-stomp-port'', ''15674'')]"

text \<open>The body of the \<^verbatim>\<open>range\<close> loops, over the entries in the order of a visit.\<close>

fun portLoop :: "rabbitmqCluster \<Rightarrow> strmap \<Rightarrow> (string \<times> string) list \<Rightarrow> strmap \<Rightarrow> strmap" where
  "portLoop c table [] data = data"
| "portLoop c table ((plugin, portName) # visit) data =
     portLoop c table visit
       (if dus_pluginEnabled plugin (cf_AdditionalPlugins (spec_Rabbitmq (rc_Spec c)))
        then mput data portName (mindex [] table portName) else mdelete data portName)"

definition dus_updatePorts :: "rabbitmqCluster \<Rightarrow> strmap \<Rightarrow> strmap outcome" where
  "dus_updatePorts c data =
     (if data = None then Panic ''assignment to entry in nil map''
      else if tls_SecretName (spec_TLS (rc_Spec c)) \<noteq> []
      then Ok (portLoop c TLSPort portNames (mput data ''port'' ''5671''))
      else Ok (portLoop c plainPort portNames (mput data ''port'' ''5672'')))"

definition DefaultUserSecret_Build :: "env \<Rightarrow> rabbitmqCluster \<Rightarrow> secret outcome" where
  "DefaultUserSecret_Build E c =
     obind (generateUsername E 0 24) (\<lambda>username.
     obind (randomEncodedString E 1 24) (\<lambda>password.
     obind (generateDefaultUserConf E username password) (\<lambda>defaultUserConf.
     obind (dus_updatePorts c (mlit [(''username'', username), (''password'', password),
         (''default_user.conf'', defaultUserConf), (''provider'', bindingProvider),
         (''type'', bindingType), (''host'', ServiceSubDomain c)])) (\<lambda>data.
     Ok \<lparr>se_Meta = namedMeta c DefaultUserSecretName, se_Type = ''Opaque'', se_Data = data\<rparr>))))"

definition DefaultUserSecret_Update :: "env \<Rightarrow> rabbitmqCluster \<Rightarrow> secret \<Rightarrow> secret outcome" where
  "DefaultUserSecret_Update E c s =
     (let meta = inheritMeta c (se_Meta s) in
      obind (dus_updatePorts c (se_Data s)) (\<lambda>data.
      obind (setOwner E c meta) (\<lambda>m. Ok (s\<lparr>se_Meta := m, se_Data := data\<rparr>))))"

section \<open>The ports a client is told\<close>

lemma dus_pluginEnabled_iff [simp]: "dus_pluginEnabled p ps \<longleftrightarrow> p \<in> set ps"
  by (induction ps) auto

text \<open>What the secret says about a key, whatever it said before.\<close>

definition portEntry :: "rabbitmqCluster \<Rightarrow> strmap \<Rightarrow> string \<Rightarrow> strmap \<Rightarrow> string option" where
  "portEntry c table k data =
     (case map_of (map (\<lambda>(a, b). (b, a)) portNames) k of
        None \<Rightarrow> mget data k
      | Some plugin \<Rightarrow>
          if AdditionalPluginEnabled c plugin then Some (mindex [] table k) else None)"

lemma portLoop_not_None: "data \<noteq> None \<Longrightarrow> portLoop c table visit data \<noteq> None"
proof (induction visit arbitrary: data)
  case (Cons e visit)
  have "mput data k v \<noteq> None" "mdelete data k \<noteq> None" for k v
    using Cons.prems by (cases data; simp)+
  with Cons.IH show ?case by (cases e) simp
qed simp

lemma portLoop_get:
  assumes "data \<noteq> None" and "distinct (map snd visit)" and "set visit = set portNames"
  shows "mget (portLoop c table visit data) k = portEntry c table k data"
proof -
  have step: "mget (portLoop c table visit data) k =
      (case map_of (map (\<lambda>(a, b). (b, a)) visit) k of
         None \<Rightarrow> mget data k
       | Some plugin \<Rightarrow> if AdditionalPluginEnabled c plugin then Some (mindex [] table k) else None)"
    if "data \<noteq> None" "distinct (map snd visit)" for visit data
    using that
  proof (induction visit arbitrary: data)
    case (Cons e visit)
    have ok: "mput data n v \<noteq> None" "mdelete data n \<noteq> None" for n v
      using Cons.prems by (cases data; simp)+
    have "map_of (map (\<lambda>(a, b). (b, a)) visit) (snd e) = None"
      using Cons.prems by (cases e) (force simp: map_of_eq_None_iff)
    with Cons.IH [OF ok(1)] Cons.IH [OF ok(2)] Cons.prems show ?case
      by (cases e) (auto simp: mget_mput mget_mdelete AdditionalPluginEnabled_def split: option.splits)
  qed simp
  have "distinct (map snd portNames)" by (simp add: portNames_def)
  then have "map_of (map (\<lambda>(a, b). (b, a)) visit) = map_of (map (\<lambda>(a, b). (b, a)) portNames)"
    using assms by (intro map_of_inject_set [THEN iffD2]) (auto simp: comp_def case_prod_unfold)
  with step [OF assms(1,2)] show ?thesis by (simp add: portEntry_def)
qed

definition secretPortTable :: "rabbitmqCluster \<Rightarrow> strmap" where
  "secretPortTable c = (if SecretTLSEnabled c then TLSPort else plainPort)"

lemma portNames_visit:
  "distinct (map snd portNames)" "set portNames = set portNames" by (simp_all add: portNames_def)

lemma dus_updatePorts_get:
  assumes "dus_updatePorts c data = Ok data'"
  shows "mget data' k =
    (if k = ''port'' then Some (if SecretTLSEnabled c then ''5671'' else ''5672'')
     else portEntry c (secretPortTable c) k data)"
    and "data' \<noteq> None"
proof -
  have data: "data \<noteq> None" using assms by (auto simp: dus_updatePorts_def split: if_splits)
  define p where "p = (if SecretTLSEnabled c then ''5671'' else ''5672'')"
  have data': "data' = portLoop c (secretPortTable c) portNames (mput data ''port'' p)"
    using assms data
    by (auto simp: dus_updatePorts_def secretPortTable_def SecretTLSEnabled_def p_def split: if_splits)
  have put: "mput data ''port'' p \<noteq> None" using data by (cases data) auto
  then show "data' \<noteq> None" by (simp add: data' portLoop_not_None)
  have "map_of (map (\<lambda>(a, b). (b, a)) portNames) ''port'' = None" by (simp add: portNames_def)
  then show "mget data' k = (if k = ''port'' then Some (if SecretTLSEnabled c then ''5671'' else ''5672'')
     else portEntry c (secretPortTable c) k data)"
    unfolding data' portLoop_get [OF put portNames_visit]
    by (auto simp: portEntry_def mget_mput [OF data] p_def split: option.split)
qed

lemma dus_updatePorts_again:
  assumes "dus_updatePorts c data = Ok data'"
  shows "dus_updatePorts c data' = Ok data'"
proof -
  note get = dus_updatePorts_get [OF assms]
  obtain data'' where again: "dus_updatePorts c data' = Ok data''"
    using get(2) by (cases "tls_SecretName (spec_TLS (rc_Spec c)) = []") (auto simp: dus_updatePorts_def)
  have "data'' = data'"
    by (rule gomap_eqI) (auto simp: get dus_updatePorts_get [OF again] portEntry_def split: option.splits)
  with again show ?thesis by simp
qed

interpretation defaultUser: resource_update DefaultUserSecret_Update se_Meta "\<lambda>_ _. True"
proof
  fix E c s s'
  assume E: "setsOwnerOnly E" and upd: "DefaultUserSecret_Update E c s = Ok s'"
  then obtain data m where data: "dus_updatePorts c (se_Data s) = Ok data"
    and m: "setOwner E c (inheritMeta c (se_Meta s)) = Ok m"
    and s': "s' = s\<lparr>se_Meta := m, se_Data := data\<rparr>"
    by (auto simp: DefaultUserSecret_Update_def Let_def)
  note fields = setOwner_fields [OF E m]
  show "metaKey (se_Meta s') = metaKey (se_Meta s)" by (simp add: s' fields)
  have "inheritMeta c m = m" by (rule inheritMeta_again) (rule fields)+
  then show "DefaultUserSecret_Update E c s' = Ok s'"
    by (simp add: DefaultUserSecret_Update_def Let_def s' dus_updatePorts_again [OF data] fields(7))
qed

text \<open>
  The generated user name is the fixed prefix followed by random characters, is made of
  characters of the URL-safe base64 alphabet only, and decodes to as many bytes as were asked
  for, as its comment promises. (The builder asks for 24; the claim needs a multiple of three,
  for which the encoding has no padding, and at least ten bytes.)
\<close>

theorem generateUsername_shape:
  assumes "fillsBytes E" and "generateUsername E i l = Ok u" and "l mod 3 = 0"
  shows "prefix ''default_user_'' u \<and> set u \<subseteq> set b64Alphabet
    \<and> (\<exists>bs. b64Decode u = Some bs \<and> length bs = l)"
proof -
  obtain s where s: "randomEncodedString E i l = Ok s" "13 \<le> length s" "u = usernamePrefix @ take (length s - 13) s"
    using assms(2) by (auto simp: generateUsername_def split: if_splits)
  note shape = randomEncodedString_shape [OF assms(1) s(1)]
  have "set usernamePrefix \<subseteq> set b64Alphabet" by (simp add: usernamePrefix_def b64Alphabet_def)
  then have alphabet: "set u \<subseteq> set b64Alphabet"
    using shape(2) [OF assms(3)] set_take_subset [of "length s - 13" s] by (auto simp: s(3))
  have "(l + 2) div 3 = l div 3" using assms(3) by presburger
  then have "length u = 4 * (l div 3)" using s(2) shape(1) by (simp add: s(3) usernamePrefix_def)
  then obtain bs where "b64Decode u = Some bs" "length bs = 3 * (l div 3)"
    using b64Decode_defined [OF alphabet] by blast
  moreover have "3 * (l div 3) = l" using assms(3) by presburger
  ultimately show ?thesis using alphabet by (auto simp: s(3) usernamePrefix_def)
qed

definition sampleEncoded :: string where
  "sampleEncoded = ''a2tra2tra2tra2tra2tra2tra2tra2tr''"

lemma sample_random: "randomEncodedString sampleEnv i 24 = Ok sampleEncoded"
proof -
  have "b64Encode (bytesOf (replicate 24 (CHR ''k''))) = sampleEncoded" by code_simp
  then show ?thesis by (simp add: randomEncodedString_def)
qed

theorem generateUsername_shape_witness:
  "fillsBytes sampleEnv \<and> generateUsername sampleEnv 0 24 = Ok ''default_user_a2tra2tra2tra2tra2t''
   \<and> (\<exists>bs. b64Decode ''default_user_a2tra2tra2tra2tra2t'' = Some bs \<and> length bs = 24)"
proof -
  have user: "generateUsername sampleEnv 0 24 = Ok ''default_user_a2tra2tra2tra2tra2t''"
    by (simp add: generateUsername_def sample_random sampleEncoded_def usernamePrefix_def)
  from generateUsername_shape [OF sampleEnv_bytes user] user sampleEnv_bytes show ?thesis by simp
qed

section \<open>Credentials over the life of a cluster\<close>

text \<open>
  The object the reconciler holds after some updates, each with the specification of its day.
\<close>

fun secretUpdates :: "(env \<Rightarrow> rabbitmqCluster \<Rightarrow> secret \<Rightarrow> secret outcome)
    \<Rightarrow> env \<Rightarrow> rabbitmqCluster list \<Rightarrow> secret \<Rightarrow> secret outcome" where
  "secretUpdates upd E [] s = Ok s"
| "secretUpdates upd E (c # cs) s = obind (upd E c s) (secretUpdates upd E cs)"

definition portKeys :: "string list" where
  "portKeys = ''port'' # map snd portNames"

lemma DefaultUserSecret_Update_data:
  assumes "DefaultUserSecret_Update E c s = Ok s'"
  shows "dus_updatePorts c (se_Data s) = Ok (se_Data s')"
  using assms by (auto simp: DefaultUserSecret_Update_def Let_def)

lemma dus_updatePorts_other:
  assumes "dus_updatePorts c data = Ok data'" and "k \<notin> set portKeys"
  shows "mget data' k = mget data k"
proof -
  have "map_of (map (\<lambda>(a, b). (b, a)) portNames) k = None"
    using assms(2) by (force simp: portKeys_def map_of_eq_None_iff)
  with assms(2) show ?thesis by (simp add: dus_updatePorts_get [OF assms(1)] portEntry_def portKeys_def)
qed

lemma secretUpdates_other:
  "secretUpdates DefaultUserSecret_Update E cs s = Ok s' \<Longrightarrow> k \<notin> set portKeys \<Longrightarrow>
   mget (se_Data s') k = mget (se_Data s) k"
  by (induction cs arbitrary: s) (auto dest!: DefaultUserSecret_Update_data dus_updatePorts_other)

lemma cookieUpdates_data:
  "secretUpdates ErlangCookie_Update E cs s = Ok s' \<Longrightarrow> se_Data s' = se_Data s"
  by (induction cs arbitrary: s) (auto simp: ErlangCookie_Update_def)

text \<open>
  C24. Reconciling never changes the credentials: however many updates follow the build, with
  whatever specifications, the secret still holds the user name and password the build generated,
  the configuration file written from just these two, and the binding data; and the Erlang cookie
  stays the generated one.
\<close>

theorem credentials_kept:
  assumes "DefaultUserSecret_Build E c = Ok s" and "secretUpdates DefaultUserSecret_Update E cs s = Ok s'"
    and "ErlangCookie_Build E c = Ok k" and "secretUpdates ErlangCookie_Update E ds k = Ok k'"
  shows "\<exists>u p conf. generateUsername E 0 24 = Ok u \<and> randomEncodedString E 1 24 = Ok p
      \<and> generateDefaultUserConf E u p = Ok conf
      \<and> mget (se_Data s') ''username'' = Some u \<and> mget (se_Data s') ''password'' = Some p
      \<and> mget (se_Data s') ''default_user.conf'' = Some conf
      \<and> mget (se_Data s') ''host'' = Some (ServiceSubDomain c)
      \<and> mget (se_Data s') ''type'' = Some ''rabbitmq'' \<and> mget (se_Data s') ''provider'' = Some ''rabbitmq''
      \<and> (\<exists>cookie. randomEncodedString E 0 24 = Ok cookie \<and> se_Data k' = mlit [(''.erlang.cookie'', cookie)])"
proof -
  obtain u p conf where parts: "generateUsername E 0 24 = Ok u" "randomEncodedString E 1 24 = Ok p"
      "generateDefaultUserConf E u p = Ok conf"
    and data: "dus_updatePorts c (mlit [(''username'', u), (''password'', p), (''default_user.conf'', conf),
         (''provider'', bindingProvider), (''type'', bindingType), (''host'', ServiceSubDomain c)])
       = Ok (se_Data s)"
    using assms(1) by (auto simp: DefaultUserSecret_Build_def)
  have "mget (se_Data s') k = map_of [(''username'', u), (''password'', p), (''default_user.conf'', conf),
         (''provider'', bindingProvider), (''type'', bindingType), (''host'', ServiceSubDomain c)] k"
    if "k \<notin> set portKeys" for k
    using secretUpdates_other [OF assms(2) that] dus_updatePorts_other [OF data that] by simp
  then have kept: "mget (se_Data s') ''username'' = Some u" "mget (se_Data s') ''password'' = Some p"
      "mget (se_Data s') ''default_user.conf'' = Some conf"
      "mget (se_Data s') ''host'' = Some (ServiceSubDomain c)"
      "mget (se_Data s') ''type'' = Some ''rabbitmq''" "mget (se_Data s') ''provider'' = Some ''rabbitmq''"
    by (simp_all add: portKeys_def portNames_def bindingProvider_def bindingType_def)
  have cookie: "\<exists>cookie. randomEncodedString E 0 24 = Ok cookie \<and> se_Data k' = mlit [(''.erlang.cookie'', cookie)]"
    using assms(3) cookieUpdates_data [OF assms(4)] by (auto simp: ErlangCookie_Build_def)
  show ?thesis
    by (rule exI [of _ u], rule exI [of _ p], rule exI [of _ conf]) (intro conjI parts kept cookie)
qed

lemma sample_secret:
  "\<exists>s. DefaultUserSecret_Build sampleEnv c = Ok s
     \<and> (\<exists>s'. secretUpdates DefaultUserSecret_Update sampleEnv [c, d] s = Ok s')"
proof -
  have upd: "\<exists>data'. dus_updatePorts c (Some f) = Ok data' \<and> data' \<noteq> None" for c f
    using dus_updatePorts_get(2) [of c "Some f"]
    by (cases "tls_SecretName (spec_TLS (rc_Spec c)) = []") (auto simp: dus_updatePorts_def)
  have step: "\<exists>s'. DefaultUserSecret_Update sampleEnv c s = Ok s' \<and> se_Data s' \<noteq> None"
    if nonnil: "se_Data s \<noteq> None" for c s
  proof -
    obtain f where f: "se_Data s = Some f" using nonnil by (cases "se_Data s") auto
    obtain data' where "dus_updatePorts c (Some f) = Ok data'" "data' \<noteq> None" using upd by blast
    then show ?thesis by (simp add: DefaultUserSecret_Update_def Let_def f)
  qed
  obtain u where u: "generateUsername sampleEnv 0 24 = Ok u"
    by (simp add: generateUsername_def sample_random sampleEncoded_def)
  obtain data where data: "dus_updatePorts c (mlit [(''username'', u), (''password'', sampleEncoded),
      (''default_user.conf'', ''conf''), (''provider'', bindingProvider), (''type'', bindingType),
      (''host'', ServiceSubDomain c)]) = Ok data" "data \<noteq> None"
    using upd unfolding mlit_def by blast
  have "\<exists>s. DefaultUserSecret_Build sampleEnv c = Ok s \<and> se_Data s \<noteq> None"
    using data by (simp add: DefaultUserSecret_Build_def u sample_random generateDefaultUserConf_def)
  then show ?thesis using step [of _ c] step [of _ d] by fastforce
qed

theorem credentials_kept_witness:
  "\<exists>s s' k k'. DefaultUserSecret_Build sampleEnv sampleCluster = Ok s
     \<and> secretUpdates DefaultUserSecret_Update sampleEnv [sampleCluster, vaultCluster] s = Ok s'
     \<and> mget (se_Data s') ''password'' = Some sampleEncoded
     \<and> ErlangCookie_Build sampleEnv sampleCluster = Ok k
     \<and> secretUpdates ErlangCookie_Update sampleEnv [vaultCluster] k = Ok k'
     \<and> se_Data k' = mlit [(''.erlang.cookie'', sampleEncoded)]"
proof -
  obtain s s' where s: "DefaultUserSecret_Build sampleEnv sampleCluster = Ok s"
      "secretUpdates DefaultUserSecret_Update sampleEnv [sampleCluster, vaultCluster] s = Ok s'"
    using sample_secret by blast
  obtain k k' where k: "ErlangCookie_Build sampleEnv sampleCluster = Ok k"
      "secretUpdates ErlangCookie_Update sampleEnv [vaultCluster] k = Ok k'"
    by (simp add: ErlangCookie_Build_def ErlangCookie_Update_def sample_random)
  from credentials_kept [OF s k] have "mget (se_Data s') ''password'' = Some sampleEncoded"
      "se_Data k' = mlit [(''.erlang.cookie'', sampleEncoded)]"
    by (auto simp: sample_random)
  with s k show ?thesis by (intro exI conjI)
qed

section \<open>Ports of the secret and ports of the service\<close>

definition servedPort :: "rabbitmqCluster \<Rightarrow> string \<Rightarrow> bool" where
  "servedPort c v = list_ex (\<lambda>p. itoa (sp_Port p) = v) (servicePortAssignments c)"

lemma list_ex_whenElems [simp]: "list_ex P (whenElems b xs) \<longleftrightarrow> b \<and> list_ex P xs"
  by (simp add: whenElems_def)

lemma sp_Port_svcPort [simp]: "sp_Port (svcPort n p a) = p"
  by (simp add: svcPort_def)

lemma port_numbers:
  "itoa 5671 = ''5671''" "itoa 5672 = ''5672''" "itoa 8883 = ''8883''" "itoa 1883 = ''1883''"
  "itoa 61614 = ''61614''" "itoa 61613 = ''61613''" "itoa 5551 = ''5551''" "itoa 5552 = ''5552''"
  "itoa 15676 = ''15676''" "itoa 15675 = ''15675''" "itoa 15673 = ''15673''" "itoa 15674 = ''15674''"
  "itoa 15672 = ''15672''" "itoa 15671 = ''15671''" "itoa 15691 = ''15691''" "itoa 15692 = ''15692''"
  by (simp_all add: itoa_eval)

definition portsReachable :: "rabbitmqCluster \<Rightarrow> bool" where
  "portsReachable c \<longleftrightarrow>
     (if SecretTLSEnabled c
      then MutualTLSEnabled c
        \<or> \<not> (AdditionalPluginEnabled c ''rabbitmq_web_mqtt'' \<or> AdditionalPluginEnabled c ''rabbitmq_web_stomp'')
      else \<not> DisableNonTLSListeners c)"


definition plainCluster :: rabbitmqCluster where
  "plainCluster = sampleCluster\<lparr>rc_Spec := sampleSpec\<lparr>spec_TLS :=
     \<lparr>tls_SecretName = [], tls_CaSecretName = [], tls_DisableNonTLSListeners = False\<rparr>\<rparr>\<rparr>"


text \<open>
  Without that proviso the two disagree: the sample cluster has a TLS secret, no CA, and the
  plugin \<^verbatim>\<open>rabbitmq_web_mqtt\<close>; its secret names port 15676, which its service does not have.
\<close>

lemma secret_port_unserved:
  "\<exists>data'. dus_updatePorts sampleCluster (mlit []) = Ok data'
     \<and> mget data' ''web-mqtt-port'' = Some ''15676'' \<and> \<not> servedPort sampleCluster ''15676''"
proof -
  have tls: "tls_SecretName (spec_TLS (rc_Spec sampleCluster)) = ''tls''"
    by (simp add: sampleCluster_def sampleSpec_def)
  obtain data' where data': "dus_updatePorts sampleCluster (mlit []) = Ok data'"
    by (simp add: dus_updatePorts_def tls)
  have "mget data' ''web-mqtt-port'' = Some ''15676''"
    by (simp add: dus_updatePorts_get [OF data'] portEntry_def portNames_def secretPortTable_def
        TLSPort_def mindex_def)
  moreover have "\<not> servedPort sampleCluster ''15676''"
    by (simp add: servedPort_def servicePortAssignments_def port_numbers)
  ultimately show ?thesis using data' by simp
qed

end
