(* ===== verification/Server_Config.thy ===== *)
theory Server_Config
  imports Services
begin

text \<open>
  \<^verbatim>\<open>configmap.go\<close> of \<^verbatim>\<open>internal/resource\<close>: the configuration files of the nodes. The
  ini library is a parameter (see \<open>Environment\<close>), so what is stated about a file is stated
  about the operations the builder performs on it: which keys it sets, to what, in which order.
\<close>

section \<open>Constants\<close>

definition newline :: char where "newline = char_of (10 :: nat)"

definition ServerConfigMapName :: string where "ServerConfigMapName = ''server-conf''"

definition defaultRabbitmqConf :: string where
  "defaultRabbitmqConf = strJoin [
     [],
     ''cluster_formation.peer_discovery_backend = rabbit_peer_discovery_k8s'',
     ''cluster_formation.k8s.host = kubernetes.default'',
     ''cluster_formation.k8s.address_type = hostname'',
     ''cluster_partition_handling = pause_minority'',
     ''queue_master_locator = min-masters'',
     ''disk_free_limit.absolute = 2GB'',
     ''cluster_formation.randomized_startup_delay_range.min = 0'',
     ''cluster_formation.randomized_startup_delay_range.max = 60''] [newline]"

definition defaultTLSConf :: string where
  "defaultTLSConf = strJoin [
     [],
     ''ssl_options.certfile = /etc/rabbitmq-tls/tls.crt'',
     ''ssl_options.keyfile = /etc/rabbitmq-tls/tls.key'',
     ''listeners.ssl.default = 5671'',
     [],
     ''management.ssl.certfile   = /etc/rabbitmq-tls/tls.crt'',
     ''management.ssl.keyfile    = /etc/rabbitmq-tls/tls.key'',
     ''management.ssl.port       = 15671'',
     [],
     ''prometheus.ssl.certfile  = /etc/rabbitmq-tls/tls.crt'',
     ''prometheus.ssl.keyfile   = /etc/rabbitmq-tls/tls.key'',
     ''prometheus.ssl.port      = 15691'',
     []] [newline]"

definition tlsCertDir :: string where "tlsCertDir = ''/etc/rabbitmq-tls/''"
definition caCertPath :: string where "caCertPath = tlsCertDir @ ''ca.crt''"
definition tlsCertPath :: string where "tlsCertPath = tlsCertDir @ ''tls.crt''"
definition tlsKeyPath :: string where "tlsKeyPath = tlsCertDir @ ''tls.key''"

section \<open>Memory headroom\<close>

text \<open>\<^verbatim>\<open>int64\<close> arithmetic: division truncates towards zero, subtraction wraps.\<close>

definition quot64 :: "64 word \<Rightarrow> int \<Rightarrow> 64 word" where
  "quot64 a d = word_of_int (sint a sdiv d)"

definition GiB :: "64 word" where "GiB = 1073741824"

definition removeHeadroom :: "64 word \<Rightarrow> 64 word" where
  "removeHeadroom memLimit =
     (if 2 * GiB <s quot64 memLimit 5 then memLimit - 2 * GiB else memLimit - quot64 memLimit 5)"

section \<open>Updating the config map\<close>

datatype confOp = NewKey string string | Append string

fun applyOp :: "iniFile \<Rightarrow> confOp \<Rightarrow> iniFile" where
  "applyOp f (NewKey k v) = IniNewKey f k v"
| "applyOp f (Append s) = IniAppend f s"

text \<open>Operations in order; the first one that fails ends the update with its error.\<close>

fun runOps :: "env \<Rightarrow> iniFile \<Rightarrow> confOp list \<Rightarrow> iniFile outcome" where
  "runOps E f [] = Ok f"
| "runOps E f (x # xs) = obind (iniStep E (applyOp f x)) (\<lambda>f. runOps E f xs)"

definition tlsOps :: "rabbitmqCluster \<Rightarrow> confOp list" where
  "tlsOps c =
     [Append defaultTLSConf]
     @ (if DisableNonTLSListeners c then [NewKey ''listeners.tcp'' ''none'']
        else [NewKey ''management.tcp.port'' ''15672'', NewKey ''prometheus.tcp.port'' ''15692''])
     @ whenElems (AdditionalPluginEnabled c ''rabbitmq_mqtt'')
         ([NewKey ''mqtt.listeners.ssl.default'' ''8883'']
          @ whenElems (DisableNonTLSListeners c) [NewKey ''mqtt.listeners.tcp'' ''none''])
     @ whenElems (AdditionalPluginEnabled c ''rabbitmq_stomp'')
         ([NewKey ''stomp.listeners.ssl.1'' ''61614'']
          @ whenElems (DisableNonTLSListeners c) [NewKey ''stomp.listeners.tcp'' ''none''])
     @ whenElems (AdditionalPluginEnabled c ''rabbitmq_stream'')
         ([NewKey ''stream.listeners.ssl.default'' ''5551'']
          @ whenElems (DisableNonTLSListeners c) [NewKey ''stream.listeners.tcp'' ''none''])"

definition mutualOps :: "rabbitmqCluster \<Rightarrow> confOp list" where
  "mutualOps c =
     [NewKey ''ssl_options.cacertfile'' caCertPath, NewKey ''ssl_options.verify'' ''verify_peer'',
      NewKey ''management.ssl.cacertfile'' caCertPath, NewKey ''prometheus.ssl.cacertfile'' caCertPath]
     @ whenElems (AdditionalPluginEnabled c ''rabbitmq_web_mqtt'')
         ([NewKey ''web_mqtt.ssl.port'' ''15676'', NewKey ''web_mqtt.ssl.cacertfile'' caCertPath,
           NewKey ''web_mqtt.ssl.certfile'' tlsCertPath, NewKey ''web_mqtt.ssl.keyfile'' tlsKeyPath]
          @ whenElems (DisableNonTLSListeners c) [NewKey ''web_mqtt.tcp.listener'' ''none''])
     @ whenElems (AdditionalPluginEnabled c ''rabbitmq_web_stomp'')
         ([NewKey ''web_stomp.ssl.port'' ''15673'', NewKey ''web_stomp.ssl.cacertfile'' caCertPath,
           NewKey ''web_stomp.ssl.certfile'' tlsCertPath, NewKey ''web_stomp.ssl.keyfile'' tlsKeyPath]
          @ whenElems (DisableNonTLSListeners c) [NewKey ''web_stomp.tcp.listener'' ''none''])"

text \<open>\<^verbatim>\<open>Resources.Limits.Memory().Value()\<close>, an \<^verbatim>\<open>int64\<close>.\<close>

definition memoryLimit :: "rabbitmqCluster \<Rightarrow> 64 word" where
  "memoryLimit c = (case spec_Resources (rc_Spec c) of None \<Rightarrow> 0
     | Some r \<Rightarrow> word_of_int (qValue (mindex 0 (rr_Limits r) ''memory'')))"

definition userConfigOps :: "rabbitmqCluster \<Rightarrow> confOp list" where
  "userConfigOps c =
     whenElems (TLSEnabled c) (tlsOps c)
     @ whenElems (MutualTLSEnabled c) (mutualOps c)
     @ whenElems (MemoryLimited c)
         [NewKey ''total_memory_available_override_value'' (itoa (sint (removeHeadroom (memoryLimit c))))]"

definition updateProperty :: "strmap \<Rightarrow> string \<Rightarrow> string \<Rightarrow> strmap" where
  "updateProperty configMapData key value =
     (if value = [] then mdelete configMapData key else mput configMapData key value)"

definition ServerConfigMap_Build :: "rabbitmqCluster \<Rightarrow> configMap" where
  "ServerConfigMap_Build c =
     \<lparr>cm_Meta = (namedMeta c ServerConfigMapName)
        \<lparr>om_Labels := GetLabels (rc_Name c) (om_Labels (rc_Meta c)),
         om_Annotations := ReconcileAndFilterAnnotations None [om_Annotations (rc_Meta c)]\<rparr>,
      cm_Data = None\<rparr>"

text \<open>The two files, as far as the library lets them be written.\<close>

definition operatorConf :: "env \<Rightarrow> rabbitmqCluster \<Rightarrow> iniFile outcome" where
  "operatorConf E c =
     obind (iniStep E (IniLoad defaultRabbitmqConf)) (\<lambda>operatorConfiguration.
       iniStep E (IniNewKey operatorConfiguration ''cluster_name'' (rc_Name c)))"

definition ServerConfigMap_Update :: "env \<Rightarrow> rabbitmqCluster \<Rightarrow> configMap \<Rightarrow> configMap outcome" where
  "ServerConfigMap_Update E c cm =
     obind (operatorConf E c) (\<lambda>operatorConfiguration.
     obind (runOps E IniEmpty (userConfigOps c)) (\<lambda>userConfiguration.
     obind (lift (env_iniWrite E operatorConfiguration)) (\<lambda>operatorText.
     let data = mput (mmake (cm_Data cm)) ''operatorDefaults.conf'' operatorText;
         rmqProperties = spec_Rabbitmq (rc_Spec c) in
     obind (wrapErr ''failed to append spec.rabbitmq.additionalConfig''
              (iniStep E (IniAppend userConfiguration (cf_AdditionalConfig rmqProperties))))
       (\<lambda>userConfiguration.
     obind (lift (env_iniWrite E userConfiguration)) (\<lambda>userText.
     let data = mput data ''userDefinedConfiguration.conf'' userText;
         data = updateProperty data ''advanced.config'' (cf_AdvancedConfig rmqProperties);
         data = updateProperty data ''rabbitmq-env.conf'' (cf_EnvConfig rmqProperties) in
     obind (setOwner E c (cm_Meta cm)) (\<lambda>m. Ok (cm\<lparr>cm_Meta := m, cm_Data := data\<rparr>)))))))"

section \<open>Headroom\<close>

lemma sint_of_int64:
  "- (2 ^ 63) \<le> i \<Longrightarrow> i < 2 ^ 63 \<Longrightarrow> sint (word_of_int i :: 64 word) = i"
  by (simp add: sint_sbintrunc' signed_take_bit_int_eq_self)

lemma quot64_5: "0 \<le> sint m \<Longrightarrow> sint (quot64 m 5) = sint m div 5"
proof -
  assume m: "0 \<le> sint m"
  moreover have "sint m < 2 ^ 63" using sint_lt [of m] by simp
  moreover have "sint m sdiv 5 = sint m div 5"
    using m by (cases "sint m = 0") (simp_all add: signed_divide_int_def)
  ultimately show ?thesis
    unfolding quot64_def by (simp only:) (rule sint_of_int64; simp)
qed

lemma sint_diff64:
  assumes "0 \<le> sint a" and "0 \<le> sint b"
  shows "sint (a - b :: 64 word) = sint a - sint b"
proof -
  have "sint a < 2 ^ 63" "sint b < 2 ^ 63" using sint_lt [of a] sint_lt [of b] by simp_all
  moreover have "a - b = word_of_int (sint a - sint b)" by simp
  ultimately show ?thesis using assms sint_of_int64 [of "sint a - sint b"] by simp
qed

lemma sint_2GiB: "sint (2 * GiB) = 2147483648"
  by (simp add: GiB_def)

text \<open>
  C35. The memory limit handed to RabbitMQ leaves the smaller of a fifth of the limit and two
  GiB free, exactly: for every non-negative 64-bit limit nothing overflows, and the result is
  between 0 and the limit.
\<close>

theorem removeHeadroom_spec:
  assumes "0 \<le> sint m"
  shows "sint (removeHeadroom m) = sint m - min (sint m div 5) (2 * 1073741824)
    \<and> 0 \<le> sint (removeHeadroom m) \<and> sint (removeHeadroom m) \<le> sint m"
proof -
  have "0 \<le> sint m div 5" using assms by simp
  with assms have "sint (m - quot64 m 5) = sint m - sint m div 5"
    by (simp add: sint_diff64 quot64_5)
  moreover from assms have "sint (m - 2 * GiB) = sint m - 2147483648"
    by (simp add: sint_diff64 sint_2GiB)
  ultimately have "sint (removeHeadroom m) = sint m - min (sint m div 5) (2 * 1073741824)"
    using quot64_5 [OF assms] by (auto simp: removeHeadroom_def word_sless_alt sint_2GiB)
  then show ?thesis using assms by auto
qed

theorem removeHeadroom_spec_witness:
  "0 \<le> sint (10737418240 :: 64 word) \<and> sint (removeHeadroom 10737418240) = 8589934592"
  using removeHeadroom_spec [of 10737418240] by simp

section \<open>What the files hold\<close>

fun keyVals :: "confOp list \<Rightarrow> (string \<times> string) list" where
  "keyVals [] = []"
| "keyVals (NewKey k v # xs) = (k, v) # keyVals xs"
| "keyVals (Append s # xs) = keyVals xs"

lemma keyVals_append [simp]: "keyVals (xs @ ys) = keyVals xs @ keyVals ys"
  by (induction xs rule: keyVals.induct) auto

lemma keyVals_if [simp]:
  "keyVals (whenElems b xs) = whenElems b (keyVals xs)"
  "keyVals (if b then xs else ys) = (if b then keyVals xs else keyVals ys)"
  by (simp_all add: whenElems_def)

lemmas conf_ops = userConfigOps_def tlsOps_def mutualOps_def

lemma runOps_Ok: "runOps E f ops = Ok g \<Longrightarrow> g = foldl applyOp f ops"
  by (induction ops arbitrary: f) auto

text \<open>The settings the operator makes are on distinct keys: no setting silently replaces another.\<close>

lemma userConfig_keys_distinct: "distinct (map fst (keyVals (userConfigOps c)))"
proof -
  have "subseq (map fst (keyVals (userConfigOps c)))
     ((([''listeners.tcp''] @ [''management.tcp.port'', ''prometheus.tcp.port''])
       @ ([''mqtt.listeners.ssl.default''] @ [''mqtt.listeners.tcp''])
       @ ([''stomp.listeners.ssl.1''] @ [''stomp.listeners.tcp''])
       @ ([''stream.listeners.ssl.default''] @ [''stream.listeners.tcp'']))
      @ ([''ssl_options.cacertfile'', ''ssl_options.verify'', ''management.ssl.cacertfile'',
          ''prometheus.ssl.cacertfile'']
         @ ([''web_mqtt.ssl.port'', ''web_mqtt.ssl.cacertfile'', ''web_mqtt.ssl.certfile'',
             ''web_mqtt.ssl.keyfile''] @ [''web_mqtt.tcp.listener''])
         @ ([''web_stomp.ssl.port'', ''web_stomp.ssl.cacertfile'', ''web_stomp.ssl.certfile'',
             ''web_stomp.ssl.keyfile''] @ [''web_stomp.tcp.listener'']))
      @ [''total_memory_available_override_value''])"
    unfolding conf_ops keyVals_append keyVals_if keyVals.simps map_append whenElems_simps(1)
      if_distrib [of "map fst"] list.map fst_conv append.simps(1)
    by (intro list_emb_append_mono subseq_whenElems subseq_if subseq_order.order_refl)
  then show ?thesis by (rule subseq_distinct) simp
qed

text \<open>The key that opens the listener behind a TLS port of the client service.\<close>

definition listenerKeys :: "(string \<times> string) list" where
  "listenerKeys = [(''mqtts'', ''mqtt.listeners.ssl.default''), (''stomps'', ''stomp.listeners.ssl.1''),
     (''streams'', ''stream.listeners.ssl.default''), (''web-mqtt-tls'', ''web_mqtt.ssl.port''),
     (''web-stomp-tls'', ''web_stomp.ssl.port'')]"

definition servedAs :: "rabbitmqCluster \<Rightarrow> string \<Rightarrow> string \<Rightarrow> bool" where
  "servedAs c name v = list_ex (\<lambda>p. sp_Name p = name \<and> itoa (sp_Port p) = v) (servicePortAssignments c)"

definition setsKey :: "rabbitmqCluster \<Rightarrow> string \<Rightarrow> string \<Rightarrow> bool" where
  "setsKey c key v = list_ex (\<lambda>e. e = (key, v)) (keyVals (userConfigOps c))"

lemma list_ex_when [simp]:
  "list_ex P (whenElems b xs) \<longleftrightarrow> b \<and> list_ex P xs"
  "list_ex P (if b then xs else ys) \<longleftrightarrow> (if b then list_ex P xs else list_ex P ys)"
  by (simp_all add: whenElems_def)

lemma tls_port_numbers:
  "itoa 8883 = ''8883''" "itoa 61614 = ''61614''" "itoa 5551 = ''5551''" "itoa 15676 = ''15676''"
  "itoa 15673 = ''15673''"
  by (simp_all add: itoa_eval)

lemma svcPort_port [simp]: "sp_Port (svcPort n p a) = p"
  by (simp add: svcPort_def)

lemma servedAs_tls:
  "servedAs c ''mqtts'' v \<longleftrightarrow> TLSEnabled c \<and> AdditionalPluginEnabled c ''rabbitmq_mqtt'' \<and> v = ''8883''"
  "servedAs c ''stomps'' v \<longleftrightarrow> TLSEnabled c \<and> AdditionalPluginEnabled c ''rabbitmq_stomp'' \<and> v = ''61614''"
  "servedAs c ''streams'' v \<longleftrightarrow> TLSEnabled c \<and> StreamNeeded c \<and> v = ''5551''"
  "servedAs c ''web-mqtt-tls'' v \<longleftrightarrow>
     MutualTLSEnabled c \<and> AdditionalPluginEnabled c ''rabbitmq_web_mqtt'' \<and> v = ''15676''"
  "servedAs c ''web-stomp-tls'' v \<longleftrightarrow>
     MutualTLSEnabled c \<and> AdditionalPluginEnabled c ''rabbitmq_web_stomp'' \<and> v = ''15673''"
  by (simp_all add: servedAs_def servicePortAssignments_def tls_port_numbers eq_commute [of v])

lemma setsKey_tls:
  "setsKey c ''mqtt.listeners.ssl.default'' v \<longleftrightarrow>
     TLSEnabled c \<and> AdditionalPluginEnabled c ''rabbitmq_mqtt'' \<and> v = ''8883''"
  "setsKey c ''stomp.listeners.ssl.1'' v \<longleftrightarrow>
     TLSEnabled c \<and> AdditionalPluginEnabled c ''rabbitmq_stomp'' \<and> v = ''61614''"
  "setsKey c ''stream.listeners.ssl.default'' v \<longleftrightarrow>
     TLSEnabled c \<and> AdditionalPluginEnabled c ''rabbitmq_stream'' \<and> v = ''5551''"
  "setsKey c ''web_mqtt.ssl.port'' v \<longleftrightarrow>
     MutualTLSEnabled c \<and> AdditionalPluginEnabled c ''rabbitmq_web_mqtt'' \<and> v = ''15676''"
  "setsKey c ''web_stomp.ssl.port'' v \<longleftrightarrow>
     MutualTLSEnabled c \<and> AdditionalPluginEnabled c ''rabbitmq_web_stomp'' \<and> v = ''15673''"
  by (simp_all add: setsKey_def conf_ops eq_commute [of v])



text \<open>
  The proviso is needed: with \<^verbatim>\<open>rabbitmq_multi_dc_replication\<close> alone the service has a TLS
  stream port, and no TLS listener is configured for it.
\<close>

lemma stream_listener_missing:
  assumes "TLSEnabled c" and "AdditionalPluginEnabled c ''rabbitmq_multi_dc_replication''"
    and "\<not> AdditionalPluginEnabled c ''rabbitmq_stream''"
  shows "servedAs c ''streams'' ''5551'' \<and> \<not> setsKey c ''stream.listeners.ssl.default'' v"
  using assms by (simp add: servedAs_tls setsKey_tls StreamNeeded_def)

definition plainListenerKeys :: "rabbitmqCluster \<Rightarrow> string list" where
  "plainListenerKeys c = [''listeners.tcp'']
     @ whenElems (AdditionalPluginEnabled c ''rabbitmq_mqtt'') [''mqtt.listeners.tcp'']
     @ whenElems (AdditionalPluginEnabled c ''rabbitmq_stomp'') [''stomp.listeners.tcp'']
     @ whenElems (AdditionalPluginEnabled c ''rabbitmq_stream'') [''stream.listeners.tcp'']
     @ whenElems (MutualTLSEnabled c \<and> AdditionalPluginEnabled c ''rabbitmq_web_mqtt'')
         [''web_mqtt.tcp.listener'']
     @ whenElems (MutualTLSEnabled c \<and> AdditionalPluginEnabled c ''rabbitmq_web_stomp'')
         [''web_stomp.tcp.listener'']"

text \<open>
  A cluster with TLS that disables the plain listeners has none: the AMQP listener and the
  listener of each of the enabled plugins is set to \<^verbatim>\<open>none\<close> (the web plugins under mutual TLS,
  where the operator configures them), and no plain port of the management or Prometheus
  endpoint is configured, which would open one.
\<close>

theorem tls_only_listeners:
  assumes "TLSEnabled c" and "DisableNonTLSListeners c"
  shows "list_all (\<lambda>k. setsKey c k ''none'') (plainListenerKeys c)
    \<and> \<not> setsKey c ''management.tcp.port'' v \<and> \<not> setsKey c ''prometheus.tcp.port'' v"
  using assms by (simp add: plainListenerKeys_def setsKey_def conf_ops)

definition tlsOnlyCluster :: rabbitmqCluster where
  "tlsOnlyCluster = sampleCluster\<lparr>rc_Spec := sampleSpec\<lparr>spec_TLS :=
     \<lparr>tls_SecretName = ''tls'', tls_CaSecretName = ''ca'', tls_DisableNonTLSListeners = True\<rparr>\<rparr>\<rparr>"

theorem tls_only_listeners_witness:
  "TLSEnabled tlsOnlyCluster \<and> DisableNonTLSListeners tlsOnlyCluster
   \<and> list_all (\<lambda>k. setsKey tlsOnlyCluster k ''none'') (plainListenerKeys tlsOnlyCluster)"
proof -
  have ok: "TLSEnabled tlsOnlyCluster" "DisableNonTLSListeners tlsOnlyCluster"
    by (simp_all add: tlsOnlyCluster_def TLSEnabled_def SecretTLSEnabled_def DisableNonTLSListeners_def)
  from tls_only_listeners [OF ok] ok show ?thesis by simp
qed

section \<open>The update\<close>

text \<open>The file terms, and the data map an update writes from their texts.\<close>

definition userConf :: "rabbitmqCluster \<Rightarrow> iniFile" where
  "userConf c = IniAppend (foldl applyOp IniEmpty (userConfigOps c)) (cf_AdditionalConfig (spec_Rabbitmq (rc_Spec c)))"

definition configData :: "rabbitmqCluster \<Rightarrow> string \<Rightarrow> string \<Rightarrow> strmap \<Rightarrow> strmap" where
  "configData c operatorText userText data =
     updateProperty (updateProperty
       (mput (mput (mmake data) ''operatorDefaults.conf'' operatorText)
         ''userDefinedConfiguration.conf'' userText)
       ''advanced.config'' (cf_AdvancedConfig (spec_Rabbitmq (rc_Spec c))))
       ''rabbitmq-env.conf'' (cf_EnvConfig (spec_Rabbitmq (rc_Spec c)))"

lemma updateProperty_simps:
  "m \<noteq> None \<Longrightarrow> updateProperty m k v \<noteq> None"
  "m \<noteq> None \<Longrightarrow> mget (updateProperty m k v) k' =
     (if k' = k then (if v = [] then None else Some v) else mget m k')"
  by (cases m; auto simp: updateProperty_def)+

lemma configData_simps:
  "configData c t u data \<noteq> None"
  "mget (configData c t u data) k =
     (if k = ''operatorDefaults.conf'' then Some t
      else if k = ''userDefinedConfiguration.conf'' then Some u
      else if k = ''advanced.config'' \<and> cf_AdvancedConfig (spec_Rabbitmq (rc_Spec c)) \<noteq> []
      then Some (cf_AdvancedConfig (spec_Rabbitmq (rc_Spec c)))
      else if k = ''rabbitmq-env.conf'' \<and> cf_EnvConfig (spec_Rabbitmq (rc_Spec c)) \<noteq> []
      then Some (cf_EnvConfig (spec_Rabbitmq (rc_Spec c)))
      else if k \<in> {''advanced.config'', ''rabbitmq-env.conf''} then None
      else mget data k)"
proof -
  define m where "m = mput (mput (mmake data) ''operatorDefaults.conf'' t) ''userDefinedConfiguration.conf'' u"
  have m: "m \<noteq> None" by (cases data) (simp_all add: m_def)
  have get: "mget m k = (if k = ''userDefinedConfiguration.conf'' then Some u
      else if k = ''operatorDefaults.conf'' then Some t else mget data k)" for k
    by (cases data) (auto simp: m_def)
  note m2 = updateProperty_simps(1) [OF m]
  show "configData c t u data \<noteq> None"
    unfolding configData_def m_def [symmetric] by (intro updateProperty_simps(1) m)
  show "mget (configData c t u data) k =
     (if k = ''operatorDefaults.conf'' then Some t
      else if k = ''userDefinedConfiguration.conf'' then Some u
      else if k = ''advanced.config'' \<and> cf_AdvancedConfig (spec_Rabbitmq (rc_Spec c)) \<noteq> []
      then Some (cf_AdvancedConfig (spec_Rabbitmq (rc_Spec c)))
      else if k = ''rabbitmq-env.conf'' \<and> cf_EnvConfig (spec_Rabbitmq (rc_Spec c)) \<noteq> []
      then Some (cf_EnvConfig (spec_Rabbitmq (rc_Spec c)))
      else if k \<in> {''advanced.config'', ''rabbitmq-env.conf''} then None
      else mget data k)"
    unfolding configData_def m_def [symmetric]
    by (simp add: updateProperty_simps(2) [OF m2] updateProperty_simps(2) [OF m] get)
qed

lemma ServerConfigMap_Update_Ok:
  "ServerConfigMap_Update E c cm = Ok cm' \<longleftrightarrow>
     (\<exists>t u m. obind (operatorConf E c) (\<lambda>f. lift (env_iniWrite E f)) = Ok t
        \<and> obind (runOps E IniEmpty (userConfigOps c)) (\<lambda>f. iniStep E (IniAppend f
              (cf_AdditionalConfig (spec_Rabbitmq (rc_Spec c))))) = Ok (userConf c)
        \<and> env_iniWrite E (userConf c) = Inr u
        \<and> setOwner E c (cm_Meta cm) = Ok m
        \<and> cm' = cm\<lparr>cm_Meta := m, cm_Data := configData c t u (cm_Data cm)\<rparr>)"
  unfolding ServerConfigMap_Update_def Let_def configData_def userConf_def
  by (auto dest: runOps_Ok)

interpretation serverConfig: resource_update ServerConfigMap_Update cm_Meta "\<lambda>_ _. True"
proof
  fix E c cm cm'
  assume E: "setsOwnerOnly E" and "ServerConfigMap_Update E c cm = Ok cm'"
  then obtain t u m where parts: "obind (operatorConf E c) (\<lambda>f. lift (env_iniWrite E f)) = Ok t"
      "obind (runOps E IniEmpty (userConfigOps c)) (\<lambda>f. iniStep E (IniAppend f
              (cf_AdditionalConfig (spec_Rabbitmq (rc_Spec c))))) = Ok (userConf c)"
      "env_iniWrite E (userConf c) = Inr u"
    and m: "setOwner E c (cm_Meta cm) = Ok m"
    and cm': "cm' = cm\<lparr>cm_Meta := m, cm_Data := configData c t u (cm_Data cm)\<rparr>"
    unfolding ServerConfigMap_Update_Ok by blast
  note fields = setOwner_fields [OF E m]
  show "metaKey (cm_Meta cm') = metaKey (cm_Meta cm)" by (simp add: cm' fields)
  have "configData c t u (configData c t u (cm_Data cm)) = configData c t u (cm_Data cm)"
    by (rule gomap_eqI) (auto simp: configData_simps)
  then have "cm' = cm'\<lparr>cm_Meta := m, cm_Data := configData c t u (cm_Data cm')\<rparr>"
    by (simp add: cm')
  moreover have "setOwner E c (cm_Meta cm') = Ok m" by (simp add: cm' fields(7))
  ultimately show "ServerConfigMap_Update E c cm' = Ok cm'"
    unfolding ServerConfigMap_Update_Ok using parts by (intro exI conjI)
qed



end
