(* ===== verification/Plugins.thy ===== *)
theory Plugins
  imports Samples
begin

text \<open>
  \<^verbatim>\<open>internal/resource/rabbitmq_plugins.go\<close>: the list of plugins a node enables and the
  config map that carries it.
\<close>

definition requiredPlugins :: "string list" where
  "requiredPlugins = [''rabbitmq_peer_discovery_k8s'', ''rabbitmq_prometheus'', ''rabbitmq_management'']"

definition PluginsConfigName :: string where "PluginsConfigName = ''plugins-conf''"

record rabbitmqPlugins =
  rp_requiredPlugins :: "string list"
  rp_additionalPlugins :: "string list"

definition NewRabbitmqPlugins :: "string list \<Rightarrow> rabbitmqPlugins" where
  "NewRabbitmqPlugins plugins =
     \<lparr>rp_requiredPlugins = requiredPlugins, rp_additionalPlugins = plugins\<rparr>"

text \<open>The loop of \<^verbatim>\<open>DesiredPlugins\<close>, with its \<^verbatim>\<open>check\<close> map and its output so far.\<close>

fun desiredLoop :: "string list \<Rightarrow> (string, bool) gomap \<Rightarrow> string list \<Rightarrow> string list" where
  "desiredLoop [] check enabledPlugins = enabledPlugins"
| "desiredLoop (p # ps) check enabledPlugins =
     (if mget check p = None
      then desiredLoop ps (mput check p True) (enabledPlugins @ [p])
      else desiredLoop ps check enabledPlugins)"

definition DesiredPlugins :: "rabbitmqPlugins \<Rightarrow> string list" where
  "DesiredPlugins r =
     desiredLoop (rp_requiredPlugins r @ rp_additionalPlugins r) (Some Map.empty) []"

definition AsString :: "rabbitmqPlugins \<Rightarrow> string \<Rightarrow> string" where
  "AsString r sep = strJoin (DesiredPlugins r) sep"

definition desiredPluginsAsString :: "string list \<Rightarrow> string" where
  "desiredPluginsAsString additionalPlugins =
     ''['' @ AsString (NewRabbitmqPlugins additionalPlugins) '','' @ ''].''"

definition PluginsConfigMap_Build :: "rabbitmqCluster \<Rightarrow> configMap" where
  "PluginsConfigMap_Build c =
     \<lparr>cm_Meta = (namedMeta c PluginsConfigName)
        \<lparr>om_Labels := GetLabels (rc_Name c) (om_Labels (rc_Meta c)),
         om_Annotations := ReconcileAndFilterAnnotations None [om_Annotations (rc_Meta c)]\<rparr>,
      cm_Data = mlit [(''enabled_plugins'', desiredPluginsAsString [])]\<rparr>"

definition putPlugins :: "rabbitmqCluster \<Rightarrow> objectMeta \<Rightarrow> configMap \<Rightarrow> configMap" where
  "putPlugins c m cm = cm\<lparr>cm_Meta := m, cm_Data := mput (mmake (cm_Data cm)) ''enabled_plugins''
     (desiredPluginsAsString (cf_AdditionalPlugins (spec_Rabbitmq (rc_Spec c))))\<rparr>"

definition PluginsConfigMap_Update :: "env \<Rightarrow> rabbitmqCluster \<Rightarrow> configMap \<Rightarrow> configMap outcome" where
  "PluginsConfigMap_Update E c cm =
     obind (setOwner E c (cm_Meta cm)) (\<lambda>m. Ok (putPlugins c m cm))"

section \<open>Lemmas\<close>

text \<open>The elements of a list, each at its first occurrence.\<close>

definition firsts :: "'a list \<Rightarrow> 'a list" where
  "firsts xs = rev (remdups (rev xs))"

lemma firsts_simps [simp]: "distinct (firsts xs)" "set (firsts xs) = set xs"
  by (simp_all add: firsts_def)

lemma firsts_snoc: "firsts (xs @ [x]) = (if x \<in> set xs then firsts xs else firsts xs @ [x])"
  by (simp add: firsts_def)

lemma desiredLoop_acc:
  assumes "check \<noteq> None" and "\<forall>p. mget check p \<noteq> None \<longleftrightarrow> p \<in> set done" and "out = firsts done"
  shows "desiredLoop ps check out = firsts (done @ ps)"
  using assms
proof (induction ps check out arbitrary: "done" rule: desiredLoop.induct)
  case (1 check out)
  then show ?case by simp
next
  case (2 p ps check out)
  show ?case
  proof (cases "mget check p = None")
    case True
    with "2.prems" have "p \<notin> set done" by blast
    with "2.prems" have "out @ [p] = firsts (done @ [p])" by (simp add: firsts_snoc)
    moreover have "\<forall>q. mget (mput check p True) q \<noteq> None \<longleftrightarrow> q \<in> set (done @ [p])"
      using "2.prems"(1,2) by (auto simp: mget_mput)
    moreover have "mput check p True \<noteq> None" using "2.prems"(1) by (cases check) auto
    ultimately have "desiredLoop ps (mput check p True) (out @ [p]) = firsts ((done @ [p]) @ ps)"
      using "2.IH"(1) [OF True] by blast
    with True show ?thesis by simp
  next
    case False
    with "2.prems" have "p \<in> set done" by blast
    then have "firsts (done @ [p]) = firsts done" and set: "set (done @ [p]) = set done"
      by (auto simp: firsts_snoc)
    then have "desiredLoop ps check out = firsts ((done @ [p]) @ ps)"
      using "2.IH"(2) [OF False] "2.prems" by metis
    with False show ?thesis by simp
  qed
qed

lemma DesiredPlugins_firsts:
  "DesiredPlugins r = firsts (rp_requiredPlugins r @ rp_additionalPlugins r)"
  unfolding DesiredPlugins_def
  using desiredLoop_acc [of "Some Map.empty" "[]" "[]"] by (simp add: firsts_def)

lemma firsts_append: "firsts (xs @ ys) = firsts xs @ firsts (filter (\<lambda>y. y \<notin> set xs) ys)"
  by (induction ys rule: rev_induct) (auto simp: firsts_snoc firsts_def [of "[]"] simp flip: append_assoc)

interpretation pluginsConfig: owned_update PluginsConfigMap_Update cm_Meta "\<lambda>c m. m" putPlugins
  by unfold_locales
     (simp_all add: PluginsConfigMap_Update_def putPlugins_def objectMeta.equality mmake_def mput_def
       split: option.splits)

text \<open>
  A node enables the three required plugins first, in their fixed order, then the user's
  plugins in the order given, each once and without those already required; nothing is lost.
\<close>

theorem DesiredPlugins_spec:
  "DesiredPlugins (NewRabbitmqPlugins ps)
     = requiredPlugins @ firsts (filter (\<lambda>p. p \<notin> set requiredPlugins) ps)
   \<and> distinct (DesiredPlugins (NewRabbitmqPlugins ps))
   \<and> set (DesiredPlugins (NewRabbitmqPlugins ps)) = set requiredPlugins \<union> set ps"
proof -
  have "firsts requiredPlugins = requiredPlugins"
    by (simp add: firsts_def requiredPlugins_def)
  then have "DesiredPlugins (NewRabbitmqPlugins ps)
     = requiredPlugins @ firsts (filter (\<lambda>p. p \<notin> set requiredPlugins) ps)"
    by (simp add: DesiredPlugins_firsts NewRabbitmqPlugins_def firsts_append)
  moreover have "distinct (DesiredPlugins (NewRabbitmqPlugins ps))"
    "set (DesiredPlugins (NewRabbitmqPlugins ps)) = set requiredPlugins \<union> set ps"
    by (simp_all add: DesiredPlugins_firsts NewRabbitmqPlugins_def)
  ultimately show ?thesis by (intro conjI)
qed



end
