(* ===== verification/Rbac_Builders.thy ===== *)
theory Rbac_Builders
  imports Samples
begin

text \<open>
  \<^verbatim>\<open>service_account.go\<close>, \<^verbatim>\<open>role.go\<close> and \<^verbatim>\<open>role_binding.go\<close> of
  \<^verbatim>\<open>internal/resource\<close>: the identity under which the RabbitMQ nodes discover their peers.
\<close>

definition serviceAccountName :: string where "serviceAccountName = ''server''"
definition roleName :: string where "roleName = ''peer-discovery''"
definition roleBindingName :: string where "roleBindingName = ''server''"

section \<open>Builds and updates\<close>

definition ServiceAccount_Build :: "rabbitmqCluster \<Rightarrow> serviceAccount" where
  "ServiceAccount_Build c = \<lparr>sa_Meta = namedMeta c serviceAccountName\<rparr>"

definition ServiceAccount_Update :: "env \<Rightarrow> rabbitmqCluster \<Rightarrow> serviceAccount \<Rightarrow> serviceAccount outcome" where
  "ServiceAccount_Update E c sa =
     obind (setOwner E c (inheritMeta c (sa_Meta sa))) (\<lambda>m. Ok (sa\<lparr>sa_Meta := m\<rparr>))"

definition Role_Build :: "rabbitmqCluster \<Rightarrow> role" where
  "Role_Build c = \<lparr>ro_Meta = namedMeta c roleName, ro_Rules = []\<rparr>"

definition peerDiscoveryRules :: "policyRule list" where
  "peerDiscoveryRules =
     [\<lparr>rule_APIGroups = [''''], rule_Resources = [''endpoints''], rule_Verbs = [''get'']\<rparr>,
      \<lparr>rule_APIGroups = [''''], rule_Resources = [''events''], rule_Verbs = [''create'']\<rparr>]"

definition Role_Update :: "env \<Rightarrow> rabbitmqCluster \<Rightarrow> role \<Rightarrow> role outcome" where
  "Role_Update E c ro =
     obind (setOwner E c (inheritMeta c (ro_Meta ro)))
       (\<lambda>m. Ok (ro\<lparr>ro_Meta := m, ro_Rules := peerDiscoveryRules\<rparr>))"

definition RoleBinding_Build :: "rabbitmqCluster \<Rightarrow> roleBinding" where
  "RoleBinding_Build c =
     \<lparr>rb_Meta = namedMeta c roleBindingName,
      rb_RoleRef = \<lparr>ref_APIGroup = [], ref_Kind = [], ref_Name = []\<rparr>, rb_Subjects = []\<rparr>"

definition RoleBinding_Update :: "env \<Rightarrow> rabbitmqCluster \<Rightarrow> roleBinding \<Rightarrow> roleBinding outcome" where
  "RoleBinding_Update E c rb =
     obind (setOwner E c (inheritMeta c (rb_Meta rb)))
       (\<lambda>m. Ok (rb\<lparr>rb_Meta := m,
          rb_RoleRef := \<lparr>ref_APIGroup = ''rbac.authorization.k8s.io'', ref_Kind = ''Role'',
                        ref_Name = ChildResourceName c roleName\<rparr>,
          rb_Subjects := [\<lparr>su_Kind = ''ServiceAccount'',
                          su_Name = ChildResourceName c serviceAccountName\<rparr>]\<rparr>))"

section \<open>Lemmas\<close>

interpretation serviceAccount: owned_update ServiceAccount_Update sa_Meta inheritMeta
    "\<lambda>c m sa. sa\<lparr>sa_Meta := m\<rparr>"
  by (unfold_locales; (rule inheritMeta_again; assumption)?; simp add: ServiceAccount_Update_def)

interpretation role: owned_update Role_Update ro_Meta inheritMeta
    "\<lambda>c m ro. ro\<lparr>ro_Meta := m, ro_Rules := peerDiscoveryRules\<rparr>"
  by (unfold_locales; (rule inheritMeta_again; assumption)?; simp add: Role_Update_def)

definition putBinding :: "rabbitmqCluster \<Rightarrow> objectMeta \<Rightarrow> roleBinding \<Rightarrow> roleBinding" where
  "putBinding c m rb = rb\<lparr>rb_Meta := m,
     rb_RoleRef := \<lparr>ref_APIGroup = ''rbac.authorization.k8s.io'', ref_Kind = ''Role'',
                   ref_Name = ChildResourceName c roleName\<rparr>,
     rb_Subjects := [\<lparr>su_Kind = ''ServiceAccount'', su_Name = ChildResourceName c serviceAccountName\<rparr>]\<rparr>"

interpretation roleBinding: owned_update RoleBinding_Update rb_Meta inheritMeta putBinding
  by (unfold_locales; (rule inheritMeta_again; assumption)?; simp add: RoleBinding_Update_def putBinding_def)

text \<open>
  The RBAC objects of a cluster fit together: whatever objects the updates start from, the
  updated binding grants the role the role builder creates to the service account the account
  builder creates, and that role allows reading endpoints and creating events and nothing else.
\<close>

theorem rbac_wiring:
  assumes "RoleBinding_Update E c rb = Ok rb'" and "Role_Update E c ro = Ok ro'"
  shows "ref_Kind (rb_RoleRef rb') = ''Role''
    \<and> ref_Name (rb_RoleRef rb') = om_Name (ro_Meta (Role_Build c))
    \<and> map su_Name (rb_Subjects rb') = [om_Name (sa_Meta (ServiceAccount_Build c))]
    \<and> {(r, v). \<exists>ru \<in> set (ro_Rules ro'). r \<in> set (rule_Resources ru) \<and> v \<in> set (rule_Verbs ru)}
          = {(''endpoints'', ''get''), (''events'', ''create'')}"
  using assms
  by (auto simp: RoleBinding_Update_def Role_Update_def Role_Build_def ServiceAccount_Build_def
      namedMeta_def peerDiscoveryRules_def)

theorem rbac_wiring_witness:
  "\<exists>rb ro. RoleBinding_Update sampleEnv sampleCluster (RoleBinding_Build sampleCluster) = Ok rb
     \<and> Role_Update sampleEnv sampleCluster (Role_Build sampleCluster) = Ok ro
     \<and> ref_Name (rb_RoleRef rb) = om_Name (ro_Meta (Role_Build sampleCluster))"
proof -
  obtain rb where rb: "RoleBinding_Update sampleEnv sampleCluster (RoleBinding_Build sampleCluster) = Ok rb"
    by (simp add: RoleBinding_Update_def)
  obtain ro where ro: "Role_Update sampleEnv sampleCluster (Role_Build sampleCluster) = Ok ro"
    by (simp add: Role_Update_def)
  from rb ro conjunct1 [OF conjunct2 [OF rbac_wiring [OF rb ro]]] show ?thesis
    by (intro exI [of _ rb] exI [of _ ro] conjI)
qed

end
