(* ===== verification/Pod_Template.thy ===== *)
theory Pod_Template
  imports Secrets Server_Config Plugins Rbac_Builders
begin

text \<open>
  The pod template of \<^verbatim>\<open>statefulset.go\<close>: volumes, mounts, environment, ports, the init
  container, the optional credential updater, and the annotations that drive the Vault agent.
\<close>

definition stsSuffix :: string where "stsSuffix = ''server''"
definition defaultPVCName :: string where "defaultPVCName = ''persistence''"
definition DeletionMarker :: string where "DeletionMarker = ''skipPreStopChecks''"

section \<open>Vault annotations\<close>

fun hostNamesFrom :: "rabbitmqCluster \<Rightarrow> nat \<Rightarrow> nat \<Rightarrow> string" where
  "hostNamesFrom c i 0 = []"
| "hostNamesFrom c i (Suc n) =
     '','' @ ChildResourceName c stsSuffix @ ''-'' @ itoa (int i) @ ''.''
       @ ChildResourceName c headlessServiceSuffix @ ''.'' @ rc_Namespace c @ hostNamesFrom c (Suc i) n"

definition podHostNames :: "rabbitmqCluster \<Rightarrow> string" where
  "podHostNames c =
     (let n = (case spec_Replicas (rc_Spec c) of None \<Rightarrow> 1 | Some r \<Rightarrow> r)
      in trimPrefix (hostNamesFrom c 0 (nat n)) '','')"

definition generateVaultTLSTemplate :: "string \<Rightarrow> string \<Rightarrow> vaultSpec \<Rightarrow> string \<Rightarrow> string" where
  "generateVaultTLSTemplate commonName altNames vault tlsAttribute =
     [newline] @ ''{{- with secret \"'' @ vt_PKIIssuerPath (va_TLS vault)
     @ ''\" \"common_name='' @ commonName @ ''\" \"alt_names='' @ altNames
     @ ''\" \"ip_sans='' @ vt_IpSans (va_TLS vault) @ ''\" -}}'' @ [newline]
     @ ''{{ .Data.'' @ tlsAttribute @ '' }}'' @ [newline] @ ''{{- end }}''"

definition vaultKey :: "string \<Rightarrow> string" where
  "vaultKey s = ''vault.hashicorp.com/'' @ s"

definition defaultUserTemplate :: "string \<Rightarrow> string" where
  "defaultUserTemplate path =
     [newline] @ ''{{- with secret \"'' @ path @ ''\" -}}'' @ [newline]
     @ ''default_user = {{ .Data.data.username }}'' @ [newline]
     @ ''default_pass = {{ .Data.data.password }}'' @ [newline] @ ''{{- end }}''"

text \<open>The entries of the literal, then of the two conditional blocks; later ones win.\<close>

definition vaultBase :: "vaultSpec \<Rightarrow> (string \<times> string) list" where
  "vaultBase vault =
     [(vaultKey ''agent-inject'', ''true''), (vaultKey ''agent-init-first'', ''true''),
      (vaultKey ''role'', va_Role vault)]"

definition vaultDefaultUser :: "vaultSpec \<Rightarrow> (string \<times> string) list" where
  "vaultDefaultUser vault =
     (let secretName = ''11-default_user.conf'' in
      [(vaultKey ''secret-volume-path-'' @ secretName, ''/etc/rabbitmq/conf.d''),
       (vaultKey ''agent-inject-perms-'' @ secretName, ''0640''),
       (vaultKey ''agent-inject-secret-'' @ secretName, va_DefaultUserPath vault),
       (vaultKey ''agent-inject-template-'' @ secretName, defaultUserTemplate (va_DefaultUserPath vault))])"

definition vaultTLS :: "rabbitmqCluster \<Rightarrow> vaultSpec \<Rightarrow> (string \<times> string) list" where
  "vaultTLS c vault =
     (let pathCert = vt_PKIIssuerPath (va_TLS vault);
          commonName = (if vt_CommonName (va_TLS vault) \<noteq> [] then vt_CommonName (va_TLS vault)
                        else ServiceSubDomain c);
          altNames = (if vt_AltNames (va_TLS vault) \<noteq> []
                      then podHostNames c @ '','' @ vt_AltNames (va_TLS vault) else podHostNames c);
          certDir = trimSuffix tlsCertDir ''/'';
          file = (\<lambda>name attr.
            [(vaultKey ''secret-volume-path-'' @ name, certDir),
             (vaultKey ''agent-inject-secret-'' @ name, pathCert),
             (vaultKey ''agent-inject-template-'' @ name,
                generateVaultTLSTemplate commonName altNames vault attr)])
      in file ''tls.crt'' ''certificate'' @ file ''tls.key'' ''private_key'' @ file ''ca.crt'' ''issuing_ca'')"

definition appendVaultAnnotations :: "strmap \<Rightarrow> rabbitmqCluster \<Rightarrow> vaultSpec \<Rightarrow> strmap" where
  "appendVaultAnnotations currentAnnotations c vault =
     (let vaultAnnotations = foldl (\<lambda>m (k, v). mput m k v) (mlit (vaultBase vault))
            (whenElems (vaultSpec_DefaultUserSecretEnabled vault) (vaultDefaultUser vault)
             @ whenElems (vaultSpec_TLSEnabled vault) (vaultTLS c vault))
      in ReconcileAnnotations currentAnnotations [vaultAnnotations, va_Annotations vault])"

section \<open>Ports\<close>

definition cPort :: "string \<Rightarrow> int \<Rightarrow> containerPort" where
  "cPort name port = \<lparr>cp_Name = name, cp_ContainerPort = port\<rparr>"

definition updateContainerPortsOnlyTLSListeners :: "rabbitmqCluster \<Rightarrow> containerPort list" where
  "updateContainerPortsOnlyTLSListeners c =
     [cPort ''epmd'' 4369, cPort ''amqps'' 5671, cPort ''management-tls'' 15671, cPort ''prometheus-tls'' 15691]
     @ whenElems (AdditionalPluginEnabled c ''rabbitmq_mqtt'') [cPort ''mqtts'' 8883]
     @ whenElems (AdditionalPluginEnabled c ''rabbitmq_stomp'') [cPort ''stomps'' 61614]
     @ whenElems (StreamNeeded c) [cPort ''streams'' 5551]
     @ whenElems (MutualTLSEnabled c)
         (whenElems (AdditionalPluginEnabled c ''rabbitmq_web_mqtt'') [cPort ''web-mqtt-tls'' 15676]
          @ whenElems (AdditionalPluginEnabled c ''rabbitmq_web_stomp'') [cPort ''web-stomp-tls'' 15673])"

definition updateContainerPorts :: "rabbitmqCluster \<Rightarrow> containerPort list" where
  "updateContainerPorts c =
     (if DisableNonTLSListeners c then updateContainerPortsOnlyTLSListeners c
      else
     [cPort ''epmd'' 4369, cPort ''amqp'' 5672, cPort ''management'' 15672, cPort ''prometheus'' 15692]
     @ whenElems (AdditionalPluginEnabled c ''rabbitmq_mqtt'') [cPort ''mqtt'' 1883]
     @ whenElems (AdditionalPluginEnabled c ''rabbitmq_web_mqtt'') [cPort ''web-mqtt'' 15675]
     @ whenElems (AdditionalPluginEnabled c ''rabbitmq_stomp'') [cPort ''stomp'' 61613]
     @ whenElems (AdditionalPluginEnabled c ''rabbitmq_web_stomp'') [cPort ''web-stomp'' 15674]
     @ whenElems (StreamNeeded c) [cPort ''stream'' 5552]
     @ whenElems (TLSEnabled c)
         ([cPort ''amqps'' 5671, cPort ''management-tls'' 15671, cPort ''prometheus-tls'' 15691]
          @ whenElems (AdditionalPluginEnabled c ''rabbitmq_mqtt'') [cPort ''mqtts'' 8883]
          @ whenElems (AdditionalPluginEnabled c ''rabbitmq_stomp'') [cPort ''stomps'' 61614]
          @ whenElems (StreamNeeded c) [cPort ''streams'' 5551]
          @ whenElems (MutualTLSEnabled c)
              (whenElems (AdditionalPluginEnabled c ''rabbitmq_web_mqtt'') [cPort ''web-mqtt-tls'' 15676]
               @ whenElems (AdditionalPluginEnabled c ''rabbitmq_web_stomp'')
                   [cPort ''web-stomp-tls'' 15673])))"

section \<open>Environment and mounts\<close>

definition plainVar :: "string \<Rightarrow> string \<Rightarrow> envVar" where
  "plainVar name v = \<lparr>ev_Name = name, ev_Value = v, ev_ValueFrom = None\<rparr>"

definition fieldVar :: "string \<Rightarrow> string \<Rightarrow> envVar" where
  "fieldVar name path = \<lparr>ev_Name = name, ev_Value = [],
     ev_ValueFrom = Some \<lparr>fs_FieldPath = path, fs_APIVersion = ''v1''\<rparr>\<rparr>"

definition envVarsK8sObjects :: "rabbitmqCluster \<Rightarrow> envVar list" where
  "envVarsK8sObjects c =
     [fieldVar ''MY_POD_NAME'' ''metadata.name'', fieldVar ''MY_POD_NAMESPACE'' ''metadata.namespace'',
      plainVar ''K8S_SERVICE_NAME'' (ChildResourceName c headlessServiceSuffix)]"

definition mount :: "string \<Rightarrow> string \<Rightarrow> string \<Rightarrow> volumeMount" where
  "mount name path sub = \<lparr>vm_Name = name, vm_MountPath = path, vm_SubPath = sub, vm_ReadOnly = False\<rparr>"

definition tlsMount :: volumeMount where
  "tlsMount = (mount ''rabbitmq-tls'' ''/etc/rabbitmq-tls/'' [])\<lparr>vm_ReadOnly := True\<rparr>"

definition resourcesOf :: "(string \<times> quantity) list \<Rightarrow> (string \<times> quantity) list \<Rightarrow> resourceRequirements" where
  "resourcesOf limits requests = \<lparr>rr_Limits = mlit limits, rr_Requests = mlit requests\<rparr>"

text \<open>The suffixes: \<^verbatim>\<open>m\<close> is a thousandth, \<^verbatim>\<open>Ki\<close> 1024 and \<^verbatim>\<open>Mi\<close> 1048576.\<close>

definition initResources :: "(string \<times> quantity) list" where
  "initResources = [(''cpu'', Quantity 100), (''memory'', units (500 * 1048576))]"

definition quoted :: "string \<Rightarrow> string" where
  "quoted s = [CHR 0x27] @ s @ [CHR 0x27]"

definition setupScript :: "string \<Rightarrow> string" where
  "setupScript conf =
     ''cp /tmp/erlang-cookie-secret/.erlang.cookie /var/lib/rabbitmq/.erlang.cookie ''
     @ ''&& chmod 600 /var/lib/rabbitmq/.erlang.cookie ; ''
     @ ''cp /tmp/rabbitmq-plugins/enabled_plugins /operator/enabled_plugins ; ''
     @ ''echo '' @ quoted ''[default]'' @ '' > /var/lib/rabbitmq/.rabbitmqadmin.conf ''
     @ ''&& sed -e '' @ quoted ''s/default_user/username/'' @ '' -e '' @ quoted ''s/default_pass/password/''
     @ '' '' @ conf @ '' >> /var/lib/rabbitmq/.rabbitmqadmin.conf ''
     @ ''&& chmod 600 /var/lib/rabbitmq/.rabbitmqadmin.conf''"

definition setupContainer :: "rabbitmqCluster \<Rightarrow> container" where
  "setupContainer c =
     (let mounts = [mount ''plugins-conf'' ''/tmp/rabbitmq-plugins/'' [],
                    mount ''rabbitmq-erlang-cookie'' ''/var/lib/rabbitmq/'' [],
                    mount ''erlang-cookie-secret'' ''/tmp/erlang-cookie-secret/'' [],
                    mount ''rabbitmq-plugins'' ''/operator'' [],
                    mount ''persistence'' ''/var/lib/rabbitmq/mnesia/'' []];
          co = emptyContainer\<lparr>co_Name := ''setup-container'', co_Image := spec_Image (rc_Spec c),
                 co_Resources := resourcesOf initResources initResources\<rparr>
      in if VaultDefaultUserSecretEnabled c
         then co\<lparr>co_Command := [''sh'', ''-c'', setupScript ''/etc/rabbitmq/conf.d/11-default_user.conf''],
                 co_VolumeMounts := Some mounts\<rparr>
         else co\<lparr>co_Command := [''sh'', ''-c'', setupScript ''/tmp/default_user.conf''],
                 co_VolumeMounts := Some (mounts
                   @ [mount ''rabbitmq-confd'' ''/tmp/default_user.conf'' ''default_user.conf''])\<rparr>)"

definition defaultUserCredentialUpdater :: "rabbitmqCluster \<Rightarrow> string \<Rightarrow> container" where
  "defaultUserCredentialUpdater c img =
     (let managementURI = (if TLSEnabled c then ''https://$(HOSTNAME_DOMAIN):15671''
                           else ''http://127.0.0.1:15672'')
      in emptyContainer\<lparr>
           co_Name := ''default-user-credential-updater'',
           co_Image := img,
           co_Args := [''--management-uri'', managementURI, ''-v'', ''4''],
           co_Resources := resourcesOf
             [(''cpu'', Quantity 500), (''memory'', units (128 * 1048576))]
             [(''cpu'', Quantity 10), (''memory'', units (512 * 1024))],
           co_Env := Some (envVarsK8sObjects c
             @ [plainVar ''HOSTNAME_DOMAIN'' ''$(MY_POD_NAME).$(K8S_SERVICE_NAME).$(MY_POD_NAMESPACE)'']),
           co_VolumeMounts := Some ([mount ''rabbitmq-erlang-cookie'' ''/var/lib/rabbitmq/'' []]
             @ whenElems (SecretTLSEnabled c) [tlsMount])\<rparr>)"

section \<open>Volumes\<close>

definition baseVolumes :: "rabbitmqCluster \<Rightarrow> volume list" where
  "baseVolumes c =
     [\<lparr>vo_Name = ''plugins-conf'', vo_Source = ConfigMapVolume (ChildResourceName c PluginsConfigName)\<rparr>,
      \<lparr>vo_Name = ''rabbitmq-confd'', vo_Source = ProjectedVolume
         [ConfigMapProjection (ChildResourceName c ServerConfigMapName)
            [(''operatorDefaults.conf'', ''operatorDefaults.conf''),
             (''userDefinedConfiguration.conf'', ''userDefinedConfiguration.conf'')]] None\<rparr>,
      \<lparr>vo_Name = ''rabbitmq-erlang-cookie'', vo_Source = EmptyDirVolume\<rparr>,
      \<lparr>vo_Name = ''erlang-cookie-secret'', vo_Source = SecretVolume (ChildResourceName c erlangCookieName)\<rparr>,
      \<lparr>vo_Name = ''rabbitmq-plugins'', vo_Source = EmptyDirVolume\<rparr>,
      \<lparr>vo_Name = ''pod-info'', vo_Source = DownwardAPIVolume
         [(DeletionMarker, ''metadata.labels['' @ quoted DeletionMarker @ '']'')]\<rparr>]"

text \<open>Appending to the sources of a volume that is not projected dereferences nil.\<close>

definition projectDefaultUser :: "rabbitmqCluster \<Rightarrow> volume \<Rightarrow> volume outcome" where
  "projectDefaultUser c v =
     (if vo_Name v = ''rabbitmq-confd''
      then (case vo_Source v of
              ProjectedVolume sources mode \<Rightarrow>
                Ok (v\<lparr>vo_Source := ProjectedVolume
                  (sources @ [SecretProjection (ChildResourceName c DefaultUserSecretName)
                     [(''default_user.conf'', ''default_user.conf'')] None]) mode\<rparr>)
            | _ \<Rightarrow> Panic ''nil pointer dereference'')
      else Ok v)"

definition appendDefaultUserSecretVolumeProjection ::
    "rabbitmqCluster \<Rightarrow> volume list \<Rightarrow> volume list outcome" where
  "appendDefaultUserSecretVolumeProjection c volumes = mapOutcome (projectDefaultUser c) volumes"

definition tlsVolume :: "rabbitmqCluster \<Rightarrow> volume" where
  "tlsVolume c =
     (let secretEnforced = True; tls = spec_TLS (rc_Spec c)
      in \<lparr>vo_Name = ''rabbitmq-tls'',
          vo_Source = ProjectedVolume
            ([SecretProjection (tls_SecretName tls) [] (Some secretEnforced)]
             @ whenElems (MutualTLSEnabled c \<and> \<not> SingleTLSSecret c)
                 [SecretProjection (tls_CaSecretName tls) [] (Some secretEnforced)])
            (Some 400)\<rparr>)"

definition podVolumes :: "rabbitmqCluster \<Rightarrow> volume list outcome" where
  "podVolumes c =
     obind (if VaultDefaultUserSecretEnabled c then Ok (baseVolumes c)
            else appendDefaultUserSecretVolumeProjection c (baseVolumes c)) (\<lambda>volumes.
     obind (deref (pe_Storage (spec_Persistence (rc_Spec c)))) (\<lambda>storage.
     Ok (volumes
         @ whenElems (cf_AdvancedConfig (spec_Rabbitmq (rc_Spec c)) \<noteq> []
                      \<or> cf_EnvConfig (spec_Rabbitmq (rc_Spec c)) \<noteq> [])
             [\<lparr>vo_Name = ''server-conf'', vo_Source = ConfigMapVolume (ChildResourceName c ServerConfigMapName)\<rparr>]
         @ whenElems (qCmp storage 0 = 0) [\<lparr>vo_Name = ''persistence'', vo_Source = EmptyDirVolume\<rparr>]
         @ whenElems (SecretTLSEnabled c) [tlsVolume c])))"

definition rabbitmqContainerVolumeMounts :: "rabbitmqCluster \<Rightarrow> volumeMount list" where
  "rabbitmqContainerVolumeMounts c =
     [mount ''rabbitmq-erlang-cookie'' ''/var/lib/rabbitmq/'' [],
      mount ''persistence'' ''/var/lib/rabbitmq/mnesia/'' [],
      mount ''rabbitmq-plugins'' ''/operator'' [],
      mount ''rabbitmq-confd'' ''/etc/rabbitmq/conf.d/10-operatorDefaults.conf'' ''operatorDefaults.conf'',
      mount ''rabbitmq-confd'' ''/etc/rabbitmq/conf.d/90-userDefinedConfiguration.conf''
        ''userDefinedConfiguration.conf'',
      mount ''pod-info'' ''/etc/pod-info/'' []]
     @ whenElems (\<not> VaultDefaultUserSecretEnabled c)
         [mount ''rabbitmq-confd'' ''/etc/rabbitmq/conf.d/11-default_user.conf'' ''default_user.conf'']
     @ whenElems (cf_EnvConfig (spec_Rabbitmq (rc_Spec c)) \<noteq> [])
         [mount ''server-conf'' ''/etc/rabbitmq/rabbitmq-env.conf'' ''rabbitmq-env.conf'']
     @ whenElems (cf_AdvancedConfig (spec_Rabbitmq (rc_Spec c)) \<noteq> [])
         [mount ''server-conf'' ''/etc/rabbitmq/advanced.config'' ''advanced.config'']
     @ whenElems (SecretTLSEnabled c) [tlsMount]"

section \<open>The template\<close>

definition preStopCommand :: "int \<Rightarrow> string list" where
  "preStopCommand grace =
     [''/bin/bash'', ''-c'',
      ''if [ ! -z \"$(cat /etc/pod-info/'' @ DeletionMarker @ '')\" ]; then exit 0; fi;''
      @ '' rabbitmq-upgrade await_online_quorum_plus_one -t '' @ itoa grace @ '';''
      @ '' rabbitmq-upgrade await_online_synchronized_mirror -t '' @ itoa grace @ '';''
      @ '' rabbitmq-upgrade drain -t '' @ itoa grace]"

definition rabbitmqContainer :: "rabbitmqCluster \<Rightarrow> resourceRequirements \<Rightarrow> int \<Rightarrow> container" where
  "rabbitmqContainer c resources grace = emptyContainer\<lparr>
     co_Name := ''rabbitmq'',
     co_Resources := resources,
     co_Image := spec_Image (rc_Spec c),
     co_Env := Some (envVarsK8sObjects c
       @ [plainVar ''RABBITMQ_ENABLED_PLUGINS_FILE'' ''/operator/enabled_plugins'',
          plainVar ''RABBITMQ_USE_LONGNAME'' ''true'',
          plainVar ''RABBITMQ_NODENAME'' ''rabbit@$(MY_POD_NAME).$(K8S_SERVICE_NAME).$(MY_POD_NAMESPACE)'',
          plainVar ''K8S_HOSTNAME_SUFFIX'' ''.$(K8S_SERVICE_NAME).$(MY_POD_NAMESPACE)'']),
     co_Ports := updateContainerPorts c,
     co_VolumeMounts := Some (rabbitmqContainerVolumeMounts c),
     co_ReadinessProbe := Some \<lparr>
       pr_TCPPort = FromString (if DisableNonTLSListeners c then ''amqps'' else ''amqp''),
       pr_InitialDelaySeconds = 10, pr_TimeoutSeconds = 5, pr_PeriodSeconds = 10,
       pr_SuccessThreshold = 1, pr_FailureThreshold = 3\<rparr>,
     co_PreStop := Some (preStopCommand grace)\<rparr>"

text \<open>The sidecar container: only with a Vault default user and a non-empty updater image.\<close>

definition updaterContainers :: "rabbitmqCluster \<Rightarrow> container list" where
  "updaterContainers c =
     (if VaultDefaultUserSecretEnabled c then
        (case spec_Vault (rc_Spec c) of
           None \<Rightarrow> []
         | Some vault \<Rightarrow>
             (case va_DefaultUserUpdaterImage vault of
                None \<Rightarrow> []
              | Some img \<Rightarrow> if img \<noteq> [] then [defaultUserCredentialUpdater c img] else []))
      else [])"

definition podTemplateSpec :: "rabbitmqCluster \<Rightarrow> strmap \<Rightarrow> podTemplateSpec outcome" where
  "podTemplateSpec c previousPodAnnotations =
     (let defaultPodAnnotations =
            (case spec_Vault (rc_Spec c) of
               None \<Rightarrow> Some Map.empty
             | Some vault \<Rightarrow> appendVaultAnnotations (Some Map.empty) c vault) in
      obind (podVolumes c) (\<lambda>volumes.
      obind (deref (spec_Resources (rc_Spec c))) (\<lambda>resources.
      obind (deref (spec_TerminationGracePeriodSeconds (rc_Spec c))) (\<lambda>grace.
      Ok \<lparr>pt_Meta = emptyMeta\<lparr>
             om_Annotations := ReconcileAnnotations previousPodAnnotations [defaultPodAnnotations],
             om_Labels := Label (rc_Name c)\<rparr>,
          pt_Spec = \<lparr>
             ps_TopologySpreadConstraints = [\<lparr>ts_MaxSkew = 1, ts_TopologyKey = ''topology.kubernetes.io/zone'',
               ts_WhenUnsatisfiable = ''ScheduleAnyway'', ts_MatchLabels = LabelSelector (rc_Name c)\<rparr>],
             ps_SecurityContext = Some \<lparr>psc_FSGroup = Some 0, psc_RunAsUser = Some 999, psc_Others = None\<rparr>,
             ps_ImagePullSecrets = spec_ImagePullSecrets (rc_Spec c),
             ps_TerminationGracePeriodSeconds = spec_TerminationGracePeriodSeconds (rc_Spec c),
             ps_ServiceAccountName = ChildResourceName c serviceAccountName,
             ps_AutomountServiceAccountToken = Some True,
             ps_Affinity = spec_Affinity (rc_Spec c),
             ps_Tolerations = spec_Tolerations (rc_Spec c),
             ps_InitContainers = [setupContainer c],
             ps_Volumes = volumes,
             ps_Containers = [rabbitmqContainer c resources grace] @ updaterContainers c\<rparr>\<rparr>))))"

section \<open>Host names\<close>

text \<open>The host name of the pod with ordinal \<open>i\<close>, and all of them.\<close>

definition podHost :: "rabbitmqCluster \<Rightarrow> nat \<Rightarrow> string" where
  "podHost c i = ChildResourceName c stsSuffix @ ''-'' @ itoa (int i) @ ''.''
     @ ChildResourceName c headlessServiceSuffix @ ''.'' @ rc_Namespace c"

definition replicaCount :: "rabbitmqCluster \<Rightarrow> nat" where
  "replicaCount c = nat (case spec_Replicas (rc_Spec c) of None \<Rightarrow> 1 | Some r \<Rightarrow> r)"

lemma hostNamesFrom_join:
  "hostNamesFrom c i n =
     (if n = 0 then [] else '','' @ strJoin (map (podHost c) [i..<i + n]) '','')"
proof (induction n arbitrary: i)
  case (Suc n)
  have "map (podHost c) [i..<i + Suc n] = podHost c i # map (podHost c) [Suc i..<Suc i + n]"
    by (simp add: upt_conv_Cons del: upt_Suc)
  then have "strJoin (map (podHost c) [i..<i + Suc n]) '',''
      = podHost c i @ (if n = 0 then [] else '','' @ strJoin (map (podHost c) [Suc i..<Suc i + n]) '','')"
    by (simp add: strJoin_Cons del: upt_Suc)
  moreover have "hostNamesFrom c i (Suc n) = '','' @ podHost c i @ hostNamesFrom c (Suc i) n"
    by (simp add: podHost_def)
  ultimately show ?case unfolding Suc [of "Suc i"] by simp
qed simp

lemma podHostNames_join: "podHostNames c = strJoin (map (podHost c) [0..<replicaCount c]) '',''"
proof -
  have "trimPrefix ('','' @ s) '','' = s" for s by (simp add: trimPrefix_def)
  moreover have "trimPrefix [] '','' = []" by (simp add: trimPrefix_def)
  ultimately show ?thesis
    unfolding podHostNames_def Let_def replicaCount_def [symmetric] hostNamesFrom_join
    by (cases "replicaCount c = 0") simp_all
qed

text \<open>
  The alternative names put into a Vault certificate are the names of the pods of the
  cluster in the headless service, one per replica (one if the count is unset), all of them
  different: splitting the list at its commas gives them back, for cluster names and
  namespaces without a comma, which Kubernetes names never have.
\<close>

theorem podHostNames_spec:
  assumes "CHR '','' \<notin> set (rc_Name c)" and "CHR '','' \<notin> set (rc_Namespace c)"
    and "0 < replicaCount c"
  shows "strSplit (podHostNames c) (CHR '','') = map (podHost c) [0..<replicaCount c]
    \<and> distinct (map (podHost c) [0..<replicaCount c])"
proof -
  have "CHR '','' \<notin> set (podHost c i)" for i
    using assms(1,2) natDec_no_sym
    by (auto simp: podHost_def stsSuffix_def headlessServiceSuffix_def child_names itoa_nat)
  then have "strSplit (podHostNames c) (CHR '','') = map (podHost c) [0..<replicaCount c]"
    unfolding podHostNames_join using assms(3) by (intro strSplit_strJoin) auto
  moreover have "inj (podHost c)"
  proof (rule injI)
    fix i j assume "podHost c i = podHost c j"
    then have "itoa (int i) @ ''.'' @ ChildResourceName c headlessServiceSuffix @ ''.'' @ rc_Namespace c
        = itoa (int j) @ ''.'' @ ChildResourceName c headlessServiceSuffix @ ''.'' @ rc_Namespace c"
      by (simp add: podHost_def)
    then have "itoa (int i) = itoa (int j)" by (metis append_same_eq)
    then show "i = j" by simp
  qed
  ultimately show ?thesis by (simp add: distinct_map inj_on_subset [OF _ subset_UNIV])
qed

theorem podHostNames_spec_witness:
  "strSplit (podHostNames sampleCluster) (CHR '','')
     = [''rmq-server-0.rmq-nodes.ns'', ''rmq-server-1.rmq-nodes.ns'', ''rmq-server-2.rmq-nodes.ns'']"
proof -
  have three: "replicaCount sampleCluster = 3"
    by (simp add: replicaCount_def sampleCluster_def sampleSpec_def)
  then have "[0..<replicaCount sampleCluster] = [0, 1, 2]" by (simp add: upt_rec)
  with podHostNames_spec [of sampleCluster] three show ?thesis
    by (simp add: podHost_def stsSuffix_def headlessServiceSuffix_def child_names itoa_eval)
qed

section \<open>Ports of the pods\<close>

lemma cPort_simps [simp]: "cp_Name (cPort n p) = n" "cp_ContainerPort (cPort n p) = p"
  by (simp_all add: cPort_def)

lemma list_ex_cases [simp]:
  "list_ex P (whenElems b xs) \<longleftrightarrow> b \<and> list_ex P xs"
  "list_ex P (if b then xs else ys) \<longleftrightarrow> (if b then list_ex P xs else list_ex P ys)"
  "list_all P (if b then xs else ys) \<longleftrightarrow> (if b then list_all P xs else list_all P ys)"
  by (simp_all add: whenElems_def)

definition exposes :: "rabbitmqCluster \<Rightarrow> string \<Rightarrow> int \<Rightarrow> bool" where
  "exposes c name port = list_ex (\<lambda>p. p = cPort name port) (updateContainerPorts c)"

lemma no_mutual_TLS: "\<not> TLSEnabled c \<Longrightarrow> \<not> MutualTLSEnabled c"
  using MutualTLS_TLS by blast

lemmas container_ports = exposes_def updateContainerPorts_def updateContainerPortsOnlyTLSListeners_def cPort_def

lemma container_ports_distinct: "distinct (map cp_Name (updateContainerPorts c))"
proof -
  have tls_only: "subseq (map cp_Name (updateContainerPortsOnlyTLSListeners c))
     ([''epmd'', ''amqps'', ''management-tls'', ''prometheus-tls''] @ [''mqtts''] @ [''stomps'']
      @ [''streams''] @ ([''web-mqtt-tls''] @ [''web-stomp-tls'']))"
    unfolding updateContainerPortsOnlyTLSListeners_def map_append whenElems_simps(1) list.map cPort_simps
    by (intro list_emb_append_mono subseq_whenElems subseq_order.order_refl)
  have "subseq (map cp_Name (updateContainerPorts c))
     ([''epmd'', ''amqp'', ''management'', ''prometheus''] @ [''mqtt''] @ [''web-mqtt''] @ [''stomp'']
      @ [''web-stomp''] @ [''stream''] @ ([''amqps'', ''management-tls'', ''prometheus-tls''] @ [''mqtts'']
      @ [''stomps''] @ [''streams''] @ ([''web-mqtt-tls''] @ [''web-stomp-tls''])))"
    if "\<not> DisableNonTLSListeners c"
    unfolding updateContainerPorts_def if_not_P [OF that] map_append whenElems_simps(1) list.map cPort_simps
    by (intro list_emb_append_mono subseq_whenElems subseq_order.order_refl)
  from subseq_distinct [OF this] have "distinct (map cp_Name (updateContainerPorts c))"
    if "\<not> DisableNonTLSListeners c" using that by simp
  moreover have "distinct (map cp_Name (updateContainerPortsOnlyTLSListeners c))"
    by (rule subseq_distinct [OF tls_only]) simp
  ultimately show ?thesis
    by (cases "DisableNonTLSListeners c") (simp_all add: updateContainerPorts_def)
qed

text \<open>
  Every port of the client service reaches a port the RabbitMQ container declares, under
  the same name and number, and so does the port the readiness probe asks for. (The proviso is
  the configuration the TLS reconciler refuses: plain listeners disabled without TLS.)
\<close>

theorem service_ports_exposed:
  assumes "DisableNonTLSListeners c \<Longrightarrow> TLSEnabled c"
  shows "list_all (\<lambda>p. exposes c (sp_Name p) (sp_Port p)) (servicePortAssignments c)
    \<and> (\<exists>port. exposes c (if DisableNonTLSListeners c then ''amqps'' else ''amqp'') port)
    \<and> distinct (map cp_Name (updateContainerPorts c))"
proof (intro conjI)
  show "list_all (\<lambda>p. exposes c (sp_Name p) (sp_Port p)) (servicePortAssignments c)"
    using assms by (simp add: servicePortAssignments_def container_ports no_mutual_TLS)
  show "\<exists>port. exposes c (if DisableNonTLSListeners c then ''amqps'' else ''amqp'') port"
    by (auto simp: container_ports)
  show "distinct (map cp_Name (updateContainerPorts c))"
    by (rule container_ports_distinct)
qed

theorem service_ports_exposed_witness:
  "exposes sampleCluster ''web-mqtt'' 15675 \<and> (\<exists>port. exposes sampleCluster ''amqp'' port)"
proof -
  have "\<not> DisableNonTLSListeners sampleCluster" by simp
  with service_ports_exposed [of sampleCluster] show ?thesis
    by (simp add: servicePortAssignments_def)
qed

section \<open>Volumes and mounts\<close>

lemma projectDefaultUser_names:
  "mapOutcome (projectDefaultUser c) vs = Ok ws \<Longrightarrow> map vo_Name ws = map vo_Name vs"
proof (induction vs arbitrary: ws)
  case (Cons v vs)
  then obtain w ws' where "ws = w # ws'" "projectDefaultUser c v = Ok w"
      "mapOutcome (projectDefaultUser c) vs = Ok ws'" by auto
  moreover from this(2) have "vo_Name w = vo_Name v"
    by (auto simp: projectDefaultUser_def split: if_splits volumeSource.splits)
  ultimately show ?case using Cons.IH by simp
qed simp

definition volumeNames :: "rabbitmqCluster \<Rightarrow> quantity \<Rightarrow> string list" where
  "volumeNames c storage =
     [''plugins-conf'', ''rabbitmq-confd'', ''rabbitmq-erlang-cookie'', ''erlang-cookie-secret'',
      ''rabbitmq-plugins'', ''pod-info'']
     @ whenElems (cf_AdvancedConfig (spec_Rabbitmq (rc_Spec c)) \<noteq> []
                  \<or> cf_EnvConfig (spec_Rabbitmq (rc_Spec c)) \<noteq> []) [''server-conf'']
     @ whenElems (storage = 0) [''persistence'']
     @ whenElems (SecretTLSEnabled c) [''rabbitmq-tls'']"

lemma podVolumes_names:
  assumes "podVolumes c = Ok vs"
  obtains storage where "pe_Storage (spec_Persistence (rc_Spec c)) = Some storage"
    and "map vo_Name vs = volumeNames c storage"
proof -
  from assms obtain base storage where
      base: "(if VaultDefaultUserSecretEnabled c then Ok (baseVolumes c)
            else appendDefaultUserSecretVolumeProjection c (baseVolumes c)) = Ok base"
    and storage: "pe_Storage (spec_Persistence (rc_Spec c)) = Some storage"
    and vs: "vs = base @ whenElems (cf_AdvancedConfig (spec_Rabbitmq (rc_Spec c)) \<noteq> []
                      \<or> cf_EnvConfig (spec_Rabbitmq (rc_Spec c)) \<noteq> [])
             [\<lparr>vo_Name = ''server-conf'', vo_Source = ConfigMapVolume (ChildResourceName c ServerConfigMapName)\<rparr>]
         @ whenElems (qCmp storage 0 = 0) [\<lparr>vo_Name = ''persistence'', vo_Source = EmptyDirVolume\<rparr>]
         @ whenElems (SecretTLSEnabled c) [tlsVolume c]"
    by (auto simp: podVolumes_def)
  from base have "map vo_Name base = map vo_Name (baseVolumes c)"
    by (auto simp: appendDefaultUserSecretVolumeProjection_def dest: projectDefaultUser_names split: if_splits)
  then have "map vo_Name vs = volumeNames c storage"
    by (simp add: vs volumeNames_def baseVolumes_def tlsVolume_def Let_def)
  with storage show thesis by (rule that)
qed

lemma podTemplateSpec_Ok:
  assumes "podTemplateSpec c prev = Ok pt"
  obtains vs resources grace where "podVolumes c = Ok vs" and "ps_Volumes (pt_Spec pt) = vs"
    and "spec_Resources (rc_Spec c) = Some resources"
    and "spec_TerminationGracePeriodSeconds (rc_Spec c) = Some grace"
    and "ps_InitContainers (pt_Spec pt) = [setupContainer c]"
    and "ps_Containers (pt_Spec pt) = [rabbitmqContainer c resources grace] @ updaterContainers c"
    and "om_Labels (pt_Meta pt) = Label (rc_Name c)"
    and "ps_ServiceAccountName (pt_Spec pt) = ChildResourceName c serviceAccountName"
  using assms by (fastforce simp: podTemplateSpec_def Let_def)

definition mountNames :: "container \<Rightarrow> string list" where
  "mountNames co = map vm_Name (slice (co_VolumeMounts co))"

lemma mount_simps [simp]: "vm_Name (mount n p s) = n" "vm_Name tlsMount = ''rabbitmq-tls''"
  by (simp_all add: mount_def tlsMount_def)

lemma mountNames_setup:
  "mountNames (setupContainer c) =
     [''plugins-conf'', ''rabbitmq-erlang-cookie'', ''erlang-cookie-secret'', ''rabbitmq-plugins'', ''persistence'']
     @ whenElems (\<not> VaultDefaultUserSecretEnabled c) [''rabbitmq-confd'']"
  by (simp add: mountNames_def setupContainer_def Let_def whenElems_def)

lemma mountNames_rabbitmq:
  "mountNames (rabbitmqContainer c res grace) =
     [''rabbitmq-erlang-cookie'', ''persistence'', ''rabbitmq-plugins'', ''rabbitmq-confd'',
      ''rabbitmq-confd'', ''pod-info'']
     @ whenElems (\<not> VaultDefaultUserSecretEnabled c) [''rabbitmq-confd'']
     @ whenElems (cf_EnvConfig (spec_Rabbitmq (rc_Spec c)) \<noteq> []) [''server-conf'']
     @ whenElems (cf_AdvancedConfig (spec_Rabbitmq (rc_Spec c)) \<noteq> []) [''server-conf'']
     @ whenElems (SecretTLSEnabled c) [''rabbitmq-tls'']"
  by (simp add: mountNames_def rabbitmqContainer_def rabbitmqContainerVolumeMounts_def)

lemma updaterContainers_cases:
  "updaterContainers c = [] \<or> (\<exists>img. updaterContainers c = [defaultUserCredentialUpdater c img])"
  by (simp add: updaterContainers_def split: option.split) blast

lemma mountNames_updater:
  "co \<in> set (updaterContainers c) \<Longrightarrow>
     mountNames co = [''rabbitmq-erlang-cookie''] @ whenElems (SecretTLSEnabled c) [''rabbitmq-tls'']"
  using updaterContainers_cases [of c]
  by (auto simp: mountNames_def defaultUserCredentialUpdater_def Let_def simp del: whenElems_simps(3))

lemmas mountNames_simps = mountNames_setup mountNames_rabbitmq mountNames_updater

lemma mounts_known:
  assumes "podTemplateSpec c prev = Ok pt"
    and "co \<in> set (ps_InitContainers (pt_Spec pt) @ ps_Containers (pt_Spec pt))"
    and "n \<in> set (mountNames co)"
  shows "n \<in> vo_Name ` set (ps_Volumes (pt_Spec pt)) \<or> n = ''persistence''"
proof -
  obtain vs resources grace where parts: "podVolumes c = Ok vs" "ps_Volumes (pt_Spec pt) = vs"
      "ps_InitContainers (pt_Spec pt) = [setupContainer c]"
      "ps_Containers (pt_Spec pt) = [rabbitmqContainer c resources grace] @ updaterContainers c"
    by (rule podTemplateSpec_Ok [OF assms(1)])
  obtain storage where "map vo_Name vs = volumeNames c storage"
    by (rule podVolumes_names [OF parts(1)])
  then have vols: "vo_Name ` set vs = set (volumeNames c storage)" by (metis set_map)
  have sides: "co = setupContainer c \<or> co = rabbitmqContainer c resources grace
    \<or> co \<in> set (updaterContainers c)" using assms(2) parts(3,4) by auto
  show ?thesis
    unfolding parts(2) vols
    using sides assms(3) by (auto simp: mountNames_simps volumeNames_def split: if_splits)
qed

lemma persistence_volume:
  assumes "podTemplateSpec c prev = Ok pt"
  obtains storage where "pe_Storage (spec_Persistence (rc_Spec c)) = Some storage"
    and "''persistence'' \<in> vo_Name ` set (ps_Volumes (pt_Spec pt)) \<longleftrightarrow> storage = 0"
    and "distinct (map vo_Name (ps_Volumes (pt_Spec pt)))"
proof -
  obtain vs where vs: "podVolumes c = Ok vs" "ps_Volumes (pt_Spec pt) = vs"
    by (rule podTemplateSpec_Ok [OF assms])
  obtain storage where storage: "pe_Storage (spec_Persistence (rc_Spec c)) = Some storage"
    and names: "map vo_Name vs = volumeNames c storage"
    by (rule podVolumes_names [OF vs(1)])
  from names have "vo_Name ` set vs = set (volumeNames c storage)" by (metis set_map)
  then have "''persistence'' \<in> vo_Name ` set vs \<longleftrightarrow> storage = 0"
    by (simp add: volumeNames_def)
  moreover have "distinct (volumeNames c storage)"
    by (simp add: volumeNames_def)
  ultimately show thesis using storage names vs(2) by (intro that) auto
qed

end
