(* ===== verification/Stateful_Set.thy ===== *)
theory Stateful_Set
  imports Pod_Template
begin

text \<open>
  The StatefulSet builder of \<^verbatim>\<open>statefulset.go\<close> around the pod template: the claim template,
  the overrides, and the sorting of environment variables and mounts after a merged override.
\<close>

section \<open>Sorting in place\<close>

text \<open>\<^verbatim>\<open>xs[j], xs[i] = xs[i], xs[j]\<close> for a valid \<open>i\<close>; \<open>j\<close> may be out of range.\<close>

definition swapAt :: "nat \<Rightarrow> nat \<Rightarrow> 'a list \<Rightarrow> 'a list outcome" where
  "swapAt j i xs = (if j < length xs then Ok (xs[j := xs ! i, i := xs ! j])
                    else Panic ''index out of range'')"

text \<open>The loops over the indices \<open>i, i + 1, \<dots>\<close>, with the number of iterations left.\<close>

fun sortEnvLoop :: "nat \<Rightarrow> nat \<Rightarrow> envVar list \<Rightarrow> envVar list outcome" where
  "sortEnvLoop 0 i envVar = Ok envVar"
| "sortEnvLoop (Suc n) i envVar =
     (let e = envVar ! i in
      obind (if ev_Name e = ''MY_POD_NAME'' then swapAt 0 i envVar
             else if ev_Name e = ''MY_POD_NAMESPACE'' then swapAt 1 i envVar
             else if ev_Name e = ''K8S_SERVICE_NAME'' then swapAt 2 i envVar
             else Ok envVar)
        (sortEnvLoop n (Suc i)))"

definition sortEnvVar :: "envVar list \<Rightarrow> envVar list outcome" where
  "sortEnvVar envVar = sortEnvLoop (length envVar) 0 envVar"

fun sortMountsLoop :: "nat \<Rightarrow> nat \<Rightarrow> volumeMount list \<Rightarrow> volumeMount list outcome" where
  "sortMountsLoop 0 i mounts = Ok mounts"
| "sortMountsLoop (Suc n) i mounts =
     (let m = mounts ! i in
      obind (if vm_Name m = ''rabbitmq-erlang-cookie'' then swapAt 0 i mounts
             else if vm_Name m = defaultPVCName then swapAt 1 i mounts
             else Ok mounts)
        (sortMountsLoop n (Suc i)))"

definition sortVolumeMounts :: "volumeMount list \<Rightarrow> volumeMount list outcome" where
  "sortVolumeMounts mounts = sortMountsLoop (length mounts) 0 mounts"

section \<open>Overrides\<close>

definition copyObjectMeta :: "objectMeta \<Rightarrow> embeddedObjectMeta \<Rightarrow> objectMeta" where
  "copyObjectMeta base override =
     (let m = (if eo_Name override \<noteq> [] then base\<lparr>om_Name := eo_Name override\<rparr> else base);
          m = (if eo_Labels override \<noteq> None
               then m\<lparr>om_Labels := mergeMap (om_Labels m) (eo_Labels override)\<rparr> else m)
      in if eo_Annotations override \<noteq> None
         then m\<lparr>om_Annotations := mergeMap (om_Annotations m) (eo_Annotations override)\<rparr> else m)"

fun containerRabbitmq :: "container list \<Rightarrow> container" where
  "containerRabbitmq [] = emptyContainer"
| "containerRabbitmq (co # cos) = (if co_Name co = ''rabbitmq'' then co else containerRabbitmq cos)"

text \<open>Apply a partial function to \<^verbatim>\<open>Containers[0]\<close>, which must exist.\<close>

definition onFirst :: "(container \<Rightarrow> container outcome) \<Rightarrow> podSpec \<Rightarrow> podSpec outcome" where
  "onFirst f ps =
     (case ps_Containers ps of
        [] \<Rightarrow> Panic ''index out of range''
      | co # cos \<Rightarrow> obind (f co) (\<lambda>co. Ok (ps\<lparr>ps_Containers := co # cos\<rparr>)))"

definition sortEnvOf :: "container \<Rightarrow> container outcome" where
  "sortEnvOf co = obind (sortEnvVar (slice (co_Env co)))
     (\<lambda>env. Ok (co\<lparr>co_Env := map_option (\<lambda>_. env) (co_Env co)\<rparr>))"

definition sortMountsOf :: "container \<Rightarrow> container outcome" where
  "sortMountsOf co = obind (sortVolumeMounts (slice (co_VolumeMounts co)))
     (\<lambda>ms. Ok (co\<lparr>co_VolumeMounts := map_option (\<lambda>_. ms) (co_VolumeMounts co)\<rparr>))"

definition emptySecurityContext :: opaque where
  "emptySecurityContext = Opaque ''{}''"

fun clearContexts :: "nat \<Rightarrow> container list \<Rightarrow> container list \<Rightarrow> container list outcome" where
  "clearContexts i [] inits = Ok inits"
| "clearContexts i (ov # ovs) inits =
     (if co_SecurityContext ov = Some emptySecurityContext
      then (if i < length inits
            then clearContexts (Suc i) ovs (inits[i := (inits ! i)\<lparr>co_SecurityContext := None\<rparr>])
            else Panic ''index out of range'')
      else clearContexts (Suc i) ovs inits)"

definition patchPodSpec :: "env \<Rightarrow> podSpec \<Rightarrow> podSpec \<Rightarrow> podSpec outcome" where
  "patchPodSpec E podSpec podSpecOverride =
     obind (wrapErr ''error marshalling statefulSet podSpec'' (lift (env_marshalPodSpec E podSpec)))
       (\<lambda>originalPodSpec.
     obind (wrapErr ''error marshalling statefulSet podSpec override''
              (lift (env_marshalPodSpec E podSpecOverride))) (\<lambda>patch.
     obind (wrapErr ''error patching podSpec'' (lift (env_mergePodSpec E originalPodSpec patch)))
       (\<lambda>patchedJSON.
     obind (wrapErr ''error unmarshalling patched Stateful Set'' (lift (env_unmarshalPodSpec E patchedJSON)))
       (\<lambda>patched.
     let rmqContainer = containerRabbitmq (ps_Containers podSpecOverride) in
     obind (if co_Env rmqContainer \<noteq> None then onFirst sortEnvOf patched else Ok patched) (\<lambda>patched.
     obind (if co_VolumeMounts rmqContainer \<noteq> None then onFirst sortMountsOf patched else Ok patched)
       (\<lambda>patched.
     let patched = (if ps_SecurityContext podSpecOverride
                         = Some \<lparr>psc_FSGroup = None, psc_RunAsUser = None, psc_Others = None\<rparr>
                    then patched\<lparr>ps_SecurityContext := None\<rparr> else patched) in
     obind (clearContexts 0 (ps_InitContainers podSpecOverride) (ps_InitContainers patched)) (\<lambda>inits.
     Ok (patched\<lparr>ps_InitContainers := inits\<rparr>))))))))"

definition disableBlockOwnerDeletion :: "persistentVolumeClaim \<Rightarrow> persistentVolumeClaim" where
  "disableBlockOwnerDeletion pvc = pvc\<lparr>pvc_Meta := (pvc_Meta pvc)\<lparr>om_OwnerReferences :=
     map (\<lambda>r. r\<lparr>or_BlockOwnerDeletion := Some False\<rparr>) (om_OwnerReferences (pvc_Meta pvc))\<rparr>\<rparr>"

definition overrideClaim :: "env \<Rightarrow> rabbitmqCluster \<Rightarrow> string \<Rightarrow> pvcOverride \<Rightarrow> persistentVolumeClaim outcome" where
  "overrideClaim E c namespace ov =
     (let meta = (copyObjectMeta emptyMeta (po_pvcMeta ov))\<lparr>om_Namespace := namespace\<rparr> in
      obind (setOwner E c meta) (\<lambda>m.
      Ok (disableBlockOwnerDeletion \<lparr>pvc_Meta = m, pvc_Requests = po_pvcRequests ov,
        pvc_AccessModes = po_pvcAccessModes ov, pvc_StorageClassName = po_pvcStorageClassName ov\<rparr>)))"

definition overrideClaims :: "env \<Rightarrow> rabbitmqCluster \<Rightarrow> statefulSet \<Rightarrow> pvcOverride list
    \<Rightarrow> persistentVolumeClaim list outcome" where
  "overrideClaims E c sts claims =
     (if length claims \<noteq> 0
      then obind (deref (pe_Storage (spec_Persistence (rc_Spec c)))) (\<lambda>storage.
             if qCmp storage 0 = 0 then Ok (st_VolumeClaimTemplates sts)
             else mapOutcome (overrideClaim E c (om_Namespace (st_Meta sts))) claims)
      else Ok (st_VolumeClaimTemplates sts))"

definition overrideTemplate :: "env \<Rightarrow> podTemplateSpec \<Rightarrow> podTemplateOverride \<Rightarrow> podTemplateSpec outcome" where
  "overrideTemplate E pt ov =
     (let pt = (case pto_Meta ov of None \<Rightarrow> pt
                | Some em \<Rightarrow> pt\<lparr>pt_Meta := copyObjectMeta (pt_Meta pt) em\<rparr>) in
      case pto_Spec ov of
        None \<Rightarrow> Ok pt
      | Some ps \<Rightarrow> obind (patchPodSpec E (pt_Spec pt) ps) (\<lambda>patchedPodSpec.
                    Ok (pt\<lparr>pt_Spec := patchedPodSpec\<rparr>)))"

definition applyStsOverride :: "env \<Rightarrow> rabbitmqCluster \<Rightarrow> statefulSet \<Rightarrow> stsOverride \<Rightarrow> statefulSet outcome" where
  "applyStsOverride E c sts ov =
     (let sts = (case sto_Meta ov of None \<Rightarrow> sts
                 | Some el \<Rightarrow> sts\<lparr>st_Meta := copyLabelsAnnotations (st_Meta sts) el\<rparr>) in
      case sto_Spec ov of
        None \<Rightarrow> Ok sts
      | Some spec \<Rightarrow>
          let sts = (if sso_Replicas spec \<noteq> None then sts\<lparr>st_Replicas := sso_Replicas spec\<rparr> else sts);
              sts = (case sso_UpdateStrategy spec of None \<Rightarrow> sts
                     | Some us \<Rightarrow> sts\<lparr>st_UpdateStrategy := us\<rparr>);
              sts = (if sso_PodManagementPolicy spec \<noteq> []
                     then sts\<lparr>st_PodManagementPolicy := sso_PodManagementPolicy spec\<rparr> else sts) in
          obind (overrideClaims E c sts (sso_VolumeClaimTemplates spec)) (\<lambda>claims.
          let sts = sts\<lparr>st_VolumeClaimTemplates := claims\<rparr> in
          case sso_Template spec of
            None \<Rightarrow> Ok sts
          | Some t \<Rightarrow> obind (overrideTemplate E (st_Template sts) t) (\<lambda>pt. Ok (sts\<lparr>st_Template := pt\<rparr>))))"

section \<open>Build and update\<close>

definition claimTemplate :: "rabbitmqCluster \<Rightarrow> quantity \<Rightarrow> persistentVolumeClaim" where
  "claimTemplate c storage =
     \<lparr>pvc_Meta = emptyMeta\<lparr>om_Name := defaultPVCName, om_Namespace := rc_Namespace c,
        om_Labels := Label (rc_Name c),
        om_Annotations := ReconcileAndFilterAnnotations (Some Map.empty) [om_Annotations (rc_Meta c)]\<rparr>,
      pvc_Requests = mlit [(''storage'', storage)],
      pvc_AccessModes = [''ReadWriteOnce''],
      pvc_StorageClassName = pe_StorageClassName (spec_Persistence (rc_Spec c))\<rparr>"

definition persistentVolumeClaimTemplates :: "env \<Rightarrow> rabbitmqCluster \<Rightarrow> persistentVolumeClaim list outcome" where
  "persistentVolumeClaimTemplates E c =
     obind (deref (pe_Storage (spec_Persistence (rc_Spec c)))) (\<lambda>storage.
       if qCmp storage 0 = 0 then Ok []
       else let pvc = claimTemplate c storage in
            obind (setOwner E c (pvc_Meta pvc)) (\<lambda>m.
            Ok [disableBlockOwnerDeletion (pvc\<lparr>pvc_Meta := m\<rparr>)]))"

definition emptyTemplate :: podTemplateSpec where
  "emptyTemplate = \<lparr>pt_Meta = emptyMeta, pt_Spec = emptyPodSpec\<rparr>"

definition StatefulSet_Build :: "env \<Rightarrow> rabbitmqCluster \<Rightarrow> statefulSet outcome" where
  "StatefulSet_Build E c =
     obind (persistentVolumeClaimTemplates E c) (\<lambda>pvc.
     let sts = \<lparr>st_Meta = namedMeta c stsSuffix,
                st_Replicas = None,
                st_ServiceName = ChildResourceName c headlessServiceSuffix,
                st_Selector = Some (LabelSelector (rc_Name c)),
                st_VolumeClaimTemplates = pvc,
                st_PodManagementPolicy = ''Parallel'',
                st_UpdateStrategy = \<lparr>us_Type = [], us_Partition = None\<rparr>,
                st_Template = emptyTemplate,
                st_ReadyReplicas = 0, st_CurrentRevision = [], st_UpdateRevision = []\<rparr> in
     Ok (case ov_StatefulSet (spec_Override (rc_Spec c)) of
           None \<Rightarrow> sts
         | Some ov \<Rightarrow>
             (case sto_Spec ov of
                None \<Rightarrow> sts
              | Some spec \<Rightarrow>
                  let sts = (if sso_Selector spec \<noteq> None then sts\<lparr>st_Selector := sso_Selector spec\<rparr> else sts)
                  in if sso_ServiceName spec \<noteq> [] then sts\<lparr>st_ServiceName := sso_ServiceName spec\<rparr> else sts)))"

text \<open>The requests of a claim are a map: assigning to a nil one panics.\<close>

definition updatePersistenceStorageCapacity ::
    "persistentVolumeClaim list \<Rightarrow> quantity option \<Rightarrow> persistentVolumeClaim list outcome" where
  "updatePersistenceStorageCapacity templates capacity =
     mapOutcome (\<lambda>t.
       if om_Name (pvc_Meta t) = defaultPVCName
       then obind (deref capacity) (\<lambda>q.
              if pvc_Requests t = None then Panic ''assignment to entry in nil map''
              else Ok (t\<lparr>pvc_Requests := mput (pvc_Requests t) ''storage'' q\<rparr>))
       else Ok t) templates"

definition StatefulSet_Update :: "env \<Rightarrow> rabbitmqCluster \<Rightarrow> statefulSet \<Rightarrow> statefulSet outcome" where
  "StatefulSet_Update E c sts =
     (let sts = sts\<lparr>st_Replicas := spec_Replicas (rc_Spec c),
            st_UpdateStrategy := \<lparr>us_Type = ''RollingUpdate'', us_Partition = Some 0\<rparr>,
            st_Meta := inheritMeta c (st_Meta sts)\<rparr> in
      obind (updatePersistenceStorageCapacity (st_VolumeClaimTemplates sts)
               (pe_Storage (spec_Persistence (rc_Spec c)))) (\<lambda>claims.
      obind (podTemplateSpec c (om_Annotations (pt_Meta (st_Template sts)))) (\<lambda>template.
      let sts = sts\<lparr>st_VolumeClaimTemplates := claims, st_Template := template\<rparr> in
      obind (case ov_StatefulSet (spec_Override (rc_Spec c)) of
               None \<Rightarrow> Ok sts
             | Some ov \<Rightarrow> wrapErr ''failed applying StatefulSet override'' (applyStsOverride E c sts ov))
        (\<lambda>sts. obind (setOwner E c (st_Meta sts)) (\<lambda>m. Ok (sts\<lparr>st_Meta := m\<rparr>))))))"

section \<open>The mounts after sorting\<close>

lemma swapAt_props:
  assumes "i < length xs" and "swapAt j i xs = Ok ys"
  shows "mset ys = mset xs" and "length ys = length xs"
    and "k < length xs \<Longrightarrow> ys ! k = (if k = i then xs ! j else if k = j then xs ! i else xs ! k)"
proof -
  have j: "j < length xs" and ys: "ys = xs[j := xs ! i, i := xs ! j]"
    using assms(2) by (auto simp: swapAt_def split: if_splits)
  show "mset ys = mset xs" unfolding ys using assms(1) j by (rule mset_swap)
  show "length ys = length xs" by (simp add: ys)
  show "k < length xs \<Longrightarrow> ys ! k = (if k = i then xs ! j else if k = j then xs ! i else xs ! k)"
    using assms(1) j by (auto simp: ys nth_list_update)
qed

text \<open>
  Both loops put certain elements into fixed slots. The loop they share, and when it works: every
  slot is claimed once, what was visited is in place, and no element still to be visited has a
  slot beyond its own position.
\<close>

fun placeLoop :: "('a \<Rightarrow> nat option) \<Rightarrow> nat \<Rightarrow> nat \<Rightarrow> 'a list \<Rightarrow> 'a list outcome" where
  "placeLoop slot 0 i xs = Ok xs"
| "placeLoop slot (Suc n) i xs =
     obind (case slot (xs ! i) of None \<Rightarrow> Ok xs | Some j \<Rightarrow> swapAt j i xs) (placeLoop slot n (Suc i))"

definition claimedOnce :: "('a \<Rightarrow> nat option) \<Rightarrow> 'a list \<Rightarrow> bool" where
  "claimedOnce slot xs \<longleftrightarrow> (\<forall>j. length (filter (\<lambda>e. slot e = Some j) xs) \<le> 1)"

definition inPlace :: "('a \<Rightarrow> nat option) \<Rightarrow> nat \<Rightarrow> 'a list \<Rightarrow> bool" where
  "inPlace slot i xs \<longleftrightarrow> (\<forall>k < i. \<forall>j. slot (xs ! k) = Some j \<longrightarrow> j = k)"

lemma claimedOnce_mset: "mset ys = mset xs \<Longrightarrow> claimedOnce slot xs \<Longrightarrow> claimedOnce slot ys"
  unfolding claimedOnce_def by (metis mset_filter size_mset)

lemma claimedOnceD:
  assumes "claimedOnce slot xs" and "k < length xs" and "k' < length xs"
    and "slot (xs ! k) = Some j" and "slot (xs ! k') = Some j"
  shows "k = k'"
proof -
  let ?K = "{i. i < length xs \<and> slot (xs ! i) = Some j}"
  have "card ?K \<le> Suc 0"
    using assms(1) unfolding claimedOnce_def length_filter_conv_card One_nat_def by blast
  moreover have "finite ?K" by simp
  ultimately have "\<forall>a \<in> ?K. \<forall>b \<in> ?K. a = b" by (simp only: card_le_Suc0_iff_eq)
  moreover have "k \<in> ?K" "k' \<in> ?K" using assms by simp_all
  ultimately show ?thesis by blast
qed

lemma place_step:
  assumes "i < length xs" and "slot (xs ! i) = Some j" and "j \<le> i"
    and "claimedOnce slot xs" and "inPlace slot i xs" and "swapAt j i xs = Ok ys"
  shows "inPlace slot (Suc i) ys" and "k < length xs \<Longrightarrow> i < k \<Longrightarrow> ys ! k = xs ! k"
proof -
  note at = swapAt_props(3) [OF assms(1) assms(6)]
  show "k < length xs \<Longrightarrow> i < k \<Longrightarrow> ys ! k = xs ! k" using at [of k] assms(3) by simp
  show "inPlace slot (Suc i) ys"
    unfolding inPlace_def
  proof (intro allI impI)
    fix k s assume k: "k < Suc i" and s: "slot (ys ! k) = Some s"
    from k assms(1) have len: "k < length xs" by simp
    consider (j) "k = j" | (i) "k = i" "k \<noteq> j" | (other) "k \<noteq> i" "k \<noteq> j" by blast
    then show "s = k"
    proof cases
      case j
      then have "ys ! k = xs ! i" using at [OF len] by auto
      with s assms(2) j show ?thesis by simp
    next
      case i
      then have "slot (xs ! j) = Some s" using at [OF len] s by simp
      moreover have "j < i" using i assms(3) by simp
      ultimately have "s = j" using assms(5) by (simp add: inPlace_def)
      with \<open>slot (xs ! j) = Some s\<close> assms(1,2) \<open>j < i\<close> claimedOnceD [OF assms(4), of i j j]
      show ?thesis by simp
    next
      case other
      then have "slot (xs ! k) = Some s" using at [OF len] s by simp
      moreover have "k < i" using k other by simp
      ultimately show ?thesis using assms(5) by (simp add: inPlace_def)
    qed
  qed
qed

lemma placeLoop_sorts:
  assumes "i + n = length xs" and "claimedOnce slot xs" and "inPlace slot i xs"
    and "\<forall>k j. i \<le> k \<and> k < length xs \<and> slot (xs ! k) = Some j \<longrightarrow> j \<le> k"
  shows "\<exists>ys. placeLoop slot n i xs = Ok ys \<and> mset ys = mset xs \<and> inPlace slot (length xs) ys"
  using assms
proof (induction n arbitrary: i xs)
  case 0
  then show ?case by simp
next
  case (Suc n)
  have i: "i < length xs" using Suc.prems(1) by simp
  show ?case
  proof (cases "slot (xs ! i)")
    case None
    then have "inPlace slot (Suc i) xs" using Suc.prems(3) by (auto simp: inPlace_def less_Suc_eq)
    with Suc.IH [of "Suc i" xs] Suc.prems None show ?thesis by simp
  next
    case (Some j)
    then have j: "j \<le> i" using Suc.prems(4) i by blast
    then obtain ys where ys: "swapAt j i xs = Ok ys" using i by (simp add: swapAt_def)
    note props = swapAt_props [OF i ys] and step = place_step [OF i Some j Suc.prems(2,3) ys]
    have "\<exists>zs. placeLoop slot n (Suc i) ys = Ok zs \<and> mset zs = mset ys \<and> inPlace slot (length ys) zs"
    proof (rule Suc.IH)
      show "Suc i + n = length ys" using Suc.prems(1) props(2) by simp
      show "claimedOnce slot ys" using claimedOnce_mset [OF props(1) Suc.prems(2)] .
      show "inPlace slot (Suc i) ys" by (rule step(1))
      show "\<forall>k j. Suc i \<le> k \<and> k < length ys \<and> slot (ys ! k) = Some j \<longrightarrow> j \<le> k"
        using Suc.prems(4) step(2) props(2) by (metis Suc_le_eq less_imp_le)
    qed
    with props show ?thesis by (simp add: Some ys)
  qed
qed

definition mountSlot :: "volumeMount \<Rightarrow> nat option" where
  "mountSlot m = (if vm_Name m = ''rabbitmq-erlang-cookie'' then Some 0
     else if vm_Name m = ''persistence'' then Some 1 else None)"

definition envSlot :: "envVar \<Rightarrow> nat option" where
  "envSlot e = (if ev_Name e = ''MY_POD_NAME'' then Some 0
     else if ev_Name e = ''MY_POD_NAMESPACE'' then Some 1
     else if ev_Name e = ''K8S_SERVICE_NAME'' then Some 2 else None)"

lemma sortMountsLoop_place: "sortMountsLoop n = placeLoop mountSlot n"
  by (induction n) (auto intro!: ext simp: mountSlot_def defaultPVCName_def Let_def)

lemma sortEnvLoop_place: "sortEnvLoop n = placeLoop envSlot n"
  by (induction n) (auto intro!: ext simp: envSlot_def Let_def)

lemma inPlace_find:
  assumes "inPlace slot (length ys) ys" and "mset ys = mset xs" and "e \<in> set xs" and "slot e = Some j"
  shows "j < length xs" and "slot (ys ! j) = Some j"
proof -
  from assms(2,3) have "e \<in> set ys" by (metis mset_eq_setD)
  then obtain k where "k < length ys" "ys ! k = e" by (auto simp: in_set_conv_nth)
  with assms(1,4) have "j = k" by (auto simp: inPlace_def)
  with \<open>k < length ys\<close> \<open>ys ! k = e\<close> assms(2,4) show "j < length xs" "slot (ys ! j) = Some j"
    by (auto dest: mset_eq_length)
qed

lemma filter_one: "length (filter P xs) = 1 \<Longrightarrow> \<exists>x \<in> set xs. P x"
  by (induction xs) (auto split: if_splits)

lemma sortMounts_first:
  assumes "2 \<le> length xs" and "mountSlot (xs ! 0) = Some 1"
  shows "sortVolumeMounts xs = sortMountsLoop (length xs - 1) 1 (xs[1 := xs ! 0, 0 := xs ! 1])"
proof -
  obtain n where n: "length xs = Suc n" using assms(1) by (cases xs) auto
  have "swapAt 1 0 xs = Ok (xs[1 := xs ! 0, 0 := xs ! 1])"
    using assms(1) by (simp add: swapAt_def)
  with assms(2) show ?thesis by (simp add: sortVolumeMounts_def n sortMountsLoop_place)
qed

text \<open>
  Sorting the mounts of an overridden container always works: when the Erlang cookie and
  the persistence volume are mounted once each, in whatever positions, the loop does not fail,
  keeps every mount, and puts the cookie's directory first and the nested data directory
  second, so that the second is not shadowed by the first.
\<close>

theorem sortVolumeMounts_correct:
  assumes "length (filter (\<lambda>m. vm_Name m = ''rabbitmq-erlang-cookie'') xs) = 1"
    and "length (filter (\<lambda>m. vm_Name m = ''persistence'') xs) = 1"
  shows "\<exists>ys. sortVolumeMounts xs = Ok ys \<and> mset ys = mset xs \<and> 2 \<le> length ys
    \<and> vm_Name (ys ! 0) = ''rabbitmq-erlang-cookie'' \<and> vm_Name (ys ! 1) = ''persistence''"
proof -
  have slots: "mountSlot m = Some j \<longleftrightarrow> vm_Name m = ''rabbitmq-erlang-cookie'' \<and> j = 0
      \<or> vm_Name m = ''persistence'' \<and> j = 1" for m j
    by (auto simp: mountSlot_def)
  have once: "claimedOnce mountSlot xs"
    unfolding claimedOnce_def
  proof
    fix j
    show "length (filter (\<lambda>e. mountSlot e = Some j) xs) \<le> 1"
      by (cases "j = 0"; cases "j = 1") (simp_all add: slots assms del: One_nat_def)
  qed
  obtain a b where a: "a \<in> set xs" "vm_Name a = ''rabbitmq-erlang-cookie''"
    and b: "b \<in> set xs" "vm_Name b = ''persistence''"
    using filter_one [OF assms(1)] filter_one [OF assms(2)] by blast
  then have ab: "a \<noteq> b" by auto
  with a(1) b(1) have "2 \<le> card (set xs)"
    by (metis List.finite_set card_2_iff card_mono empty_subsetI insert_subset)
  then have len: "2 \<le> length xs" using card_length [of xs] by simp
  have "\<exists>ys. sortVolumeMounts xs = Ok ys \<and> mset ys = mset xs \<and> inPlace mountSlot (length xs) ys"
  proof (cases "mountSlot (xs ! 0) = Some 1")
    case False
    have "j \<le> k" if "k < length xs" "mountSlot (xs ! k) = Some j" for k j
      using that False by (cases k) (auto simp: slots)
    then show ?thesis
      unfolding sortVolumeMounts_def sortMountsLoop_place
      by (intro placeLoop_sorts once) (auto simp: inPlace_def)
  next
    case True
    define zs where "zs = xs[1 := xs ! 0, 0 := xs ! 1]"
    have "xs \<noteq> []" using len by auto
    then have z: "mset zs = mset xs" "length zs = length xs" "zs ! 0 = xs ! 1"
      using len mset_swap [of 0 xs 1] by (simp_all add: zs_def)
    have "mountSlot (zs ! 0) \<noteq> Some 1"
      using claimedOnceD [OF once, of 0 1 1] True len z(3) \<open>xs \<noteq> []\<close> by auto
    then have "inPlace mountSlot 1 zs" by (auto simp: inPlace_def slots)
    moreover have "j \<le> k" if "1 \<le> k" "mountSlot (zs ! k) = Some j" for k j
      using that by (auto simp: slots)
    ultimately show ?thesis
      unfolding sortMounts_first [OF len True] sortMountsLoop_place zs_def [symmetric] z(1,2) [symmetric]
      using claimedOnce_mset [OF z(1) once] len z(2) by (intro placeLoop_sorts) auto
  qed
  then obtain ys where ys: "sortVolumeMounts xs = Ok ys" "mset ys = mset xs" "inPlace mountSlot (length xs) ys"
    by blast
  then have place: "inPlace mountSlot (length ys) ys" by (metis size_mset)
  note first = inPlace_find [OF place ys(2) a(1), of 0] and second = inPlace_find [OF place ys(2) b(1), of 1]
  have "2 \<le> length ys" using len ys(2) by (metis size_mset)
  with ys first second a(2) b(2) show ?thesis by (auto simp: slots)
qed

theorem sortVolumeMounts_correct_witness:
  "\<exists>ys. sortVolumeMounts [mount ''persistence'' ''/var/lib/rabbitmq/mnesia/'' [], mount ''x'' ''/x'' [],
        mount ''rabbitmq-erlang-cookie'' ''/var/lib/rabbitmq/'' []] = Ok ys
     \<and> vm_Name (ys ! 0) = ''rabbitmq-erlang-cookie'' \<and> vm_Name (ys ! 1) = ''persistence''"
proof -
  let ?xs = "[mount ''persistence'' ''/var/lib/rabbitmq/mnesia/'' [], mount ''x'' ''/x'' [],
        mount ''rabbitmq-erlang-cookie'' ''/var/lib/rabbitmq/'' []]"
  have "length (filter (\<lambda>m. vm_Name m = ''rabbitmq-erlang-cookie'') ?xs) = 1"
    and "length (filter (\<lambda>m. vm_Name m = ''persistence'') ?xs) = 1" by simp_all
  from sortVolumeMounts_correct [OF this] show ?thesis by blast
qed

text \<open>
  Sorting the environment variables puts \<^verbatim>\<open>MY_POD_NAME\<close>, \<^verbatim>\<open>MY_POD_NAMESPACE\<close> and
  \<^verbatim>\<open>K8S_SERVICE_NAME\<close> first, in this order, and keeps every variable, whenever each occurs
  once and in this relative order.
\<close>

theorem sortEnvVar_ordered:
  assumes "xs = as @ [a] @ bs @ [b] @ cs @ [c] @ ds"
    and "ev_Name a = ''MY_POD_NAME''" and "ev_Name b = ''MY_POD_NAMESPACE''"
    and "ev_Name c = ''K8S_SERVICE_NAME''"
    and "list_all (\<lambda>e. envSlot e = None) (as @ bs @ cs @ ds)"
  shows "\<exists>ys. sortEnvVar xs = Ok ys \<and> mset ys = mset xs
    \<and> map ev_Name (take 3 ys) = [''MY_POD_NAME'', ''MY_POD_NAMESPACE'', ''K8S_SERVICE_NAME'']"
proof -
  have slots: "envSlot a = Some 0" "envSlot b = Some 1" "envSlot c = Some 2"
    using assms(2-4) by (simp_all add: envSlot_def)
  have names: "envSlot e = Some j \<Longrightarrow> ev_Name e =
      [''MY_POD_NAME'', ''MY_POD_NAMESPACE'', ''K8S_SERVICE_NAME''] ! j" for e j
    by (auto simp: envSlot_def split: if_splits)
  have none: "filter (\<lambda>e. envSlot e = Some j) as = []" "filter (\<lambda>e. envSlot e = Some j) bs = []"
    "filter (\<lambda>e. envSlot e = Some j) cs = []" "filter (\<lambda>e. envSlot e = Some j) ds = []" for j
    using assms(5) by (auto simp: list_all_iff filter_empty_conv)
  have once: "claimedOnce envSlot xs"
    unfolding claimedOnce_def assms(1) filter_append
    using slots by (simp add: none)
  define pb pc where "pb = length as + 1 + length bs" and "pc = pb + 1 + length cs"
  have at_pb: "pb < length xs" "envSlot (xs ! pb) = Some 1"
    and at_pc: "pc < length xs" "envSlot (xs ! pc) = Some 2"
    using slots by (simp_all add: assms(1) pb_def pc_def nth_append)
  have beyond: "j \<le> k" if k: "k < length xs" and j: "envSlot (xs ! k) = Some j" for k j
  proof -
    from j consider "j = 0" | "j = 1" | "j = 2" by (auto simp: envSlot_def split: if_splits)
    then show ?thesis
    proof cases
      case 2
      with claimedOnceD [OF once k at_pb(1) _ at_pb(2)] j show ?thesis by (simp add: pb_def)
    next
      case 3
      with claimedOnceD [OF once k at_pc(1) _ at_pc(2)] j show ?thesis by (simp add: pb_def pc_def)
    qed simp
  qed
  have "\<exists>ys. sortEnvVar xs = Ok ys \<and> mset ys = mset xs \<and> inPlace envSlot (length xs) ys"
    unfolding sortEnvVar_def sortEnvLoop_place
    using beyond by (intro placeLoop_sorts once) (auto simp: inPlace_def)
  then obtain ys where ys: "sortEnvVar xs = Ok ys" "mset ys = mset xs" "inPlace envSlot (length xs) ys"
    by blast
  then have place: "inPlace envSlot (length ys) ys" by (metis size_mset)
  have at: "envSlot (ys ! j) = Some j" "j < length ys" if "envSlot e = Some j" "e \<in> set xs" for e j
    using inPlace_find [OF place ys(2) that(2,1)] mset_eq_length [OF ys(2)] by simp_all
  have members: "a \<in> set xs" "b \<in> set xs" "c \<in> set xs" by (simp_all add: assms(1))
  have "ev_Name (ys ! 0) = ''MY_POD_NAME''" "ev_Name (ys ! 1) = ''MY_POD_NAMESPACE''"
    "ev_Name (ys ! 2) = ''K8S_SERVICE_NAME''" "2 < length ys"
    using names [OF at(1) [OF slots(1) members(1)]] names [OF at(1) [OF slots(2) members(2)]]
      names [OF at(1) [OF slots(3) members(3)]] at(2) [OF slots(3) members(3)] by simp_all
  moreover from this(4) have "take 3 ys = [ys ! 0, ys ! 1, ys ! 2]"
    by (intro nth_equalityI) (auto simp: less_Suc_eq numeral_eq_Suc)
  ultimately show ?thesis using ys(1,2) by simp
qed

definition sampleVars :: "string list \<Rightarrow> envVar list" where
  "sampleVars names = map (\<lambda>n. plainVar n []) names"

theorem sortEnvVar_ordered_witness:
  "\<exists>ys. sortEnvVar (sampleVars [''X'', ''MY_POD_NAME'', ''MY_POD_NAMESPACE'', ''Y'', ''K8S_SERVICE_NAME'']) = Ok ys
     \<and> map ev_Name (take 3 ys) = [''MY_POD_NAME'', ''MY_POD_NAMESPACE'', ''K8S_SERVICE_NAME'']"
proof -
  let ?v = "\<lambda>n. plainVar n []"
  have split: "sampleVars [''X'', ''MY_POD_NAME'', ''MY_POD_NAMESPACE'', ''Y'', ''K8S_SERVICE_NAME'']
      = [?v ''X''] @ [?v ''MY_POD_NAME''] @ [] @ [?v ''MY_POD_NAMESPACE''] @ [?v ''Y'']
        @ [?v ''K8S_SERVICE_NAME''] @ []"
    by (simp add: sampleVars_def)
  have none: "list_all (\<lambda>e. envSlot e = None) ([?v ''X''] @ [] @ [?v ''Y''] @ [])"
    by (simp add: envSlot_def plainVar_def)
  have name: "ev_Name (?v n) = n" for n by (simp add: plainVar_def)
  from sortEnvVar_ordered [OF split name name name none] show ?thesis
    by (elim exE conjE) (rule exI, rule conjI)
qed

text \<open>
  In another order the loop does not do what its comment says: here \<^verbatim>\<open>MY_POD_NAME\<close> ends last.
\<close>

lemma sortEnvVar_unordered:
  "sortEnvVar (sampleVars [''X'', ''K8S_SERVICE_NAME'', ''MY_POD_NAME'', ''MY_POD_NAMESPACE''])
     = Ok (sampleVars [''X'', ''MY_POD_NAMESPACE'', ''K8S_SERVICE_NAME'', ''MY_POD_NAME''])"
  by (simp add: sortEnvVar_def sampleVars_def plainVar_def swapAt_def numeral_eq_Suc)

section \<open>Storage of the claim templates\<close>

definition storageOf :: "quantity option \<Rightarrow> persistentVolumeClaim \<Rightarrow> persistentVolumeClaim" where
  "storageOf capacity t =
     (if om_Name (pvc_Meta t) = ''persistence''
      then (case capacity of None \<Rightarrow> t
            | Some q \<Rightarrow> t\<lparr>pvc_Requests := mput (pvc_Requests t) ''storage'' q\<rparr>)
      else t)"

lemma capacity_Ok:
  "updatePersistenceStorageCapacity ts capacity = Ok ts' \<Longrightarrow>
     ts' = map (storageOf capacity) ts
     \<and> list_all (\<lambda>t. om_Name (pvc_Meta t) = ''persistence'' \<longrightarrow> capacity \<noteq> None \<and> pvc_Requests t \<noteq> None) ts"
  unfolding updatePersistenceStorageCapacity_def
  by (induction ts arbitrary: ts') (auto simp: storageOf_def defaultPVCName_def split: if_splits)

lemma capacity_OkI:
  "list_all (\<lambda>t. om_Name (pvc_Meta t) = ''persistence'' \<longrightarrow> capacity \<noteq> None \<and> pvc_Requests t \<noteq> None) ts \<Longrightarrow>
   updatePersistenceStorageCapacity ts capacity = Ok (map (storageOf capacity) ts)"
  unfolding updatePersistenceStorageCapacity_def
  by (induction ts) (auto simp: storageOf_def defaultPVCName_def)

lemma storageOf_simps [simp]:
  "pvc_Meta (storageOf q t) = pvc_Meta t" "storageOf q (storageOf q t) = storageOf q t"
  "pvc_Requests t \<noteq> None \<Longrightarrow> pvc_Requests (storageOf q t) \<noteq> None"
  by (cases "pvc_Requests t"; auto simp: storageOf_def mput_def split: option.split)+

lemma capacity_again:
  assumes "updatePersistenceStorageCapacity ts capacity = Ok ts'"
  shows "updatePersistenceStorageCapacity ts' capacity = Ok ts'"
proof -
  note ok = capacity_Ok [OF assms]
  have "updatePersistenceStorageCapacity (map (storageOf capacity) ts) capacity
      = Ok (map (storageOf capacity) (map (storageOf capacity) ts))"
    using ok by (intro capacity_OkI) (simp add: list_all_iff)
  then show ?thesis using ok by (simp add: comp_def)
qed

text \<open>
  An update sets the storage request of the claim template \<^verbatim>\<open>persistence\<close>, and of no
  other, to the storage of the specification, and changes nothing else of any template.
\<close>

theorem capacity_spec:
  assumes "updatePersistenceStorageCapacity ts (Some q) = Ok ts'"
  shows "length ts' = length ts \<and> (\<forall>i < length ts.
     (om_Name (pvc_Meta (ts ! i)) = ''persistence'' \<longrightarrow> mget (pvc_Requests (ts' ! i)) ''storage'' = Some q)
     \<and> (om_Name (pvc_Meta (ts ! i)) \<noteq> ''persistence'' \<longrightarrow> ts' ! i = ts ! i)
     \<and> (\<forall>r. r \<noteq> ''storage'' \<longrightarrow> mget (pvc_Requests (ts' ! i)) r = mget (pvc_Requests (ts ! i)) r)
     \<and> (ts' ! i)\<lparr>pvc_Requests := pvc_Requests (ts ! i)\<rparr> = ts ! i)"
proof -
  note ok = capacity_Ok [OF assms]
  show ?thesis
  proof (intro conjI allI impI)
    show "length ts' = length ts" using ok by simp
    fix i assume i: "i < length ts"
    with ok have ts': "ts' ! i = storageOf (Some q) (ts ! i)" by simp
    from ok i have nonnil: "om_Name (pvc_Meta (ts ! i)) = ''persistence'' \<longrightarrow> pvc_Requests (ts ! i) \<noteq> None"
      by (simp add: list_all_length)
    then show "om_Name (pvc_Meta (ts ! i)) = ''persistence'' \<Longrightarrow> mget (pvc_Requests (ts' ! i)) ''storage'' = Some q"
      by (simp add: ts' storageOf_def mget_mput)
    show "om_Name (pvc_Meta (ts ! i)) \<noteq> ''persistence'' \<Longrightarrow> ts' ! i = ts ! i"
      by (simp add: ts' storageOf_def)
    show "mget (pvc_Requests (ts' ! i)) r = mget (pvc_Requests (ts ! i)) r" if "r \<noteq> ''storage''" for r
      using nonnil that by (auto simp: ts' storageOf_def mget_mput)
    show "(ts' ! i)\<lparr>pvc_Requests := pvc_Requests (ts ! i)\<rparr> = ts ! i"
      by (simp add: ts' storageOf_def)
  qed
qed

theorem capacity_spec_witness:
  "\<exists>ts'. updatePersistenceStorageCapacity [claimTemplate sampleCluster (units 10)] (Some (units 20)) = Ok ts'
     \<and> mget (pvc_Requests (ts' ! 0)) ''storage'' = Some (units 20)"
proof -
  let ?t = "claimTemplate sampleCluster (units 10)"
  have upd: "updatePersistenceStorageCapacity [?t] (Some (units 20)) = Ok (map (storageOf (Some (units 20))) [?t])"
    by (rule capacity_OkI) (simp add: claimTemplate_def)
  have "om_Name (pvc_Meta ?t) = ''persistence''" by (simp add: claimTemplate_def defaultPVCName_def)
  with capacity_spec [OF upd] upd show ?thesis by simp
qed

section \<open>Updating again\<close>

lemma podTemplateSpec_again:
  assumes "podTemplateSpec c prev = Ok pt"
  shows "podTemplateSpec c (om_Annotations (pt_Meta pt)) = Ok pt"
  using assms by (auto simp: podTemplateSpec_def Let_def reconcile.merge_idem)

lemma inherit_override_again:
  assumes "om_Labels m' = om_Labels (overrideMeta el (inheritMeta c m))"
    and "om_Annotations m' = om_Annotations (overrideMeta el (inheritMeta c m))"
  shows "overrideMeta el (inheritMeta c m') = m'"
proof -
  have ann: "mergeMap (ReconcileAndFilterAnnotations (mergeMap (ReconcileAndFilterAnnotations a [k]) b) [k]) b
      = mergeMap (ReconcileAndFilterAnnotations a [k]) b" for a b k
    by (rule gomap_eqI; auto simp: filtered.merge_one)
  show ?thesis
    using assms
    by (cases el)
       (auto simp: overrideMeta_def inheritMeta_def copyLabelsAnnotations_def Let_def ann filtered.merge_idem
         intro!: objectMeta.equality split: if_splits)
qed

abbreviation stsMetaOverride :: "rabbitmqCluster \<Rightarrow> embeddedLabelsAnnotations option" where
  "stsMetaOverride c \<equiv>
     (case ov_StatefulSet (spec_Override (rc_Spec c)) of None \<Rightarrow> None | Some ov \<Rightarrow> sto_Meta ov)"

lemma applyStsOverride_meta:
  "applyStsOverride E c sts ov = Ok sts' \<Longrightarrow> st_Meta sts' = overrideMeta (sto_Meta ov) (st_Meta sts)"
  by (auto simp: applyStsOverride_def overrideMeta_def Let_def split: option.splits if_splits)

lemma StatefulSet_Update_meta:
  assumes "StatefulSet_Update E c sts = Ok sts'"
  shows "setOwner E c (overrideMeta (stsMetaOverride c) (inheritMeta c (st_Meta sts))) = Ok (st_Meta sts')"
proof (cases "ov_StatefulSet (spec_Override (rc_Spec c))")
  case None
  with assms show ?thesis by (auto simp: StatefulSet_Update_def overrideMeta_def Let_def)
next
  case (Some ov)
  with assms show ?thesis by (auto simp: StatefulSet_Update_def Let_def dest!: applyStsOverride_meta)
qed

text \<open>No override of the specification of the StatefulSet; labels and annotations may be overridden.\<close>

definition plainSts :: "env \<Rightarrow> rabbitmqCluster \<Rightarrow> bool" where
  "plainSts E c \<longleftrightarrow> (case ov_StatefulSet (spec_Override (rc_Spec c)) of None \<Rightarrow> True | Some ov \<Rightarrow> sto_Spec ov = None)"

lemma StatefulSet_Update_plain:
  assumes "plainSts E c"
  shows "StatefulSet_Update E c sts = Ok sts' \<longleftrightarrow>
    (\<exists>claims pt m.
       updatePersistenceStorageCapacity (st_VolumeClaimTemplates sts) (pe_Storage (spec_Persistence (rc_Spec c)))
         = Ok claims
     \<and> podTemplateSpec c (om_Annotations (pt_Meta (st_Template sts))) = Ok pt
     \<and> setOwner E c (overrideMeta (stsMetaOverride c) (inheritMeta c (st_Meta sts))) = Ok m
     \<and> sts' = sts\<lparr>st_Meta := m, st_Replicas := spec_Replicas (rc_Spec c),
            st_VolumeClaimTemplates := claims,
            st_UpdateStrategy := \<lparr>us_Type = ''RollingUpdate'', us_Partition = Some 0\<rparr>,
            st_Template := pt\<rparr>)"
proof (cases "ov_StatefulSet (spec_Override (rc_Spec c))")
  case None
  then show ?thesis by (cases sts) (auto simp: StatefulSet_Update_def overrideMeta_def Let_def)
next
  case (Some ov)
  with assms have "sto_Spec ov = None" by (simp add: plainSts_def)
  with Some show ?thesis
    by (cases sts; cases "sto_Meta ov")
       (auto simp: StatefulSet_Update_def applyStsOverride_def overrideMeta_def Let_def)
qed

interpretation statefulSet: resource_update StatefulSet_Update st_Meta plainSts
proof
  fix E c sts sts'
  assume E: "setsOwnerOnly E" and upd: "StatefulSet_Update E c sts = Ok sts'"
  note fields = setOwner_fields [OF E StatefulSet_Update_meta [OF upd]]
  show "metaKey (st_Meta sts') = metaKey (st_Meta sts)" by (simp add: fields)
  assume plain: "plainSts E c"
  from upd obtain claims pt m where
      claims: "updatePersistenceStorageCapacity (st_VolumeClaimTemplates sts)
         (pe_Storage (spec_Persistence (rc_Spec c))) = Ok claims"
    and pt: "podTemplateSpec c (om_Annotations (pt_Meta (st_Template sts))) = Ok pt"
    and sts': "sts' = sts\<lparr>st_Meta := m, st_Replicas := spec_Replicas (rc_Spec c),
            st_VolumeClaimTemplates := claims,
            st_UpdateStrategy := \<lparr>us_Type = ''RollingUpdate'', us_Partition = Some 0\<rparr>,
            st_Template := pt\<rparr>"
    unfolding StatefulSet_Update_plain [OF plain] by blast
  have meta: "overrideMeta (stsMetaOverride c) (inheritMeta c (st_Meta sts')) = st_Meta sts'"
    by (rule inherit_override_again) (rule fields)+
  show "StatefulSet_Update E c sts' = Ok sts'"
    unfolding StatefulSet_Update_plain [OF plain] meta
    using capacity_again [OF claims] podTemplateSpec_again [OF pt] fields(7)
    by (intro exI conjI) (simp_all add: sts')
qed


section \<open>A StatefulSet that can run\<close>

definition claimNames :: "statefulSet \<Rightarrow> string list" where
  "claimNames sts = map (\<lambda>t. om_Name (pvc_Meta t)) (st_VolumeClaimTemplates sts)"

definition volumeNamesOf :: "statefulSet \<Rightarrow> string list" where
  "volumeNamesOf sts = map vo_Name (ps_Volumes (pt_Spec (st_Template sts)))"

definition allContainers :: "statefulSet \<Rightarrow> container list" where
  "allContainers sts = ps_InitContainers (pt_Spec (st_Template sts)) @ ps_Containers (pt_Spec (st_Template sts))"

lemma persistentVolumeClaim_names:
  assumes "setsOwnerOnly E" and "persistentVolumeClaimTemplates E c = Ok ts"
    and "pe_Storage (spec_Persistence (rc_Spec c)) = Some storage"
  shows "map (\<lambda>t. om_Name (pvc_Meta t)) ts = (if storage = 0 then [] else [''persistence''])"
    and "storage \<noteq> 0 \<Longrightarrow> map pvc_Requests ts = [mlit [(''storage'', storage)]]"
  using assms(2,3)
  by (auto simp: persistentVolumeClaimTemplates_def Let_def disableBlockOwnerDeletion_def claimTemplate_def
      defaultPVCName_def dest: setOwner_fields(1) [OF assms(1)] split: if_splits)

lemma Build_fields:
  assumes "StatefulSet_Build E c = Ok sts" and "ov_StatefulSet (spec_Override (rc_Spec c)) = None"
  obtains ts where "persistentVolumeClaimTemplates E c = Ok ts" and "st_VolumeClaimTemplates sts = ts"
    and "st_Selector sts = Some (LabelSelector (rc_Name c))"
    and "st_ServiceName sts = ChildResourceName c headlessServiceSuffix"
    and "st_Meta sts = namedMeta c stsSuffix"
  using assms by (auto simp: StatefulSet_Build_def Let_def)

lemma sample_podTemplate: "\<exists>pt. podTemplateSpec sampleCluster prev = Ok pt"
proof -
  have "\<exists>vs. podVolumes sampleCluster = Ok vs"
    by (simp add: podVolumes_def appendDefaultUserSecretVolumeProjection_def baseVolumes_def
        projectDefaultUser_def sampleCluster_def sampleSpec_def)
  then show ?thesis
    by (auto simp: podTemplateSpec_def Let_def sampleCluster_def sampleSpec_def)
qed

lemma sample_statefulSet:
  "\<exists>sts sts'. StatefulSet_Build sampleEnv sampleCluster = Ok sts
     \<and> StatefulSet_Update sampleEnv sampleCluster sts = Ok sts'
     \<and> ov_StatefulSet (spec_Override (rc_Spec sampleCluster)) = None"
proof -
  have ov: "ov_StatefulSet (spec_Override (rc_Spec sampleCluster)) = None"
    and storage: "pe_Storage (spec_Persistence (rc_Spec sampleCluster)) = Some (units 10)"
    by (simp_all add: sampleCluster_def sampleSpec_def)
  have "units 10 \<noteq> 0" using units_inj [of 10 0] by simp
  then obtain ts where ts: "persistentVolumeClaimTemplates sampleEnv sampleCluster = Ok ts"
    by (simp add: persistentVolumeClaimTemplates_def storage Let_def)
  then obtain sts where sts: "StatefulSet_Build sampleEnv sampleCluster = Ok sts"
      "st_VolumeClaimTemplates sts = ts"
    by (simp add: StatefulSet_Build_def ov)
  have "map pvc_Requests ts = [mlit [(''storage'', units 10)]]"
    using persistentVolumeClaim_names(2) [OF sampleEnv_owner ts storage] \<open>units 10 \<noteq> 0\<close> by simp
  then have "updatePersistenceStorageCapacity ts (Some (units 10)) = Ok (map (storageOf (Some (units 10))) ts)"
    by (intro capacity_OkI) (auto simp: map_eq_Cons_conv)
  moreover obtain pt where "podTemplateSpec sampleCluster (om_Annotations (pt_Meta (st_Template sts))) = Ok pt"
    using sample_podTemplate by blast
  moreover have "plainSts sampleEnv sampleCluster" by (simp add: plainSts_def ov)
  ultimately have "\<exists>sts'. StatefulSet_Update sampleEnv sampleCluster sts = Ok sts'"
    by (simp add: StatefulSet_Update_plain storage sts(2))
  with sts ov show ?thesis by blast
qed



text \<open>
  The objects of a cluster fit together: the StatefulSet selects the pods of its own
  template, and both services select them with the same labels; its pods are named by the
  headless service, whose name they also get in their environment; and they run under the
  service account that is built for them.
\<close>

theorem sts_wiring:
  assumes "ov_StatefulSet (spec_Override (rc_Spec c)) = None"
    and "StatefulSet_Build E c = Ok sts" and "StatefulSet_Update E c sts = Ok sts'"
  shows "st_Selector sts' = Some (ss_Selector (headlessSpec c))
    \<and> selects (ss_Selector (headlessSpec c)) (om_Labels (pt_Meta (st_Template sts')))
    \<and> ss_Selector (plainSpec E c spec) = ss_Selector (headlessSpec c)
    \<and> st_ServiceName sts' = om_Name (sv_Meta (HeadlessService_Build c))
    \<and> list_ex (\<lambda>e. e = plainVar ''K8S_SERVICE_NAME'' (st_ServiceName sts'))
         (slice (co_Env (hd (ps_Containers (pt_Spec (st_Template sts'))))))
    \<and> ps_ServiceAccountName (pt_Spec (st_Template sts')) = om_Name (sa_Meta (ServiceAccount_Build c))"
proof -
  have built: "st_Selector sts = Some (LabelSelector (rc_Name c))"
    "st_ServiceName sts = ChildResourceName c headlessServiceSuffix"
    by (rule Build_fields [OF assms(2,1)]; assumption)+
  have "plainSts E c" by (simp add: plainSts_def assms(1))
  then obtain pt where pt: "podTemplateSpec c (om_Annotations (pt_Meta (st_Template sts))) = Ok pt"
    and sts': "st_Template sts' = pt" "st_Selector sts' = st_Selector sts" "st_ServiceName sts' = st_ServiceName sts"
    using assms(3) by (auto simp: StatefulSet_Update_plain)
  obtain resources grace where
      cont: "ps_Containers (pt_Spec pt) = [rabbitmqContainer c resources grace] @ updaterContainers c"
    and rest: "om_Labels (pt_Meta pt) = Label (rc_Name c)"
      "ps_ServiceAccountName (pt_Spec pt) = ChildResourceName c serviceAccountName"
    by (rule podTemplateSpec_Ok [OF pt])
  have "selects (LabelSelector (rc_Name c)) (Label (rc_Name c))"
    by (auto simp: selects_def LabelSelector_def Label_def)
  then show ?thesis
    by (simp add: sts' built rest cont headlessSpec_def plainSpec_def HeadlessService_Build_def namedMeta_def
        ServiceAccount_Build_def rabbitmqContainer_def envVarsK8sObjects_def)
qed

theorem sts_wiring_witness:
  "\<exists>sts sts'. StatefulSet_Build sampleEnv sampleCluster = Ok sts
     \<and> StatefulSet_Update sampleEnv sampleCluster sts = Ok sts'
     \<and> selects (ss_Selector (headlessSpec sampleCluster)) (om_Labels (pt_Meta (st_Template sts')))"
proof -
  obtain sts sts' where sts: "StatefulSet_Build sampleEnv sampleCluster = Ok sts"
      "StatefulSet_Update sampleEnv sampleCluster sts = Ok sts'"
    and ov: "ov_StatefulSet (spec_Override (rc_Spec sampleCluster)) = None"
    using sample_statefulSet by blast
  from conjunct1 [OF conjunct2 [OF sts_wiring [OF ov sts]]] sts show ?thesis
    by (intro exI conjI)
qed


end
