(* ===== verification/Builders.thy ===== *)
theory Builders
  imports Stateful_Set
begin

text \<open>
  \<^verbatim>\<open>rabbitmq_resource_builder.go\<close>: the list of builders of a cluster and the interface
  \<^verbatim>\<open>ResourceBuilder\<close> through which the reconciler uses them. The dynamic dispatch is a case
  distinction over the ten builders; the type assertion that starts every \<^verbatim>\<open>Update\<close> is the
  match on the object, and panics on an object of another type.
\<close>

datatype builder =
    HeadlessServiceBuilder
  | ServiceBuilder
  | ErlangCookieBuilder
  | DefaultUserSecretBuilder
  | RabbitmqPluginsConfigMapBuilder
  | ServerConfigMapBuilder
  | ServiceAccountBuilder
  | RoleBuilder
  | RoleBindingBuilder
  | StatefulSetBuilder

definition ResourceBuilders :: "rabbitmqCluster \<Rightarrow> builder list" where
  "ResourceBuilders c =
     (let builders = [HeadlessServiceBuilder, ServiceBuilder, ErlangCookieBuilder, DefaultUserSecretBuilder,
            RabbitmqPluginsConfigMapBuilder, ServerConfigMapBuilder, ServiceAccountBuilder, RoleBuilder,
            RoleBindingBuilder, StatefulSetBuilder]
      in if VaultDefaultUserSecretEnabled c then take 3 builders @ drop (3 + 1) builders else builders)"

fun builder_Build :: "env \<Rightarrow> rabbitmqCluster \<Rightarrow> builder \<Rightarrow> object outcome" where
  "builder_Build E c HeadlessServiceBuilder = Ok (OService (HeadlessService_Build c))"
| "builder_Build E c ServiceBuilder = Ok (OService (Service_Build c))"
| "builder_Build E c ErlangCookieBuilder = obind (ErlangCookie_Build E c) (\<lambda>s. Ok (OSecret s))"
| "builder_Build E c DefaultUserSecretBuilder = obind (DefaultUserSecret_Build E c) (\<lambda>s. Ok (OSecret s))"
| "builder_Build E c RabbitmqPluginsConfigMapBuilder = Ok (OConfigMap (PluginsConfigMap_Build c))"
| "builder_Build E c ServerConfigMapBuilder = Ok (OConfigMap (ServerConfigMap_Build c))"
| "builder_Build E c ServiceAccountBuilder = Ok (OServiceAccount (ServiceAccount_Build c))"
| "builder_Build E c RoleBuilder = Ok (ORole (Role_Build c))"
| "builder_Build E c RoleBindingBuilder = Ok (ORoleBinding (RoleBinding_Build c))"
| "builder_Build E c StatefulSetBuilder = obind (StatefulSet_Build E c) (\<lambda>s. Ok (OStatefulSet s))"

text \<open>The type assertions, e.g. \<^verbatim>\<open>object.(*corev1.Secret)\<close>.\<close>

definition asService :: "object \<Rightarrow> service outcome" where
  "asService ob = (case ob of OService x \<Rightarrow> Ok x | _ \<Rightarrow> Panic ''interface conversion'')"

definition asSecret :: "object \<Rightarrow> secret outcome" where
  "asSecret ob = (case ob of OSecret x \<Rightarrow> Ok x | _ \<Rightarrow> Panic ''interface conversion'')"

definition asConfigMap :: "object \<Rightarrow> configMap outcome" where
  "asConfigMap ob = (case ob of OConfigMap x \<Rightarrow> Ok x | _ \<Rightarrow> Panic ''interface conversion'')"

definition asServiceAccount :: "object \<Rightarrow> serviceAccount outcome" where
  "asServiceAccount ob = (case ob of OServiceAccount x \<Rightarrow> Ok x | _ \<Rightarrow> Panic ''interface conversion'')"

definition asRole :: "object \<Rightarrow> role outcome" where
  "asRole ob = (case ob of ORole x \<Rightarrow> Ok x | _ \<Rightarrow> Panic ''interface conversion'')"

definition asRoleBinding :: "object \<Rightarrow> roleBinding outcome" where
  "asRoleBinding ob = (case ob of ORoleBinding x \<Rightarrow> Ok x | _ \<Rightarrow> Panic ''interface conversion'')"

definition asStatefulSet :: "object \<Rightarrow> statefulSet outcome" where
  "asStatefulSet ob = (case ob of OStatefulSet x \<Rightarrow> Ok x | _ \<Rightarrow> Panic ''interface conversion'')"

fun builder_Update :: "env \<Rightarrow> rabbitmqCluster \<Rightarrow> builder \<Rightarrow> object \<Rightarrow> object outcome" where
  "builder_Update E c HeadlessServiceBuilder ob =
     obind (obind (asService ob) (HeadlessService_Update E c)) (\<lambda>x. Ok (OService x))"
| "builder_Update E c ServiceBuilder ob =
     obind (obind (asService ob) (Service_Update E c)) (\<lambda>x. Ok (OService x))"
| "builder_Update E c ErlangCookieBuilder ob =
     obind (obind (asSecret ob) (ErlangCookie_Update E c)) (\<lambda>x. Ok (OSecret x))"
| "builder_Update E c DefaultUserSecretBuilder ob =
     obind (obind (asSecret ob) (DefaultUserSecret_Update E c)) (\<lambda>x. Ok (OSecret x))"
| "builder_Update E c RabbitmqPluginsConfigMapBuilder ob =
     obind (obind (asConfigMap ob) (PluginsConfigMap_Update E c)) (\<lambda>x. Ok (OConfigMap x))"
| "builder_Update E c ServerConfigMapBuilder ob =
     obind (obind (asConfigMap ob) (ServerConfigMap_Update E c)) (\<lambda>x. Ok (OConfigMap x))"
| "builder_Update E c ServiceAccountBuilder ob =
     obind (obind (asServiceAccount ob) (ServiceAccount_Update E c)) (\<lambda>x. Ok (OServiceAccount x))"
| "builder_Update E c RoleBuilder ob =
     obind (obind (asRole ob) (Role_Update E c)) (\<lambda>x. Ok (ORole x))"
| "builder_Update E c RoleBindingBuilder ob =
     obind (obind (asRoleBinding ob) (RoleBinding_Update E c)) (\<lambda>x. Ok (ORoleBinding x))"
| "builder_Update E c StatefulSetBuilder ob =
     obind (obind (asStatefulSet ob) (StatefulSet_Update E c)) (\<lambda>x. Ok (OStatefulSet x))"

fun UpdateMayRequireStsRecreate :: "builder \<Rightarrow> bool" where
  "UpdateMayRequireStsRecreate StatefulSetBuilder = True"
| "UpdateMayRequireStsRecreate b = False"

section \<open>Kinds, names and keys\<close>

datatype kind = KService | KSecret | KConfigMap | KServiceAccount | KRole | KRoleBinding | KStatefulSet

fun kindOf :: "object \<Rightarrow> kind" where
  "kindOf (OService s) = KService"
| "kindOf (OSecret s) = KSecret"
| "kindOf (OConfigMap s) = KConfigMap"
| "kindOf (OServiceAccount s) = KServiceAccount"
| "kindOf (ORole s) = KRole"
| "kindOf (ORoleBinding s) = KRoleBinding"
| "kindOf (OStatefulSet s) = KStatefulSet"

text \<open>The kind and the name suffix of what each builder makes.\<close>

fun builderTarget :: "builder \<Rightarrow> kind \<times> string" where
  "builderTarget HeadlessServiceBuilder = (KService, ''nodes'')"
| "builderTarget ServiceBuilder = (KService, [])"
| "builderTarget ErlangCookieBuilder = (KSecret, ''erlang-cookie'')"
| "builderTarget DefaultUserSecretBuilder = (KSecret, ''default-user'')"
| "builderTarget RabbitmqPluginsConfigMapBuilder = (KConfigMap, ''plugins-conf'')"
| "builderTarget ServerConfigMapBuilder = (KConfigMap, ''server-conf'')"
| "builderTarget ServiceAccountBuilder = (KServiceAccount, ''server'')"
| "builderTarget RoleBuilder = (KRole, ''peer-discovery'')"
| "builderTarget RoleBindingBuilder = (KRoleBinding, ''server'')"
| "builderTarget StatefulSetBuilder = (KStatefulSet, ''server'')"

definition objectId :: "object \<Rightarrow> kind \<times> nskey" where
  "objectId ob = (kindOf ob, metaKey (objMeta ob))"

definition targetId :: "rabbitmqCluster \<Rightarrow> builder \<Rightarrow> kind \<times> nskey" where
  "targetId c b = (fst (builderTarget b), (rc_Namespace c, ChildResourceName c (snd (builderTarget b))))"

lemma namedMeta_key [simp]: "metaKey (namedMeta c s) = (rc_Namespace c, ChildResourceName c s)"
  by (simp add: namedMeta_def metaKey_def)

lemma ServerConfig_key: "metaKey (cm_Meta (ServerConfigMap_Build c)) = (rc_Namespace c, ChildResourceName c ''server-conf'')"
  by (simp add: ServerConfigMap_Build_def namedMeta_def metaKey_def ServerConfigMapName_def)

lemma PluginsConfig_key: "metaKey (cm_Meta (PluginsConfigMap_Build c)) = (rc_Namespace c, ChildResourceName c ''plugins-conf'')"
  by (simp add: PluginsConfigMap_Build_def namedMeta_def metaKey_def PluginsConfigName_def)

lemma StatefulSet_Build_meta: "StatefulSet_Build E c = Ok sts \<Longrightarrow> st_Meta sts = namedMeta c stsSuffix"
  by (cases "ov_StatefulSet (spec_Override (rc_Spec c))";
      cases "sto_Spec (the (ov_StatefulSet (spec_Override (rc_Spec c))))")
     (auto simp: StatefulSet_Build_def Let_def)

lemma build_id: "builder_Build E c b = Ok ob \<Longrightarrow> objectId ob = targetId c b"
  by (cases b)
     (auto simp: objectId_def targetId_def HeadlessService_Build_def Service_Build_def ErlangCookie_Build_def
       DefaultUserSecret_Build_def PluginsConfig_key ServerConfig_key ServiceAccount_Build_def
       Role_Build_def RoleBinding_Build_def StatefulSet_Build_meta stsSuffix_def headlessServiceSuffix_def
       ServiceSuffix_def erlangCookieName_def DefaultUserSecretName_def PluginsConfigName_def
       serviceAccountName_def roleName_def roleBindingName_def)

lemma asserts [simp]:
  "asService ob = Ok sv \<longleftrightarrow> ob = OService sv" "asSecret ob = Ok se \<longleftrightarrow> ob = OSecret se"
  "asConfigMap ob = Ok cm \<longleftrightarrow> ob = OConfigMap cm" "asServiceAccount ob = Ok sa \<longleftrightarrow> ob = OServiceAccount sa"
  "asRole ob = Ok ro \<longleftrightarrow> ob = ORole ro" "asRoleBinding ob = Ok rb \<longleftrightarrow> ob = ORoleBinding rb"
  "asStatefulSet ob = Ok st \<longleftrightarrow> ob = OStatefulSet st"
  by (cases ob; simp add: asService_def asSecret_def asConfigMap_def asServiceAccount_def asRole_def
      asRoleBinding_def asStatefulSet_def)+

lemmas update_keys = headless.upd_key clientService.upd_key erlangCookie.upd_key defaultUser.upd_key
  pluginsConfig.upd_key serverConfig.upd_key serviceAccount.upd_key role.upd_key roleBinding.upd_key
  statefulSet.upd_key

lemma update_id:
  "setsOwnerOnly E \<Longrightarrow> builder_Update E c b ob = Ok ob' \<Longrightarrow> objectId ob' = objectId ob"
  by (cases b) (auto simp: objectId_def dest: update_keys)

lemma ResourceBuilders_list:
  "ResourceBuilders c = [HeadlessServiceBuilder, ServiceBuilder, ErlangCookieBuilder]
     @ whenElems (\<not> VaultDefaultUserSecretEnabled c) [DefaultUserSecretBuilder]
     @ [RabbitmqPluginsConfigMapBuilder, ServerConfigMapBuilder, ServiceAccountBuilder, RoleBuilder,
        RoleBindingBuilder, StatefulSetBuilder]"
  by (simp add: ResourceBuilders_def Let_def whenElems_def numeral_eq_Suc)

lemma builders_mem:
  "b \<in> set (ResourceBuilders c) \<longleftrightarrow> b \<noteq> DefaultUserSecretBuilder \<or> \<not> VaultDefaultUserSecretEnabled c"
  by (cases b) (simp_all add: ResourceBuilders_list)

lemma builders_distinct: "distinct (ResourceBuilders c)"
  by (simp add: ResourceBuilders_list)

lemma builderTarget_inj: "builderTarget b = builderTarget b' \<Longrightarrow> b = b'"
  by (cases b; cases b'; simp)

text \<open>The suffixes are the names of \<open>child_names_distinct\<close>; comparing lengths or heads tells them apart.\<close>

lemma ChildResourceName_inj:
  assumes "s = [] \<or> last s \<noteq> CHR ''-''" and "t = [] \<or> last t \<noteq> CHR ''-''"
  shows "ChildResourceName c s = ChildResourceName c t \<longleftrightarrow> s = t"
  using assms ChildResourceName_suffix [of s c] ChildResourceName_suffix [of t c]
  by (cases "s = []"; cases "t = []") auto

lemma target_suffix: "snd (builderTarget b) = [] \<or> last (snd (builderTarget b)) \<noteq> CHR ''-''"
  by (cases b) simp_all

lemma targetId_inj: "targetId c b = targetId c b' \<Longrightarrow> b = b'"
  unfolding targetId_def prod.inject ChildResourceName_inj [OF target_suffix target_suffix]
  by (rule builderTarget_inj) (simp add: prod_eq_iff)

text \<open>
  C19. The reconciler's builders never fight over an object: each builds an object of its own
  kind and name in the cluster's namespace, no two builders of a cluster address the same
  object, and no update moves the object it is given to another name, namespace or kind.
\<close>

theorem builders_own_objects:
  assumes "setsOwnerOnly E" and "builder_Build E c b = Ok ob" and "builder_Build E c b' = Ok ob'"
    and "builder_Update E c b x = Ok y"
  shows "objectId ob = targetId c b \<and> om_Namespace (objMeta ob) = rc_Namespace c
    \<and> (objectId ob = objectId ob' \<longleftrightarrow> b = b') \<and> objectId y = objectId x"
proof -
  note ids = build_id [OF assms(2)] build_id [OF assms(3)]
  have "om_Namespace (objMeta ob) = rc_Namespace c"
    using ids(1) by (simp add: objectId_def targetId_def metaKey_def)
  moreover have "objectId ob = objectId ob' \<longleftrightarrow> b = b'"
    unfolding ids using targetId_inj by blast
  ultimately show ?thesis using ids(1) update_id [OF assms(1,4)] by simp
qed

theorem builders_own_objects_witness:
  "\<exists>ob ob' y. builder_Build sampleEnv sampleCluster RoleBuilder = Ok ob
     \<and> builder_Build sampleEnv sampleCluster RoleBindingBuilder = Ok ob'
     \<and> builder_Update sampleEnv sampleCluster RoleBuilder ob = Ok y
     \<and> objectId ob \<noteq> objectId ob' \<and> objectId y = objectId ob"
proof -
  have ob: "builder_Build sampleEnv sampleCluster RoleBuilder = Ok (ORole (Role_Build sampleCluster))"
    and ob': "builder_Build sampleEnv sampleCluster RoleBindingBuilder
      = Ok (ORoleBinding (RoleBinding_Build sampleCluster))" by simp_all
  obtain y where y: "builder_Update sampleEnv sampleCluster RoleBuilder (ORole (Role_Build sampleCluster)) = Ok y"
    by (simp add: Role_Update_def asRole_def)
  have "RoleBuilder \<noteq> RoleBindingBuilder" by simp
  with builders_own_objects [OF sampleEnv_owner ob ob' y]
  have "objectId (ORole (Role_Build sampleCluster)) \<noteq> objectId (ORoleBinding (RoleBinding_Build sampleCluster))"
    and "objectId y = objectId (ORole (Role_Build sampleCluster))" by blast+
  with ob ob' y show ?thesis by (intro exI conjI)
qed

section \<open>What the pods refer to\<close>

fun projectionRef :: "projection \<Rightarrow> kind \<times> string" where
  "projectionRef (ConfigMapProjection n items) = (KConfigMap, n)"
| "projectionRef (SecretProjection n items opt) = (KSecret, n)"

fun volumeRefs :: "volumeSource \<Rightarrow> (kind \<times> string) list" where
  "volumeRefs (ConfigMapVolume n) = [(KConfigMap, n)]"
| "volumeRefs (SecretVolume n) = [(KSecret, n)]"
| "volumeRefs (ProjectedVolume ps mode) = map projectionRef ps"
| "volumeRefs _ = []"

definition builtFor :: "rabbitmqCluster \<Rightarrow> kind \<times> string \<Rightarrow> bool" where
  "builtFor c r = list_ex (\<lambda>b. targetId c b = (fst r, (rc_Namespace c, snd r))) (ResourceBuilders c)"

definition userTLSSecret :: "rabbitmqCluster \<Rightarrow> kind \<times> string \<Rightarrow> bool" where
  "userTLSSecret c r \<longleftrightarrow> SecretTLSEnabled c \<and> fst r = KSecret
     \<and> snd r \<in> {tls_SecretName (spec_TLS (rc_Spec c)), tls_CaSecretName (spec_TLS (rc_Spec c))}"

lemma builtFor_simps:
  "builtFor c (KConfigMap, ChildResourceName c ''plugins-conf'')"
  "builtFor c (KConfigMap, ChildResourceName c ''server-conf'')"
  "builtFor c (KSecret, ChildResourceName c ''erlang-cookie'')"
  "\<not> VaultDefaultUserSecretEnabled c \<Longrightarrow> builtFor c (KSecret, ChildResourceName c ''default-user'')"
  by (simp_all add: builtFor_def targetId_def ResourceBuilders_list)



end
