(* ===== verification/World.thy ===== *)
theory World
  imports Builders
begin

text \<open>
  The effects of the controllers. A controller method is a program
  \<open>'a prog = world \<Rightarrow> 'a outcome \<times> world\<close>. The world holds what the methods share: the
  \<^verbatim>\<open>RabbitmqCluster\<close> in memory that the pointer \<^verbatim>\<open>rabbitmqCluster\<close> names, the child
  object the pointer \<^verbatim>\<open>resource\<close> names, the variable \<^verbatim>\<open>operationResult\<close> a closure
  captures, and the log of every call to the outside, with its arguments and its answer.

  The outside (API server and its cache, kubelet, clock, client libraries) is the record
  \<open>api\<close>. Each of its functions answers from the log so far, so that two calls may be
  answered differently and no behaviour of the server is excluded. Printing to the operator's
  own log is not an event.
\<close>

section \<open>Events\<close>

type_synonym 'r response = "(reason \<times> string) + 'r"

record deleteOptions =
  do_PreconditionUID :: "string option"
  do_PropagationPolicy :: "string option"

datatype eventType = EventTypeNormal | EventTypeWarning

datatype operationResult = OperationResultNone | OperationResultCreated | OperationResultUpdated

datatype event =
    Clock gotime
  | Sleep int
  | Recorded eventType string string
  | GetCluster nskey "rabbitmqCluster response"
  | UpdateCluster rabbitmqCluster "rabbitmqCluster response"
  | UpdateClusterStatus rabbitmqCluster "rabbitmqCluster response"
  | GetSts nskey "statefulSet response"
  | UpdateSts statefulSet "statefulSet response"
  | DeleteSts nskey deleteOptions "unit response"
  | GetConfigMap nskey "configMap response"
  | UpdateConfigMap configMap "configMap response"
  | GetSecret nskey "secret response"
  | GetEndpoints nskey "endpoints response"
  | ListPods string "pod list response"
  | UpdatePod pod "pod response"
  | GetPVC nskey "persistentVolumeClaim response"
  | UpdatePVC string persistentVolumeClaim "persistentVolumeClaim response"
  | ReadObject "kind \<times> nskey" "object response"
  | CreateObject object "object response"
  | UpdateObject object "object response"
  | Exec nskey string "string list" "unit response"

record world =
  w_log :: "event list"
  w_rmq :: rabbitmqCluster
  w_resource :: object
  w_operationResult :: operationResult

type_synonym 'a prog = "world \<Rightarrow> 'a outcome \<times> world"

section \<open>Programs\<close>

definition ret :: "'a \<Rightarrow> 'a prog" where
  "ret a w = (Ok a, w)"

definition throw :: "error \<Rightarrow> 'a prog" where
  "throw e w = (Err e, w)"

definition fromOutcome :: "'a outcome \<Rightarrow> 'a prog" where
  "fromOutcome r w = (r, w)"

text \<open>\<^verbatim>\<open>x, err := m(); if err != nil { return err }\<close>, and then the rest.\<close>

definition bindM :: "'a prog \<Rightarrow> ('a \<Rightarrow> 'b prog) \<Rightarrow> 'b prog" where
  "bindM m f w =
     (case m w of
        (Ok a, w') \<Rightarrow> f a w'
      | (Err e, w') \<Rightarrow> (Err e, w')
      | (Panic p, w') \<Rightarrow> (Panic p, w'))"

text \<open>\<^verbatim>\<open>x, err := m()\<close> where the code goes on with either. A panic goes through.\<close>

definition tryM :: "'a prog \<Rightarrow> (error + 'a \<Rightarrow> 'b prog) \<Rightarrow> 'b prog" where
  "tryM m f w =
     (case m w of
        (Ok a, w') \<Rightarrow> f (Inr a) w'
      | (Err e, w') \<Rightarrow> f (Inl e) w'
      | (Panic p, w') \<Rightarrow> (Panic p, w'))"

definition wrapM :: "string \<Rightarrow> 'a prog \<Rightarrow> 'a prog" where
  "wrapM msg m w = (let (r, w') = m w in (wrapErr msg r, w'))"

text \<open>
  A method that returns \<^verbatim>\<open>(time.Duration, error)\<close> returns both, here the pair of the seconds
  to requeue after and the error; \<open>checked d m k\<close> is
  \<^verbatim>\<open>x, err := m(); if err != nil { return d, err }\<close> and then \<open>k\<close>.
\<close>

type_synonym requeue = "int \<times> error option"

definition checked :: "int \<Rightarrow> 'a prog \<Rightarrow> ('a \<Rightarrow> requeue prog) \<Rightarrow> requeue prog" where
  "checked d m k = tryM m (case_sum (\<lambda>e. ret (d, Some e)) k)"

text \<open>A loop \<^verbatim>\<open>for _, x := range xs\<close> that returns the first error.\<close>

fun forEach :: "('a \<Rightarrow> unit prog) \<Rightarrow> 'a list \<Rightarrow> unit prog" where
  "forEach f [] = ret ()"
| "forEach f (x # xs) = bindM (f x) (\<lambda>_. forEach f xs)"

definition whenM :: "bool \<Rightarrow> unit prog \<Rightarrow> unit prog" where
  "whenM b m = (if b then m else ret ())"

section \<open>Calls\<close>

text \<open>\<^verbatim>\<open>err.Error()\<close>.\<close>

fun errString :: "error \<Rightarrow> string" where
  "errString (ApiError r m) = m"
| "errString (Wrap m e) = m @ '': '' @ errString e"
| "errString (ErrMsg m) = m"
| "errString DisableNonTLSConfigErr = ''TLS must be enabled if disableNonTLSListeners is set to true''"

definition emit :: "event \<Rightarrow> unit prog" where
  "emit e w = (Ok (), w\<lparr>w_log := w_log w @ [e]\<rparr>)"

fun fromResponse :: "'r response \<Rightarrow> 'r outcome" where
  "fromResponse (Inl (r, m)) = Err (ApiError r m)"
| "fromResponse (Inr x) = Ok x"

definition call :: "(event list \<Rightarrow> 'r response) \<Rightarrow> ('r response \<Rightarrow> event) \<Rightarrow> 'r prog" where
  "call ask ev w =
     (let r = ask (w_log w) in (fromResponse r, w\<lparr>w_log := w_log w @ [ev r]\<rparr>))"

definition getRmq :: "rabbitmqCluster prog" where
  "getRmq w = (Ok (w_rmq w), w)"

definition modifyRmq :: "(rabbitmqCluster \<Rightarrow> rabbitmqCluster) \<Rightarrow> unit prog" where
  "modifyRmq f w = (Ok (), w\<lparr>w_rmq := f (w_rmq w)\<rparr>)"

definition getResource :: "object prog" where
  "getResource w = (Ok (w_resource w), w)"

definition setResource :: "object \<Rightarrow> unit prog" where
  "setResource ob w = (Ok (), w\<lparr>w_resource := ob\<rparr>)"

definition getOperationResult :: "operationResult prog" where
  "getOperationResult w = (Ok (w_operationResult w), w)"

definition setOperationResult :: "operationResult \<Rightarrow> unit prog" where
  "setOperationResult r w = (Ok (), w\<lparr>w_operationResult := r\<rparr>)"

section \<open>The outside\<close>

text \<open>
  The first group answers requests; the second stands for library code: the finalizer helpers
  of \<^verbatim>\<open>controllerutil\<close>, \<^verbatim>\<open>metav1.GetControllerOf\<close>, \<^verbatim>\<open>labels.Parse\<close>, the time stamps
  (whose text depends on the zone the operator runs in), \<^verbatim>\<open>retry.OnError\<close> and
  \<^verbatim>\<open>controllerutil.CreateOrUpdate\<close>.
\<close>

record api =
  api_now :: "event list \<Rightarrow> gotime"
  api_getCluster :: "nskey \<Rightarrow> event list \<Rightarrow> rabbitmqCluster response"
  api_updateCluster :: "rabbitmqCluster \<Rightarrow> event list \<Rightarrow> rabbitmqCluster response"
  api_updateStatus :: "rabbitmqCluster \<Rightarrow> event list \<Rightarrow> rabbitmqCluster response"
  api_getSts :: "nskey \<Rightarrow> event list \<Rightarrow> statefulSet response"
  api_updateSts :: "statefulSet \<Rightarrow> event list \<Rightarrow> statefulSet response"
  api_deleteSts :: "nskey \<Rightarrow> deleteOptions \<Rightarrow> event list \<Rightarrow> unit response"
  api_getConfigMap :: "nskey \<Rightarrow> event list \<Rightarrow> configMap response"
  api_updateConfigMap :: "configMap \<Rightarrow> event list \<Rightarrow> configMap response"
  api_getSecret :: "nskey \<Rightarrow> event list \<Rightarrow> secret response"
  api_getEndpoints :: "nskey \<Rightarrow> event list \<Rightarrow> endpoints response"
  api_listPods :: "string \<Rightarrow> event list \<Rightarrow> pod list response"
  api_updatePod :: "pod \<Rightarrow> event list \<Rightarrow> pod response"
  api_getPVC :: "nskey \<Rightarrow> event list \<Rightarrow> persistentVolumeClaim response"
  api_updatePVC :: "string \<Rightarrow> persistentVolumeClaim \<Rightarrow> event list \<Rightarrow> persistentVolumeClaim response"
  api_readObject :: "kind \<times> nskey \<Rightarrow> event list \<Rightarrow> object response"
  api_createObject :: "object \<Rightarrow> event list \<Rightarrow> object response"
  api_updateObject :: "object \<Rightarrow> event list \<Rightarrow> object response"
  api_exec :: "nskey \<Rightarrow> string \<Rightarrow> string list \<Rightarrow> event list \<Rightarrow> unit response"
  lib_containsFinalizer :: "objectMeta \<Rightarrow> string \<Rightarrow> bool"
  lib_addFinalizer :: "objectMeta \<Rightarrow> string \<Rightarrow> objectMeta"
  lib_removeFinalizer :: "objectMeta \<Rightarrow> string \<Rightarrow> objectMeta"
  lib_GetControllerOf :: "objectMeta \<Rightarrow> ownerReference option"
  lib_parseSelector :: "string \<Rightarrow> error option"
  lib_formatTime :: "gotime \<Rightarrow> string"
  lib_parseTime :: "string \<Rightarrow> error + gotime"
  lib_onError :: "(error \<Rightarrow> bool) \<Rightarrow> unit prog \<Rightarrow> unit prog"
  lib_createOrUpdate :: "(object \<Rightarrow> object outcome) \<Rightarrow> unit prog"

definition now :: "api \<Rightarrow> gotime prog" where
  "now S = call (\<lambda>l. Inr (api_now S l)) (case_sum (\<lambda>_. Clock 0) Clock)"

definition getCluster :: "api \<Rightarrow> nskey \<Rightarrow> rabbitmqCluster prog" where
  "getCluster S k = call (api_getCluster S k) (GetCluster k)"

text \<open>
  \<^verbatim>\<open>r.Update(ctx, rmq)\<close> and \<^verbatim>\<open>r.Status().Update(ctx, rmq)\<close> send the object in memory and, on
  success, replace it by the server's answer.
\<close>

definition updateCluster :: "api \<Rightarrow> unit prog" where
  "updateCluster S =
     bindM getRmq (\<lambda>c. bindM (call (api_updateCluster S c) (UpdateCluster c)) (\<lambda>c'. modifyRmq (\<lambda>_. c')))"

definition updateStatus :: "api \<Rightarrow> unit prog" where
  "updateStatus S =
     bindM getRmq (\<lambda>c. bindM (call (api_updateStatus S c) (UpdateClusterStatus c)) (\<lambda>c'. modifyRmq (\<lambda>_. c')))"

definition getStatefulSet :: "api \<Rightarrow> nskey \<Rightarrow> statefulSet prog" where
  "getStatefulSet S k = call (api_getSts S k) (GetSts k)"

definition updateStatefulSet :: "api \<Rightarrow> statefulSet \<Rightarrow> statefulSet prog" where
  "updateStatefulSet S s = call (api_updateSts S s) (UpdateSts s)"

definition deleteStatefulSet :: "api \<Rightarrow> nskey \<Rightarrow> deleteOptions \<Rightarrow> unit prog" where
  "deleteStatefulSet S k opts = call (api_deleteSts S k opts) (DeleteSts k opts)"

definition getConfigMap :: "api \<Rightarrow> nskey \<Rightarrow> configMap prog" where
  "getConfigMap S k = call (api_getConfigMap S k) (GetConfigMap k)"

definition updateConfigMap :: "api \<Rightarrow> configMap \<Rightarrow> configMap prog" where
  "updateConfigMap S c = call (api_updateConfigMap S c) (UpdateConfigMap c)"

definition getSecret :: "api \<Rightarrow> nskey \<Rightarrow> secret prog" where
  "getSecret S k = call (api_getSecret S k) (GetSecret k)"

definition getEndpoints :: "api \<Rightarrow> nskey \<Rightarrow> endpoints prog" where
  "getEndpoints S k = call (api_getEndpoints S k) (GetEndpoints k)"

definition listPods :: "api \<Rightarrow> string \<Rightarrow> pod list prog" where
  "listPods S sel = call (api_listPods S sel) (ListPods sel)"

definition updatePod :: "api \<Rightarrow> pod \<Rightarrow> pod prog" where
  "updatePod S p = call (api_updatePod S p) (UpdatePod p)"

definition getPVC :: "api \<Rightarrow> nskey \<Rightarrow> persistentVolumeClaim prog" where
  "getPVC S k = call (api_getPVC S k) (GetPVC k)"

definition updatePVC :: "api \<Rightarrow> string \<Rightarrow> persistentVolumeClaim \<Rightarrow> persistentVolumeClaim prog" where
  "updatePVC S ns p = call (api_updatePVC S ns p) (UpdatePVC ns p)"

definition readObject :: "api \<Rightarrow> kind \<times> nskey \<Rightarrow> object prog" where
  "readObject S i = call (api_readObject S i) (ReadObject i)"

definition createObject :: "api \<Rightarrow> object \<Rightarrow> object prog" where
  "createObject S ob = call (api_createObject S ob) (CreateObject ob)"

definition updateObject :: "api \<Rightarrow> object \<Rightarrow> object prog" where
  "updateObject S ob = call (api_updateObject S ob) (UpdateObject ob)"

definition execIn :: "api \<Rightarrow> nskey \<Rightarrow> string \<Rightarrow> string list \<Rightarrow> unit prog" where
  "execIn S k container cmd = call (api_exec S k container cmd) (Exec k container cmd)"

definition sleep :: "int \<Rightarrow> unit prog" where
  "sleep s = emit (Sleep s)"

definition record_event :: "eventType \<Rightarrow> string \<Rightarrow> string \<Rightarrow> unit prog" where
  "record_event ty reason msg = emit (Recorded ty reason msg)"

section \<open>What the libraries document\<close>

text \<open>
  \<^verbatim>\<open>retry.OnError\<close> runs the function again as long as it fails with a retriable error, and
  gives up after a fixed number of attempts with the last error.
\<close>

fun attempts :: "nat \<Rightarrow> (error \<Rightarrow> bool) \<Rightarrow> unit prog \<Rightarrow> unit prog" where
  "attempts 0 retriable f = f"
| "attempts (Suc n) retriable f =
     tryM f (case_sum (\<lambda>e. if retriable e then attempts n retriable f else throw e) ret)"

text \<open>
  \<^verbatim>\<open>CreateOrUpdate\<close> gets the object, calls the mutate function on it "regardless of creating or
  updating", creates it when it was not found and updates it when it changed; it reports what it
  has done, and \<^verbatim>\<open>OperationResultNone\<close> with every error.
\<close>

definition mutateResource :: "(object \<Rightarrow> object outcome) \<Rightarrow> object prog" where
  "mutateResource f =
     bindM getResource (\<lambda>ob. bindM (fromOutcome (f ob)) (\<lambda>ob'.
     bindM (setResource ob') (\<lambda>_. ret ob')))"

definition documentedCreateOrUpdate :: "api \<Rightarrow> (object \<Rightarrow> object outcome) \<Rightarrow> unit prog" where
  "documentedCreateOrUpdate S f =
     bindM (setOperationResult OperationResultNone) (\<lambda>_.
     bindM getResource (\<lambda>ob.
     tryM (readObject S (objectId ob)) (case_sum
       (\<lambda>e. if isNotFound e
            then bindM (mutateResource f) (\<lambda>ob'. bindM (createObject S ob') (\<lambda>ob''.
                 bindM (setResource ob'') (\<lambda>_. setOperationResult OperationResultCreated)))
            else throw e)
       (\<lambda>found. bindM (setResource found) (\<lambda>_. bindM (mutateResource f) (\<lambda>ob'.
            if ob' = found then ret ()
            else bindM (updateObject S ob') (\<lambda>ob''.
                 bindM (setResource ob'') (\<lambda>_. setOperationResult OperationResultUpdated))))))))"

definition documented :: "api \<Rightarrow> bool" where
  "documented S \<longleftrightarrow>
     (\<forall>m f. lib_containsFinalizer S m f \<longleftrightarrow> f \<in> set (om_Finalizers m))
   \<and> (\<forall>m f. lib_addFinalizer S m f =
         (if f \<in> set (om_Finalizers m) then m else m\<lparr>om_Finalizers := om_Finalizers m @ [f]\<rparr>))
   \<and> (\<forall>m f. lib_removeFinalizer S m f = m\<lparr>om_Finalizers := removeAll f (om_Finalizers m)\<rparr>)
   \<and> (\<forall>m. lib_GetControllerOf S m = List.find (\<lambda>r. or_Controller r = Some True) (om_OwnerReferences m))
   \<and> (\<exists>n. \<forall>P f. lib_onError S P f = attempts n P f)
   \<and> (\<forall>f. lib_createOrUpdate S f = documentedCreateOrUpdate S f)"

lemma documentedD:
  assumes "documented S"
  shows "lib_containsFinalizer S m f \<longleftrightarrow> f \<in> set (om_Finalizers m)"
    and "lib_addFinalizer S m f =
         (if f \<in> set (om_Finalizers m) then m else m\<lparr>om_Finalizers := om_Finalizers m @ [f]\<rparr>)"
    and "lib_removeFinalizer S m f = m\<lparr>om_Finalizers := removeAll f (om_Finalizers m)\<rparr>"
    and "lib_GetControllerOf S m = List.find (\<lambda>r. or_Controller r = Some True) (om_OwnerReferences m)"
    and "\<exists>n. lib_onError S P g = attempts n P g"
    and "lib_createOrUpdate S h = documentedCreateOrUpdate S h"
  using assms by (auto simp: documented_def)

section \<open>Running programs\<close>

lemma run_basic [run_simps]:
  "ret a w = (Ok a, w)" "throw e w = (Err e, w)" "fromOutcome r w = (r, w)"
  "getRmq w = (Ok (w_rmq w), w)" "modifyRmq f w = (Ok (), w\<lparr>w_rmq := f (w_rmq w)\<rparr>)"
  "getResource w = (Ok (w_resource w), w)" "setResource ob w = (Ok (), w\<lparr>w_resource := ob\<rparr>)"
  "getOperationResult w = (Ok (w_operationResult w), w)"
  "setOperationResult p w = (Ok (), w\<lparr>w_operationResult := p\<rparr>)"
  "emit ev w = (Ok (), w\<lparr>w_log := w_log w @ [ev]\<rparr>)"
  by (simp_all add: ret_def throw_def fromOutcome_def getRmq_def modifyRmq_def getResource_def
      setResource_def getOperationResult_def setOperationResult_def emit_def)

lemma run_bind [run_simps]:
  "m w = (Ok a, w') \<Longrightarrow> bindM m f w = f a w'"
  "m w = (Err e, w') \<Longrightarrow> bindM m f w = (Err e, w')"
  "m w = (Panic p, w') \<Longrightarrow> bindM m f w = (Panic p, w')"
  by (simp_all add: bindM_def)

lemma run_try [run_simps]:
  "m w = (Ok a, w') \<Longrightarrow> tryM m g w = g (Inr a) w'"
  "m w = (Err e, w') \<Longrightarrow> tryM m g w = g (Inl e) w'"
  "m w = (Panic p, w') \<Longrightarrow> tryM m g w = (Panic p, w')"
  by (simp_all add: tryM_def)

lemma run_call:
  "call ask ev w =
     (fromResponse (ask (w_log w)), w\<lparr>w_log := w_log w @ [ev (ask (w_log w))]\<rparr>)"
  by (simp add: call_def Let_def)

lemma fromResponse_Ok [simp]: "fromResponse r = Ok x \<longleftrightarrow> r = Inr x"
  by (cases r rule: fromResponse.cases) auto

lemma fromResponse_Err [simp]: "fromResponse r = Err e \<longleftrightarrow> (\<exists>q m. r = Inl (q, m) \<and> e = ApiError q m)"
  by (cases r rule: fromResponse.cases) auto

lemma fromResponse_no_panic [simp]: "fromResponse r \<noteq> Panic p"
  by (cases r rule: fromResponse.cases) auto

text \<open>Inversion: how a composed program can have ended well or with an error.\<close>

lemma bind_OkD:
  assumes "bindM m f w = (Ok b, w2)"
  obtains a w1 where "m w = (Ok a, w1)" and "f a w1 = (Ok b, w2)"
  using assms by (auto simp: bindM_def split: prod.splits outcome.splits)

lemma bind_cases:
  assumes "bindM m f w = (r, w2)"
  obtains (val) a w1 where "m w = (Ok a, w1)" and "f a w1 = (r, w2)"
  | (err) e where "m w = (Err e, w2)" and "r = Err e"
  | (pan) p where "m w = (Panic p, w2)" and "r = Panic p"
  using assms by (auto simp: bindM_def split: prod.splits outcome.splits)

lemma try_cases:
  assumes "tryM m g w = (r, w2)"
  obtains (val) a w1 where "m w = (Ok a, w1)" and "g (Inr a) w1 = (r, w2)"
  | (err) e w1 where "m w = (Err e, w1)" and "g (Inl e) w1 = (r, w2)"
  | (pan) p where "m w = (Panic p, w2)" and "r = Panic p"
  using assms by (auto simp: tryM_def split: prod.splits outcome.splits)

lemma checked_cases:
  assumes "checked d m k w = (r, w2)"
  obtains (val) a w1 where "m w = (Ok a, w1)" and "k a w1 = (r, w2)"
  | (err) e where "m w = (Err e, w2)" and "r = Ok (d, Some e)"
  | (pan) p where "m w = (Panic p, w2)" and "r = Panic p"
  using assms unfolding checked_def by (auto elim!: try_cases simp: ret_def)

section \<open>The events of a run\<close>

text \<open>
  \<open>events m w\<close> are the calls a run of \<open>m\<close> from \<open>w\<close> makes. \<open>only P m\<close> says that every
  run extends the log, and by events with \<open>P\<close> only; there is one rule for each way to build
  a program, so that the bound of a whole controller follows by \<open>intro only_intros\<close>.
\<close>

definition events :: "'a prog \<Rightarrow> world \<Rightarrow> event list" where
  "events m w = drop (length (w_log w)) (w_log (snd (m w)))"

definition traces :: "(event list \<Rightarrow> bool) \<Rightarrow> 'a prog \<Rightarrow> bool" where
  "traces T m \<longleftrightarrow> (\<forall>w. \<exists>es. w_log (snd (m w)) = w_log w @ es \<and> T es)"

definition only :: "(event \<Rightarrow> bool) \<Rightarrow> 'a prog \<Rightarrow> bool" where
  "only P = traces (list_all P)"

text \<open>Properties of traces that composition preserves.\<close>

definition composes :: "(event list \<Rightarrow> bool) \<Rightarrow> bool" where
  "composes T \<longleftrightarrow> T [] \<and> (\<forall>es fs. T es \<longrightarrow> T fs \<longrightarrow> T (es @ fs))"

lemma composes_all [simp]: "composes (list_all P)"
  by (simp add: composes_def)

lemma traces_runD:
  "traces T m \<Longrightarrow> m w = (r, w') \<Longrightarrow> \<exists>es. w_log w' = w_log w @ es \<and> T es"
  unfolding traces_def by (metis snd_conv)

lemma tracesI:
  "(\<And>w r w'. m w = (r, w') \<Longrightarrow> \<exists>es. w_log w' = w_log w @ es \<and> T es) \<Longrightarrow> traces T m"
  unfolding traces_def by (metis prod.collapse)

lemma traces_events: "traces T m \<Longrightarrow> T (events m w)"
  unfolding traces_def events_def by (metis append_eq_conv_conj)

lemma traces_log: "traces T m \<Longrightarrow> w_log (snd (m w)) = w_log w @ events m w"
  unfolding traces_def events_def by (metis append_eq_conv_conj)

lemma traces_mono: "traces T m \<Longrightarrow> (\<And>es. T es \<Longrightarrow> T' es) \<Longrightarrow> traces T' m"
  unfolding traces_def by blast

lemma traces_bind:
  assumes "composes T" and "traces T m" and "\<And>a w w'. m w = (Ok a, w') \<Longrightarrow> traces T (f a)"
  shows "traces T (bindM m f)"
proof (rule tracesI)
  fix w r w2
  assume "bindM m f w = (r, w2)"
  then show "\<exists>es. w_log w2 = w_log w @ es \<and> T es"
  proof (cases rule: bind_cases)
    case (val a w1)
    from traces_runD [OF assms(2) val(1)] traces_runD [OF assms(3) [OF val(1)] val(2)] assms(1)
    show ?thesis unfolding composes_def by (metis append_assoc)
  qed (use traces_runD [OF assms(2)] in blast)+
qed

lemma traces_try:
  assumes "composes T" and "traces T m" and "\<And>r. traces T (g r)"
  shows "traces T (tryM m g)"
proof (rule tracesI)
  fix w r w2
  assume "tryM m g w = (r, w2)"
  then show "\<exists>es. w_log w2 = w_log w @ es \<and> T es"
  proof (cases rule: try_cases)
    case (val a w1)
    from traces_runD [OF assms(2) val(1)] traces_runD [OF assms(3) val(2)] assms(1)
    show ?thesis unfolding composes_def by (metis append_assoc)
  next
    case (err e w1)
    from traces_runD [OF assms(2) err(1)] traces_runD [OF assms(3) err(2)] assms(1)
    show ?thesis unfolding composes_def by (metis append_assoc)
  qed (use traces_runD [OF assms(2)] in blast)
qed

lemma traces_silent:
  assumes "composes T"
  shows "traces T (ret a)" "traces T (throw e)" "traces T (fromOutcome r)" "traces T getRmq"
    "traces T (modifyRmq f)" "traces T getResource" "traces T (setResource ob)"
    "traces T getOperationResult" "traces T (setOperationResult p)"
  using assms by (simp_all add: traces_def composes_def run_simps)

lemma traces_forEach:
  "composes T \<Longrightarrow> (\<And>x. x \<in> set xs \<Longrightarrow> traces T (f x)) \<Longrightarrow> traces T (forEach f xs)"
  by (induction xs) (auto intro!: traces_bind traces_silent)

lemma only_traces: "only P m \<Longrightarrow> (\<And>es. list_all P es \<Longrightarrow> T es) \<Longrightarrow> traces T m"
  unfolding only_def by (rule traces_mono)

lemmas only_runD = traces_runD [of "list_all P" for P, folded only_def]
lemmas only_events = traces_events [of "list_all P" for P, folded only_def]
lemmas only_log = traces_log [of "list_all P" for P, folded only_def]

lemma only_mono: "only P m \<Longrightarrow> (\<And>e. P e \<Longrightarrow> Q e) \<Longrightarrow> only Q m"
  unfolding only_def by (erule traces_mono) (metis list.pred_mono_strong)

lemmas only_basic [only_intros] = traces_silent [OF composes_all, folded only_def]
lemmas only_bind [only_intros] = traces_bind [OF composes_all, folded only_def]
lemmas only_try [only_intros] = traces_try [OF composes_all, folded only_def]
lemmas only_forEach [only_intros] = traces_forEach [OF composes_all, folded only_def]

lemma only_emit [only_intros]: "P ev \<Longrightarrow> only P (emit ev)"
  by (simp add: only_def traces_def run_simps)

lemma only_call [only_intros]: "(\<And>r. P (ev r)) \<Longrightarrow> only P (call ask ev)"
  by (simp add: only_def traces_def run_call)

lemma traces_wrap: "traces T m \<Longrightarrow> traces T (wrapM msg m)"
  by (auto simp: traces_def wrapM_def split_beta)

lemmas only_wrap [only_intros] = traces_wrap [of "list_all P" for P, folded only_def]

lemma traces_splits:
  "(b \<Longrightarrow> traces T m) \<Longrightarrow> (\<not> b \<Longrightarrow> traces T m') \<Longrightarrow> traces T (if b then m else m')"
  "(x = None \<Longrightarrow> traces T n) \<Longrightarrow> (\<And>y. x = Some y \<Longrightarrow> traces T (s y)) \<Longrightarrow> traces T (case_option n s x)"
  "(\<And>e. t = Inl e \<Longrightarrow> traces T (f e)) \<Longrightarrow> (\<And>y. t = Inr y \<Longrightarrow> traces T (g y)) \<Longrightarrow> traces T (case_sum f g t)"
  "(\<And>a b. p = (a, b) \<Longrightarrow> traces T (h a b)) \<Longrightarrow> traces T (case_prod h p)"
  by (simp, cases x, simp_all, cases t, simp_all, cases p, simp)

lemmas only_splits [only_intros] = traces_splits [of _ "list_all P" for P, folded only_def]
lemmas traces_intros = traces_bind traces_try traces_silent traces_forEach traces_wrap traces_splits

lemma only_checked [only_intros]:
  "only P m \<Longrightarrow> (\<And>a. only P (k a)) \<Longrightarrow> only P (checked d m k)"
  unfolding checked_def by (intro only_intros)

lemma only_when [only_intros]: "(b \<Longrightarrow> only P m) \<Longrightarrow> only P (whenM b m)"
  unfolding whenM_def by (intro only_intros)

lemma only_attempts: "only P f \<Longrightarrow> only P (attempts n retriable f)"
  by (induction n) (auto intro!: only_intros)

lemma only_onError [only_intros]: "documented S \<Longrightarrow> only P f \<Longrightarrow> only P (lib_onError S retriable f)"
  using documentedD(5) [of S retriable f] by (auto intro: only_attempts)

text \<open>\<open>guarded G P es\<close>: no \<open>P\<close> happens before the first \<open>G\<close>.\<close>

fun guarded :: "(event \<Rightarrow> bool) \<Rightarrow> (event \<Rightarrow> bool) \<Rightarrow> event list \<Rightarrow> bool" where
  "guarded G P [] = True"
| "guarded G P (e # es) = (if G e then True else \<not> P e \<and> guarded G P es)"

lemma guarded_append: "guarded G P (es @ fs) \<longleftrightarrow> guarded G P es \<and> (list_ex G es \<or> guarded G P fs)"
  by (induction es) auto

lemma guarded_never: "list_all (\<lambda>e. \<not> P e) es \<Longrightarrow> guarded G P es"
  by (induction es) auto

text \<open>
  Programs that touch nothing but the log. Retrying one appends the logs of its attempts: all
  but the last failed with a retriable error, and the last one gives the result.
\<close>

definition logs :: "'a prog \<Rightarrow> rabbitmqCluster \<Rightarrow> ('a outcome \<Rightarrow> event list \<Rightarrow> bool) \<Rightarrow> bool" where
  "logs m c T \<longleftrightarrow> (\<forall>w. w_rmq w = c \<longrightarrow>
     (\<exists>r es. m w = (r, w\<lparr>w_log := w_log w @ es\<rparr>) \<and> T r es))"

definition retried :: "(error \<Rightarrow> bool) \<Rightarrow> ('a outcome \<Rightarrow> event list \<Rightarrow> bool) \<Rightarrow> 'a outcome \<Rightarrow> event list list \<Rightarrow> bool" where
  "retried P T r ess \<longleftrightarrow> ess \<noteq> [] \<and> list_all (\<lambda>es. \<exists>e. P e \<and> T (Err e) es) (butlast ess) \<and> T r (last ess)"

lemma logsD: "logs m c T \<Longrightarrow> w_rmq w = c \<Longrightarrow> \<exists>r es. m w = (r, w\<lparr>w_log := w_log w @ es\<rparr>) \<and> T r es"
  by (simp add: logs_def)

lemma logs_attempts:
  assumes "logs f c T" and "w_rmq w = c"
  shows "\<exists>r ess. attempts n P f w = (r, w\<lparr>w_log := w_log w @ concat ess\<rparr>) \<and> retried P T r ess"
  using assms(2)
proof (induction n arbitrary: w)
  case 0
  from logsD [OF assms(1) 0] obtain r es where
    "f w = (r, w\<lparr>w_log := w_log w @ es\<rparr>)" "T r es" by blast
  then show ?case by (intro exI [of _ r] exI [of _ "[es]"]) (simp add: retried_def)
next
  case (Suc n)
  from logsD [OF assms(1) Suc.prems] obtain r es where
    f: "f w = (r, w\<lparr>w_log := w_log w @ es\<rparr>)" and T: "T r es" by blast
  show ?case
  proof (cases "\<exists>e. r = Err e \<and> P e")
    case True
    then obtain e where e: "r = Err e" "P e" by blast
    let ?w = "w\<lparr>w_log := w_log w @ es\<rparr>"
    from Suc.IH [of ?w] Suc.prems obtain r' ess where
      "attempts n P f ?w = (r', ?w\<lparr>w_log := w_log ?w @ concat ess\<rparr>)" "retried P T r' ess" by auto
    with f e T show ?thesis
      by (intro exI [of _ r'] exI [of _ "es # ess"]) (auto simp: tryM_def retried_def)
  next
    case False
    with f have "attempts (Suc n) P f w = (r, w\<lparr>w_log := w_log w @ es\<rparr>)"
      by (cases r) (auto simp: tryM_def run_simps)
    with T show ?thesis by (intro exI [of _ r] exI [of _ "[es]"]) (simp add: retried_def)
  qed
qed

lemma logs_onError:
  assumes "documented S" and "logs f c T" and "w_rmq w = c"
  shows "\<exists>r ess. lib_onError S P f w = (r, w\<lparr>w_log := w_log w @ concat ess\<rparr>) \<and> retried P T r ess"
proof -
  obtain n where "lib_onError S P f = attempts n P f" using documentedD(5) [OF assms(1)] by blast
  then show ?thesis using logs_attempts [OF assms(2,3)] by simp
qed

lemma retried_all: "retried P T r ess \<Longrightarrow> es \<in> set ess \<Longrightarrow> \<exists>r'. T r' es"
  unfolding retried_def list_all_iff
  by (metis append_butlast_last_id in_set_conv_decomp_last rotate1.simps(2) set_ConsD set_rotate1)

section \<open>Each call\<close>

text \<open>What each call does to the world, and the event it leaves.\<close>

lemma run_calls [run_simps]:
  "getCluster S k w = (fromResponse (api_getCluster S k (w_log w)),
     w\<lparr>w_log := w_log w @ [GetCluster k (api_getCluster S k (w_log w))]\<rparr>)"
  "getStatefulSet S k w = (fromResponse (api_getSts S k (w_log w)),
     w\<lparr>w_log := w_log w @ [GetSts k (api_getSts S k (w_log w))]\<rparr>)"
  "updateStatefulSet S s w = (fromResponse (api_updateSts S s (w_log w)),
     w\<lparr>w_log := w_log w @ [UpdateSts s (api_updateSts S s (w_log w))]\<rparr>)"
  "deleteStatefulSet S k opts w = (fromResponse (api_deleteSts S k opts (w_log w)),
     w\<lparr>w_log := w_log w @ [DeleteSts k opts (api_deleteSts S k opts (w_log w))]\<rparr>)"
  "getConfigMap S k w = (fromResponse (api_getConfigMap S k (w_log w)),
     w\<lparr>w_log := w_log w @ [GetConfigMap k (api_getConfigMap S k (w_log w))]\<rparr>)"
  "updateConfigMap S c w = (fromResponse (api_updateConfigMap S c (w_log w)),
     w\<lparr>w_log := w_log w @ [UpdateConfigMap c (api_updateConfigMap S c (w_log w))]\<rparr>)"
  "getSecret S k w = (fromResponse (api_getSecret S k (w_log w)),
     w\<lparr>w_log := w_log w @ [GetSecret k (api_getSecret S k (w_log w))]\<rparr>)"
  "getEndpoints S k w = (fromResponse (api_getEndpoints S k (w_log w)),
     w\<lparr>w_log := w_log w @ [GetEndpoints k (api_getEndpoints S k (w_log w))]\<rparr>)"
  "listPods S sel w = (fromResponse (api_listPods S sel (w_log w)),
     w\<lparr>w_log := w_log w @ [ListPods sel (api_listPods S sel (w_log w))]\<rparr>)"
  "updatePod S p w = (fromResponse (api_updatePod S p (w_log w)),
     w\<lparr>w_log := w_log w @ [UpdatePod p (api_updatePod S p (w_log w))]\<rparr>)"
  "getPVC S k w = (fromResponse (api_getPVC S k (w_log w)),
     w\<lparr>w_log := w_log w @ [GetPVC k (api_getPVC S k (w_log w))]\<rparr>)"
  "updatePVC S ns pv w = (fromResponse (api_updatePVC S ns pv (w_log w)),
     w\<lparr>w_log := w_log w @ [UpdatePVC ns pv (api_updatePVC S ns pv (w_log w))]\<rparr>)"
  "execIn S k con cmd w = (fromResponse (api_exec S k con cmd (w_log w)),
     w\<lparr>w_log := w_log w @ [Exec k con cmd (api_exec S k con cmd (w_log w))]\<rparr>)"
  "now S w = (Ok (api_now S (w_log w)), w\<lparr>w_log := w_log w @ [Clock (api_now S (w_log w))]\<rparr>)"
  "sleep t w = (Ok (), w\<lparr>w_log := w_log w @ [Sleep t]\<rparr>)"
  "record_event ty reason msg w = (Ok (), w\<lparr>w_log := w_log w @ [Recorded ty reason msg]\<rparr>)"
  by (simp_all add: run_call run_basic getCluster_def getStatefulSet_def updateStatefulSet_def deleteStatefulSet_def
      getConfigMap_def updateConfigMap_def getSecret_def getEndpoints_def listPods_def updatePod_def
      getPVC_def updatePVC_def execIn_def now_def sleep_def record_event_def)

lemma run_updates [run_simps]:
  "api_updateCluster S (w_rmq w) (w_log w) = Inr c \<Longrightarrow> updateCluster S w =
     (Ok (), w\<lparr>w_log := w_log w @ [UpdateCluster (w_rmq w) (Inr c)], w_rmq := c\<rparr>)"
  "api_updateCluster S (w_rmq w) (w_log w) = Inl (q, m) \<Longrightarrow> updateCluster S w =
     (Err (ApiError q m), w\<lparr>w_log := w_log w @ [UpdateCluster (w_rmq w) (Inl (q, m))]\<rparr>)"
  "api_updateStatus S (w_rmq w) (w_log w) = Inr c \<Longrightarrow> updateStatus S w =
     (Ok (), w\<lparr>w_log := w_log w @ [UpdateClusterStatus (w_rmq w) (Inr c)], w_rmq := c\<rparr>)"
  "api_updateStatus S (w_rmq w) (w_log w) = Inl (q, m) \<Longrightarrow> updateStatus S w =
     (Err (ApiError q m), w\<lparr>w_log := w_log w @ [UpdateClusterStatus (w_rmq w) (Inl (q, m))]\<rparr>)"
  by (simp_all add: updateCluster_def updateStatus_def bindM_def run_basic run_call)

lemma only_calls [only_intros]:
  "(\<And>r. P (GetCluster k r)) \<Longrightarrow> only P (getCluster S k)"
  "(\<And>c r. P (UpdateCluster c r)) \<Longrightarrow> only P (updateCluster S)"
  "(\<And>c r. P (UpdateClusterStatus c r)) \<Longrightarrow> only P (updateStatus S)"
  "(\<And>r. P (GetSts k r)) \<Longrightarrow> only P (getStatefulSet S k)"
  "(\<And>r. P (UpdateSts s r)) \<Longrightarrow> only P (updateStatefulSet S s)"
  "(\<And>r. P (DeleteSts k opts r)) \<Longrightarrow> only P (deleteStatefulSet S k opts)"
  "(\<And>r. P (GetConfigMap k r)) \<Longrightarrow> only P (getConfigMap S k)"
  "(\<And>r. P (UpdateConfigMap cm r)) \<Longrightarrow> only P (updateConfigMap S cm)"
  "(\<And>r. P (GetSecret k r)) \<Longrightarrow> only P (getSecret S k)"
  "(\<And>r. P (GetEndpoints k r)) \<Longrightarrow> only P (getEndpoints S k)"
  "(\<And>r. P (ListPods sel r)) \<Longrightarrow> only P (listPods S sel)"
  "(\<And>r. P (UpdatePod p r)) \<Longrightarrow> only P (updatePod S p)"
  "(\<And>r. P (GetPVC k r)) \<Longrightarrow> only P (getPVC S k)"
  "(\<And>r. P (UpdatePVC ns pv r)) \<Longrightarrow> only P (updatePVC S ns pv)"
  "(\<And>r. P (ReadObject i r)) \<Longrightarrow> only P (readObject S i)"
  "(\<And>r. P (CreateObject ob r)) \<Longrightarrow> only P (createObject S ob)"
  "(\<And>r. P (UpdateObject ob r)) \<Longrightarrow> only P (updateObject S ob)"
  "(\<And>r. P (Exec k con cmd r)) \<Longrightarrow> only P (execIn S k con cmd)"
  "(\<And>t. P (Clock t)) \<Longrightarrow> only P (now S)"
  "P (Sleep t) \<Longrightarrow> only P (sleep t)"
  "P (Recorded ty reason msg) \<Longrightarrow> only P (record_event ty reason msg)"
  unfolding getCluster_def updateCluster_def updateStatus_def getStatefulSet_def updateStatefulSet_def
    deleteStatefulSet_def getConfigMap_def updateConfigMap_def getSecret_def getEndpoints_def listPods_def
    updatePod_def getPVC_def updatePVC_def readObject_def createObject_def updateObject_def execIn_def
    now_def sleep_def record_event_def
  by (intro only_intros; auto split: sum.splits)+

lemma only_mutate:
  assumes "mutateResource f w = (Ok y, w')"
  obtains x where "f x = Ok y"
  using assms unfolding mutateResource_def
  by (auto elim!: bind_OkD simp: run_basic)

lemma only_createOrUpdate [only_intros]:
  assumes "documented S" and "\<And>i r. P (ReadObject i r)"
    and "\<And>x y r. f x = Ok y \<Longrightarrow> P (CreateObject y r)" and "\<And>x y r. f x = Ok y \<Longrightarrow> P (UpdateObject y r)"
  shows "only P (lib_createOrUpdate S f)"
  unfolding documentedD(6) [OF assms(1)] documentedCreateOrUpdate_def
proof (intro only_intros; (rule assms(2))?)
  show "\<And>y w w' r. mutateResource f w = (Ok y, w') \<Longrightarrow> P (CreateObject y r)"
    "\<And>y w w' r. mutateResource f w = (Ok y, w') \<Longrightarrow> P (UpdateObject y r)"
    using assms(3,4) by (blast elim: only_mutate)+
qed (simp_all add: mutateResource_def only_basic only_bind)

section \<open>Programs that change nothing but the log\<close>

definition logsOnly :: "'a prog \<Rightarrow> bool" where
  "logsOnly m \<longleftrightarrow> (\<forall>w. \<exists>es. snd (m w) = w\<lparr>w_log := w_log w @ es\<rparr>)"

lemma logsOnly_run: "logsOnly m \<Longrightarrow> m w = (r, w') \<Longrightarrow> \<exists>es. w' = w\<lparr>w_log := w_log w @ es\<rparr>"
  unfolding logsOnly_def by (metis snd_conv)

lemma logsOnly_pair: "logsOnly m \<Longrightarrow> \<exists>es. m w = (fst (m w), w\<lparr>w_log := w_log w @ es\<rparr>)"
  unfolding logsOnly_def by (metis prod.collapse)

lemma logsOnly_rmq: "logsOnly m \<Longrightarrow> m w = (r, w') \<Longrightarrow> w_rmq w' = w_rmq w"
  by (auto dest: logsOnly_run)

lemma logsOnlyI: "(\<And>w r w'. m w = (r, w') \<Longrightarrow> \<exists>es. w' = w\<lparr>w_log := w_log w @ es\<rparr>) \<Longrightarrow> logsOnly m"
  unfolding logsOnly_def by (metis prod.collapse)

lemma extend_trans:
  fixes w w1 w2 :: world
  shows "\<exists>es. w1 = w\<lparr>w_log := w_log w @ es\<rparr> \<Longrightarrow> \<exists>fs. w2 = w1\<lparr>w_log := w_log w1 @ fs\<rparr>
    \<Longrightarrow> \<exists>es. w2 = w\<lparr>w_log := w_log w @ es\<rparr>"
proof (elim exE)
  fix es fs
  assume "w1 = w\<lparr>w_log := w_log w @ es\<rparr>" and "w2 = w1\<lparr>w_log := w_log w1 @ fs\<rparr>"
  then have "w2 = w\<lparr>w_log := w_log w @ (es @ fs)\<rparr>" by simp
  then show ?thesis ..
qed

lemma logsOnly_basic [frame_intros]:
  "logsOnly (ret a)" "logsOnly (throw e)" "logsOnly (fromOutcome r)" "logsOnly getRmq" "logsOnly getResource"
  "logsOnly getOperationResult" "logsOnly (emit ev)" "logsOnly (call ask evf)"
  by (auto simp: logsOnly_def run_simps run_call intro: exI [of _ "[]"])

lemma logsOnly_bind [frame_intros]:
  assumes "logsOnly m" and "\<And>a. logsOnly (f a)"
  shows "logsOnly (bindM m f)"
proof (rule logsOnlyI)
  fix w r w2
  assume "bindM m f w = (r, w2)"
  then show "\<exists>es. w2 = w\<lparr>w_log := w_log w @ es\<rparr>"
  proof (cases rule: bind_cases)
    case (val a w1)
    from logsOnly_run [OF assms(1) val(1)] logsOnly_run [OF assms(2) val(2)]
    show ?thesis by (rule extend_trans)
  qed (use logsOnly_run [OF assms(1)] in blast)+
qed

lemma logsOnly_try [frame_intros]:
  assumes "logsOnly m" and "\<And>r. logsOnly (g r)"
  shows "logsOnly (tryM m g)"
proof (rule logsOnlyI)
  fix w r w2
  assume "tryM m g w = (r, w2)"
  then show "\<exists>es. w2 = w\<lparr>w_log := w_log w @ es\<rparr>"
  proof (cases rule: try_cases)
    case (val a w1)
    from logsOnly_run [OF assms(1) val(1)] logsOnly_run [OF assms(2) val(2)]
    show ?thesis by (rule extend_trans)
  next
    case (err e w1)
    from logsOnly_run [OF assms(1) err(1)] logsOnly_run [OF assms(2) err(2)]
    show ?thesis by (rule extend_trans)
  qed (use logsOnly_run [OF assms(1)] in blast)
qed

lemma logsOnly_wrap [frame_intros]: "logsOnly m \<Longrightarrow> logsOnly (wrapM msg m)"
  by (auto simp: logsOnly_def wrapM_def split_beta)

lemma logsOnly_splits [frame_intros]:
  "(b \<Longrightarrow> logsOnly m) \<Longrightarrow> (\<not> b \<Longrightarrow> logsOnly m') \<Longrightarrow> logsOnly (if b then m else m')"
  "(x = None \<Longrightarrow> logsOnly n) \<Longrightarrow> (\<And>y. x = Some y \<Longrightarrow> logsOnly (s y)) \<Longrightarrow> logsOnly (case_option n s x)"
  "(\<And>e. t = Inl e \<Longrightarrow> logsOnly (f e)) \<Longrightarrow> (\<And>y. t = Inr y \<Longrightarrow> logsOnly (g y)) \<Longrightarrow> logsOnly (case_sum f g t)"
  "(\<And>a b. p = (a, b) \<Longrightarrow> logsOnly (h a b)) \<Longrightarrow> logsOnly (case_prod h p)"
  by (simp, cases x, simp_all, cases t, simp_all, cases p, simp)

lemma logsOnly_checked [frame_intros]: "logsOnly m \<Longrightarrow> (\<And>a. logsOnly (k a)) \<Longrightarrow> logsOnly (checked d m k)"
  unfolding checked_def by (intro frame_intros)

lemma logsOnly_forEach [frame_intros]: "(\<And>x. logsOnly (f x)) \<Longrightarrow> logsOnly (forEach f xs)"
  by (induction xs) (auto intro!: frame_intros)

lemma logsOnly_onError [frame_intros]: "documented S \<Longrightarrow> logsOnly f \<Longrightarrow> logsOnly (lib_onError S P f)"
proof -
  have "logsOnly f \<Longrightarrow> logsOnly (attempts n P f)" for n
    by (induction n) (auto intro!: frame_intros)
  then show "documented S \<Longrightarrow> logsOnly f \<Longrightarrow> logsOnly (lib_onError S P f)"
    using documentedD(5) [of S P f] by auto
qed

lemma logsOnly_calls [frame_intros]:
  "logsOnly (getCluster S k)" "logsOnly (getStatefulSet S k)" "logsOnly (updateStatefulSet S s)"
  "logsOnly (deleteStatefulSet S k opts)" "logsOnly (getConfigMap S k)" "logsOnly (updateConfigMap S cm)"
  "logsOnly (getSecret S k)" "logsOnly (getEndpoints S k)" "logsOnly (listPods S sel)" "logsOnly (updatePod S p)"
  "logsOnly (getPVC S k)" "logsOnly (updatePVC S ns pv)" "logsOnly (execIn S k con cmd)" "logsOnly (now S)"
  "logsOnly (sleep t)" "logsOnly (record_event ty reason msg)"
  unfolding getCluster_def getStatefulSet_def updateStatefulSet_def deleteStatefulSet_def getConfigMap_def
    updateConfigMap_def getSecret_def getEndpoints_def listPods_def updatePod_def getPVC_def updatePVC_def
    execIn_def now_def sleep_def record_event_def
  by (intro frame_intros)+

end
