(* ===== verification/Api_Samples.thy ===== *)
theory Api_Samples
  imports World
begin

text \<open>
  A concrete outside for the witnesses: a server that finds nothing, accepts every write and
  returns what it was sent, a clock that stands at 100 seconds, and the libraries as they
  document themselves.
\<close>

definition absent :: "'a \<Rightarrow> event list \<Rightarrow> 'r response" where
  "absent k l = Inl (ReasonNotFound, ''not found'')"

definition sampleBase :: api where
  "sampleBase = \<lparr>
     api_now = (\<lambda>l. 100000000000),
     api_getCluster = absent,
     api_updateCluster = (\<lambda>c l. Inr c),
     api_updateStatus = (\<lambda>c l. Inr c),
     api_getSts = absent,
     api_updateSts = (\<lambda>s l. Inr s),
     api_deleteSts = (\<lambda>k opts l. Inr ()),
     api_getConfigMap = absent,
     api_updateConfigMap = (\<lambda>c l. Inr c),
     api_getSecret = absent,
     api_getEndpoints = absent,
     api_listPods = (\<lambda>sel l. Inr []),
     api_updatePod = (\<lambda>p l. Inr p),
     api_getPVC = absent,
     api_updatePVC = (\<lambda>ns p l. Inr p),
     api_readObject = absent,
     api_createObject = (\<lambda>ob l. Inr ob),
     api_updateObject = (\<lambda>ob l. Inr ob),
     api_exec = (\<lambda>k con cmd l. Inr ()),
     lib_containsFinalizer = (\<lambda>m f. f \<in> set (om_Finalizers m)),
     lib_addFinalizer = (\<lambda>m f. if f \<in> set (om_Finalizers m) then m
        else m\<lparr>om_Finalizers := om_Finalizers m @ [f]\<rparr>),
     lib_removeFinalizer = (\<lambda>m f. m\<lparr>om_Finalizers := removeAll f (om_Finalizers m)\<rparr>),
     lib_GetControllerOf = (\<lambda>m. List.find (\<lambda>r. or_Controller r = Some True) (om_OwnerReferences m)),
     lib_parseSelector = (\<lambda>s. None),
     lib_formatTime = (\<lambda>t. itoa t),
     lib_parseTime = (\<lambda>s. Inr (int (natVal s))),
     lib_onError = attempts 4,
     lib_createOrUpdate = (\<lambda>f. ret ())\<rparr>"

text \<open>A server is completed by the documented \<^verbatim>\<open>CreateOrUpdate\<close> on its own answers.\<close>

definition withLibraries :: "api \<Rightarrow> api" where
  "withLibraries S = S\<lparr>
     lib_containsFinalizer := lib_containsFinalizer sampleBase,
     lib_addFinalizer := lib_addFinalizer sampleBase,
     lib_removeFinalizer := lib_removeFinalizer sampleBase,
     lib_GetControllerOf := lib_GetControllerOf sampleBase,
     lib_onError := lib_onError sampleBase,
     lib_createOrUpdate := documentedCreateOrUpdate S\<rparr>"

definition sampleApi :: api where
  "sampleApi = withLibraries sampleBase"

definition sampleWorld :: world where
  "sampleWorld = \<lparr>w_log = [], w_rmq = sampleCluster, w_resource = OService (HeadlessService_Build sampleCluster),
     w_operationResult = OperationResultNone\<rparr>"

lemma documented_withLibraries: "documented (withLibraries S)"
proof -
  have "readObject (withLibraries S) = readObject S" "createObject (withLibraries S) = createObject S"
    "updateObject (withLibraries S) = updateObject S"
    by (simp_all add: fun_eq_iff readObject_def createObject_def updateObject_def withLibraries_def)
  then have "documentedCreateOrUpdate (withLibraries S) f = documentedCreateOrUpdate S f" for f
    unfolding documentedCreateOrUpdate_def by (simp cong: if_cong)
  then show ?thesis
    unfolding documented_def by (simp add: withLibraries_def sampleBase_def) blast
qed

lemma documented_sample: "documented sampleApi"
  unfolding sampleApi_def by (rule documented_withLibraries)

lemma sampleWorld_simps [simp]: "w_log sampleWorld = []" "w_rmq sampleWorld = sampleCluster"
  by (simp_all add: sampleWorld_def)

end
