(* ===== verification/Scaling.thy ===== *)
theory Scaling
  imports Api_Samples
begin

text \<open>
  \<^verbatim>\<open>internal/scaling/scaling.go\<close>: growing the volumes of a cluster. A StatefulSet's claim
  templates cannot be changed, so the scaler deletes the StatefulSet (orphaning its pods), waits
  until it is gone, and raises the storage request of every volume claim that is too small.

  The abstract view is a store of volume claims that the successful updates in the log change;
  \<open>scale_refines\<close> says that against such a store a scaling that succeeds is one abstract step.
\<close>

section \<open>The operations\<close>

definition getSts :: "api \<Rightarrow> rabbitmqCluster \<Rightarrow> statefulSet prog" where
  "getSts S rmq = getStatefulSet S (rc_Namespace rmq, ChildResourceName rmq ''server'')"

abbreviation storage :: "persistentVolumeClaim \<Rightarrow> quantity" where
  "storage pvc \<equiv> mindex 0 (pvc_Requests pvc) ''storage''"

fun capacityLoop :: "persistentVolumeClaim list \<Rightarrow> quantity" where
  "capacityLoop [] = 0"
| "capacityLoop (t # ts) = (if om_Name (pvc_Meta t) = ''persistence'' then storage t else capacityLoop ts)"

definition existingCapacity :: "api \<Rightarrow> rabbitmqCluster \<Rightarrow> quantity prog" where
  "existingCapacity S rmq = bindM (getSts S rmq) (\<lambda>sts. ret (capacityLoop (st_VolumeClaimTemplates sts)))"

definition replicasOrOne :: "rabbitmqCluster \<Rightarrow> int" where
  "replicasOrOne rmq = (case spec_Replicas (rc_Spec rmq) of None \<Rightarrow> 1 | Some n \<Rightarrow> n)"

fun getPVCLoop :: "api \<Rightarrow> rabbitmqCluster \<Rightarrow> int list \<Rightarrow> persistentVolumeClaim list
    \<Rightarrow> persistentVolumeClaim list prog" where
  "getPVCLoop S rmq [] pvcs = ret pvcs"
| "getPVCLoop S rmq (i # is) pvcs =
     tryM (getPVC S (rc_Namespace rmq, PVCName rmq i)) (case_sum
       (\<lambda>err. if isNotFound err then getPVCLoop S rmq is pvcs
              else throw (Wrap ''failed to get PVC from Kubernetes API'' err))
       (\<lambda>pvc. getPVCLoop S rmq is (pvcs @ [pvc])))"

definition getClusterPVCs :: "api \<Rightarrow> rabbitmqCluster \<Rightarrow> persistentVolumeClaim list prog" where
  "getClusterPVCs S rmq = getPVCLoop S rmq (map int [0..<nat (replicasOrOne rmq)]) []"

definition pvcsNeedingScaling :: "persistentVolumeClaim list \<Rightarrow> quantity \<Rightarrow> persistentVolumeClaim list" where
  "pvcsNeedingScaling existingPVCs desired = filter (\<lambda>pvc. qCmp (storage pvc) desired = -1) existingPVCs"

fun retryLoop :: "nat \<Rightarrow> int \<Rightarrow> bool prog \<Rightarrow> bool prog" where
  "retryLoop 0 interval f = ret False"
| "retryLoop (Suc n) interval f =
     bindM f (\<lambda>ok. if ok then ret True else bindM (sleep interval) (\<lambda>_. retryLoop n interval f))"

definition retryWithInterval :: "string \<Rightarrow> nat \<Rightarrow> int \<Rightarrow> bool prog \<Rightarrow> unit prog" where
  "retryWithInterval msg retry interval f =
     bindM (retryLoop retry interval f) (\<lambda>ok. if ok then ret ()
       else throw (ErrMsg (''failed to '' @ msg @ '' after '' @ natDec retry @ '' retries'')))"

definition orphan :: deleteOptions where
  "orphan = \<lparr>do_PreconditionUID = None, do_PropagationPolicy = Some ''Orphan''\<rparr>"

definition stsGone :: "api \<Rightarrow> rabbitmqCluster \<Rightarrow> bool prog" where
  "stsGone S rmq = tryM (getSts S rmq) (\<lambda>r. ret (case_sum isNotFound (\<lambda>_. False) r))"

definition deleteAndWait :: "api \<Rightarrow> rabbitmqCluster \<Rightarrow> statefulSet \<Rightarrow> unit prog" where
  "deleteAndWait S rmq sts =
     bindM (wrapM (''failed to delete statefulSet '' @ om_Name (st_Meta sts))
       (deleteStatefulSet S (om_Namespace (st_Meta sts), om_Name (st_Meta sts)) orphan)) (\<lambda>_.
     wrapM (''statefulSet not deleting after 30 seconds '' @ om_Name (st_Meta sts))
       (retryWithInterval ''delete statefulSet'' 10 3 (stsGone S rmq)))"

definition deleteSts :: "api \<Rightarrow> rabbitmqCluster \<Rightarrow> unit prog" where
  "deleteSts S rmq =
     tryM (getSts S rmq) (case_sum
       (\<lambda>err. if isNotFound err then ret ()
              else throw (Wrap ''failed to get statefulset from Kubernetes API'' err))
       (deleteAndWait S rmq))"

definition raise :: "quantity \<Rightarrow> persistentVolumeClaim \<Rightarrow> persistentVolumeClaim" where
  "raise desired pvc = pvc\<lparr>pvc_Requests := mput (pvc_Requests pvc) ''storage'' desired\<rparr>"

text \<open>The write to \<^verbatim>\<open>Requests\<close> panics when the map is nil.\<close>

definition scaleUpPVC :: "api \<Rightarrow> rabbitmqCluster \<Rightarrow> quantity \<Rightarrow> persistentVolumeClaim \<Rightarrow> unit prog" where
  "scaleUpPVC S rmq desired pvc =
     bindM (wrapM ''failed to get PVC from Kubernetes API''
              (getPVC S (om_Namespace (pvc_Meta pvc), om_Name (pvc_Meta pvc)))) (\<lambda>pvc.
     bindM (fromOutcome (if pvc_Requests pvc = None then Panic ''assignment to entry in nil map'' else Ok ())) (\<lambda>_.
     bindM (wrapM (''failed to update PersistentVolumeClaim '' @ om_Name (pvc_Meta pvc))
              (updatePVC S (rc_Namespace rmq) (raise desired pvc))) (\<lambda>_. ret ())))"

definition scaleUpPVCs :: "api \<Rightarrow> rabbitmqCluster \<Rightarrow> persistentVolumeClaim list \<Rightarrow> quantity \<Rightarrow> unit prog" where
  "scaleUpPVCs S rmq pvcs desired = forEach (scaleUpPVC S rmq desired) pvcs"

text \<open>The part of \<^verbatim>\<open>Scale\<close> after its two refusals.\<close>

definition growPVCs :: "api \<Rightarrow> rabbitmqCluster \<Rightarrow> quantity \<Rightarrow> unit prog" where
  "growPVCs S rmq desired =
     bindM (getClusterPVCs S rmq) (\<lambda>existingPVCs.
       (let pvcsToBeScaled = pvcsNeedingScaling existingPVCs desired
        in if length pvcsToBeScaled = 0 then ret ()
           else bindM (wrapM ''failed to delete Statefulset from Kubernetes API'' (deleteSts S rmq)) (\<lambda>_.
                  scaleUpPVCs S rmq pvcsToBeScaled desired)))"

definition Scale :: "api \<Rightarrow> rabbitmqCluster \<Rightarrow> quantity \<Rightarrow> unit prog" where
  "Scale S rmq desired =
     tryM (existingCapacity S rmq) (case_sum
       (\<lambda>err. if isNotFound err then growPVCs S rmq desired
              else throw (Wrap ''failed to determine existing STS capactiy'' err))
       (\<lambda>existing.
          if qCmp existing 0 = 0 \<and> qCmp desired 0 \<noteq> 0
          then throw (ErrMsg ''changing from ephemeral to persistent storage is not supported'')
          else if qCmp existing desired = 1
          then throw (ErrMsg ''shrinking persistent volumes is not supported'')
          else growPVCs S rmq desired))"

section \<open>Waiting for the StatefulSet to go\<close>

definition stsKey :: "rabbitmqCluster \<Rightarrow> nskey" where
  "stsKey rmq = (rc_Namespace rmq, ChildResourceName rmq ''server'')"

definition notFound :: "'r response \<Rightarrow> bool" where
  "notFound r = (case r of Inl (q, m) \<Rightarrow> q = ReasonNotFound | Inr x \<Rightarrow> False)"

text \<open>The answer by which the scaler knows the StatefulSet to be gone.\<close>

definition goneAnswer :: "rabbitmqCluster \<Rightarrow> event \<Rightarrow> bool" where
  "goneAnswer rmq e = (case e of GetSts k r \<Rightarrow> k = stsKey rmq \<and> notFound r | _ \<Rightarrow> False)"

definition isSleep :: "event \<Rightarrow> bool" where
  "isSleep e = (case e of Sleep s \<Rightarrow> True | _ \<Rightarrow> False)"

lemma notFound_simps [simp]: "notFound (Inl (q, m)) \<longleftrightarrow> q = ReasonNotFound" "\<not> notFound (Inr x)"
  by (simp_all add: notFound_def)

lemma goneAnswer_simps [simp]:
  "goneAnswer c (GetSts k r) \<longleftrightarrow> k = stsKey c \<and> notFound r" "\<not> goneAnswer c (Sleep n)"
  "\<not> goneAnswer c (DeleteSts k opts q)"
  by (simp_all add: goneAnswer_def)

lemma isSleep_simps [simp]: "isSleep (Sleep n)" "\<not> isSleep (GetSts k r)" "\<not> isSleep (DeleteSts k opts q)"
  by (simp_all add: isSleep_def)

lemma run_stsGone:
  "stsGone S c w = (Ok (notFound (api_getSts S (stsKey c) (w_log w))),
     w\<lparr>w_log := w_log w @ [GetSts (stsKey c) (api_getSts S (stsKey c) (w_log w))]\<rparr>)"
proof (cases "api_getSts S (stsKey c) (w_log w)")
  case (Inl q)
  then show ?thesis
    by (cases q) (simp add: stsGone_def getSts_def tryM_def run_simps stsKey_def)
next
  case (Inr sts)
  then show ?thesis by (simp add: stsGone_def getSts_def tryM_def run_simps stsKey_def)
qed

text \<open>
  Polling asks and sleeps in turn. It says yes exactly when its last question was answered so,
  and no only after asking as often as it was told to.
\<close>

lemma retryLoop_polls:
  "\<exists>b es. retryLoop n t (stsGone S c) w = (Ok b, w\<lparr>w_log := w_log w @ es\<rparr>)
     \<and> length (filter isSleep es) \<le> n \<and> length es \<le> 2 * n
     \<and> (if b then es \<noteq> [] \<and> goneAnswer c (last es)
        else length es = 2 * n \<and> list_all (\<lambda>e. \<not> goneAnswer c e) es)"
proof (induction n arbitrary: w)
  case 0
  show ?case by (rule exI [of _ False], rule exI [of _ "[]"]) (simp add: run_simps)
next
  case (Suc n)
  let ?r = "api_getSts S (stsKey c) (w_log w)"
  let ?w = "w\<lparr>w_log := (w_log w @ [GetSts (stsKey c) ?r]) @ [Sleep t]\<rparr>"
  note first = run_stsGone [of S c w]
  show ?case
  proof (cases "notFound ?r")
    case True
    with first have "retryLoop (Suc n) t (stsGone S c) w
        = (Ok True, w\<lparr>w_log := w_log w @ [GetSts (stsKey c) ?r]\<rparr>)"
      by (simp add: run_simps)
    with True show ?thesis by (intro exI [of _ True] exI [of _ "[GetSts (stsKey c) ?r]"]) simp
  next
    case False
    with first have step: "retryLoop (Suc n) t (stsGone S c) w = retryLoop n t (stsGone S c) ?w"
      by (simp add: run_simps)
    from Suc.IH [of ?w] obtain b es where
      "retryLoop n t (stsGone S c) ?w = (Ok b, ?w\<lparr>w_log := w_log ?w @ es\<rparr>)"
      and "length (filter isSleep es) \<le> n" and "length es \<le> 2 * n"
      and "if b then es \<noteq> [] \<and> goneAnswer c (last es)
           else length es = 2 * n \<and> list_all (\<lambda>e. \<not> goneAnswer c e) es" by blast
    with step False show ?thesis
      by (intro exI [of _ b] exI [of _ "GetSts (stsKey c) ?r # Sleep t # es"]) (simp split: if_splits)
  qed
qed

lemma retryWithInterval_polls:
  "\<exists>r es. retryWithInterval msg n t (stsGone S c) w = (r, w\<lparr>w_log := w_log w @ es\<rparr>)
     \<and> length (filter isSleep es) \<le> n \<and> length es \<le> 2 * n
     \<and> (r = Ok () \<and> es \<noteq> [] \<and> goneAnswer c (last es)
        \<or> (\<exists>e. r = Err e) \<and> length es = 2 * n \<and> list_all (\<lambda>e. \<not> goneAnswer c e) es)"
proof -
  from retryLoop_polls [of n t S c w] obtain b es where
    run: "retryLoop n t (stsGone S c) w = (Ok b, w\<lparr>w_log := w_log w @ es\<rparr>)"
    and "length (filter isSleep es) \<le> n" "length es \<le> 2 * n"
    and "if b then es \<noteq> [] \<and> goneAnswer c (last es)
         else length es = 2 * n \<and> list_all (\<lambda>e. \<not> goneAnswer c e) es" by blast
  moreover have "retryWithInterval msg n t (stsGone S c) w =
    ((if b then Ok () else Err (ErrMsg (''failed to '' @ msg @ '' after '' @ natDec n @ '' retries''))),
     w\<lparr>w_log := w_log w @ es\<rparr>)"
    by (simp add: retryWithInterval_def run run_simps)
  ultimately show ?thesis by (cases b) auto
qed

lemma wrapM_run: "m w = (r, w') \<Longrightarrow> wrapM msg m w = (wrapErr msg r, w')"
  by (simp add: wrapM_def)

definition isDelete :: "event \<Rightarrow> bool" where
  "isDelete e = (case e of DeleteSts k opts r \<Rightarrow> True | _ \<Rightarrow> False)"

lemma isDelete_simps [simp]:
  "isDelete (DeleteSts k opts q)" "\<not> isDelete (GetSts k r)" "\<not> isDelete (Sleep n)"
  by (simp_all add: isDelete_def)

lemma stsGone_only: "only (\<lambda>e. \<not> isDelete e) (stsGone S c)"
  unfolding stsGone_def getSts_def by (intro only_intros) simp

lemma retryLoop_only: "only P f \<Longrightarrow> P (Sleep t) \<Longrightarrow> only P (retryLoop n t f)"
  by (induction n) (auto intro!: only_intros)

lemma retryWithInterval_only [only_intros]:
  "only P f \<Longrightarrow> P (Sleep t) \<Longrightarrow> only P (retryWithInterval msg n t f)"
  unfolding retryWithInterval_def by (intro only_intros retryLoop_only)

lemma no_deletes:
  "list_all (\<lambda>e. \<not> isDelete e) es \<Longrightarrow> length (filter isDelete es) = 0"
  by (induction es) simp_all

text \<open>What a part of \<open>deleteSts\<close> may leave: its calls, bounded, and the answer it ended on.\<close>

definition endsGone :: "rabbitmqCluster \<Rightarrow> unit outcome \<Rightarrow> event list \<Rightarrow> bool" where
  "endsGone c r es \<longleftrightarrow> es \<noteq> [] \<and> (r = Ok () \<longleftrightarrow> goneAnswer c (last es)) \<and> (\<forall>p. r \<noteq> Panic p)"

lemma endsGone_wrap: "endsGone c r es \<Longrightarrow> endsGone c (wrapErr msg r) (es' @ es)"
  by (cases r) (auto simp: endsGone_def)

lemma retry_endsGone:
  "\<exists>r es. retryWithInterval msg (Suc n) t (stsGone S c) w = (r, w\<lparr>w_log := w_log w @ es\<rparr>)
     \<and> endsGone c r es \<and> length es \<le> 2 * Suc n \<and> length (filter isSleep es) \<le> Suc n
     \<and> length (filter isDelete es) = 0"
proof -
  obtain r es where run: "retryWithInterval msg (Suc n) t (stsGone S c) w = (r, w\<lparr>w_log := w_log w @ es\<rparr>)"
    and len: "length (filter isSleep es) \<le> Suc n" "length es \<le> 2 * Suc n"
    and res: "r = Ok () \<and> es \<noteq> [] \<and> goneAnswer c (last es)
      \<or> (\<exists>e. r = Err e) \<and> length es = 2 * Suc n \<and> list_all (\<lambda>e. \<not> goneAnswer c e) es"
    using retryWithInterval_polls [of msg "Suc n" t S c w] by blast
  note bound = retryWithInterval_only [OF stsGone_only, of t msg "Suc n" S c]
  have "list_all (\<lambda>e. \<not> isDelete e) es"
    using only_log [OF bound, of w] only_events [OF bound, of w] run by simp
  moreover from res have ne: "es \<noteq> []" by auto
  with res last_in_set [OF ne] have "endsGone c r es" by (auto simp: endsGone_def list_all_iff)
  ultimately show ?thesis using run len no_deletes by blast
qed

lemma deleteAndWait_ends:
  "\<exists>r es. deleteAndWait S c sts w = (r, w\<lparr>w_log := w_log w @ es\<rparr>)
     \<and> endsGone c r es \<and> length es \<le> 21 \<and> length (filter isSleep es) \<le> 10
     \<and> length (filter isDelete es) \<le> 1"
proof -
  let ?key = "(om_Namespace (st_Meta sts), om_Name (st_Meta sts))"
  let ?d = "api_deleteSts S ?key orphan (w_log w)"
  let ?w = "w\<lparr>w_log := w_log w @ [DeleteSts ?key orphan ?d]\<rparr>"
  have del: "deleteStatefulSet S ?key orphan w = (fromResponse ?d, ?w)" by (simp add: run_simps)
  show ?thesis
  proof (cases ?d)
    case (Inl p)
    obtain q m where "p = (q, m)" by (cases p)
    with Inl del obtain e where "deleteAndWait S c sts w = (Err e, ?w)"
      by (simp add: deleteAndWait_def bindM_def wrapM_def)
    then show ?thesis by (intro exI conjI) (assumption, simp_all add: endsGone_def)
  next
    case (Inr u)
    let ?msg = "''statefulSet not deleting after 30 seconds '' @ om_Name (st_Meta sts)"
    obtain r es where wait: "retryWithInterval ''delete statefulSet'' (Suc 9) 3 (stsGone S c) ?w
          = (r, ?w\<lparr>w_log := w_log ?w @ es\<rparr>)"
      and res: "endsGone c r es" "length es \<le> 2 * Suc 9" "length (filter isSleep es) \<le> Suc 9"
        "length (filter isDelete es) = 0"
      using retry_endsGone [of "''delete statefulSet''" 9 3 S c ?w] by blast
    have "deleteAndWait S c sts w
        = (wrapErr ?msg r, w\<lparr>w_log := w_log w @ (DeleteSts ?key orphan ?d # es)\<rparr>)"
      using Inr del wait by (simp add: deleteAndWait_def bindM_def wrapM_def)
    moreover have "endsGone c (wrapErr ?msg r) (DeleteSts ?key orphan ?d # es)"
      using endsGone_wrap [OF res(1), of ?msg "[DeleteSts ?key orphan ?d]"] by simp
    ultimately show ?thesis using res(2-4)
      by (intro exI [of _ "wrapErr ?msg r"] exI [of _ "DeleteSts ?key orphan ?d # es"] conjI) simp_all
  qed
qed

lemma deleteSts_bounded:
  "\<exists>r es. deleteSts S c w = (r, w\<lparr>w_log := w_log w @ es\<rparr>)
     \<and> es \<noteq> [] \<and> (r = Ok () \<longleftrightarrow> goneAnswer c (last es)) \<and> (\<forall>p. r \<noteq> Panic p)
     \<and> length es \<le> 22 \<and> length (filter isSleep es) \<le> 10 \<and> length (filter isDelete es) \<le> 1"
proof -
  let ?q = "api_getSts S (stsKey c) (w_log w)"
  let ?w = "w\<lparr>w_log := w_log w @ [GetSts (stsKey c) ?q]\<rparr>"
  have get: "getSts S c w = (fromResponse ?q, ?w)" by (simp add: getSts_def stsKey_def run_simps)
  show ?thesis
  proof (cases ?q)
    case (Inl p)
    obtain q m where p: "p = (q, m)" by (cases p)
    with Inl get have "deleteSts S c w = (if q = ReasonNotFound then Ok () else
        Err (Wrap ''failed to get statefulset from Kubernetes API'' (ApiError q m)), ?w)"
      by (simp add: deleteSts_def tryM_def run_simps)
    with Inl p show ?thesis by (intro exI conjI) (assumption, simp_all)
  next
    case (Inr sts)
    obtain r es where "deleteAndWait S c sts ?w = (r, ?w\<lparr>w_log := w_log ?w @ es\<rparr>)"
      and "endsGone c r es" "length es \<le> 21" "length (filter isSleep es) \<le> 10"
        "length (filter isDelete es) \<le> 1"
      using deleteAndWait_ends [of S c sts ?w] by blast
    moreover from Inr get have "deleteSts S c w = deleteAndWait S c sts ?w"
      by (simp add: deleteSts_def tryM_def)
    ultimately show ?thesis
      by (intro exI [of _ r] exI [of _ "GetSts (stsKey c) ?q # es"] conjI) (simp_all add: endsGone_def)
  qed
qed

text \<open>
  C27. Deleting the StatefulSet always comes to an end: it makes at most 22 calls, of which one at
  most deletes and at most ten sleep, and it reports success exactly when the last thing it
  heard from the server is that the StatefulSet does not exist.
\<close>

theorem deleteSts_ends:
  "\<exists>r es. deleteSts S c w = (r, w\<lparr>w_log := w_log w @ es\<rparr>)
     \<and> es \<noteq> [] \<and> (r = Ok () \<longleftrightarrow> goneAnswer c (last es)) \<and> (\<forall>p. r \<noteq> Panic p)
     \<and> length es \<le> 22 \<and> length (filter isSleep es) \<le> 10 \<and> length (filter isDelete es) \<le> 1"
  by (rule deleteSts_bounded)

section \<open>The volume claims as a store\<close>

text \<open>
  The abstract state: the volume claims by namespace and name. A successful update in the log
  replaces one; nothing else changes the store (deleting a StatefulSet orphans its claims). A
  server serves the store \<open>st\<close> when it answers every read of a claim from it.
\<close>

type_synonym pvcStore = "nskey \<Rightarrow> persistentVolumeClaim option"

definition storeStep :: "pvcStore \<Rightarrow> event \<Rightarrow> pvcStore" where
  "storeStep st e = (case e of
      UpdatePVC ns p r \<Rightarrow> (case r of Inl q \<Rightarrow> st | Inr p' \<Rightarrow> st((ns, om_Name (pvc_Meta p)) \<mapsto> p))
    | _ \<Rightarrow> st)"

definition storeAfter :: "pvcStore \<Rightarrow> event list \<Rightarrow> pvcStore" where
  "storeAfter st es = foldl storeStep st es"

definition servesStore :: "api \<Rightarrow> pvcStore \<Rightarrow> bool" where
  "servesStore S st \<longleftrightarrow> (\<forall>k l. api_getPVC S k l =
     (case storeAfter st l k of None \<Rightarrow> Inl (ReasonNotFound, ''not found'') | Some p \<Rightarrow> Inr p))"

definition wellNamed :: "pvcStore \<Rightarrow> bool" where
  "wellNamed st \<longleftrightarrow> (\<forall>k p. st k = Some p \<longrightarrow> metaKey (pvc_Meta p) = k)"

text \<open>The abstract operation: raise every claim in \<open>K\<close> that is smaller than desired.\<close>

definition grow :: "quantity \<Rightarrow> nskey set \<Rightarrow> pvcStore \<Rightarrow> pvcStore" where
  "grow desired K st k = (case st k of None \<Rightarrow> None
     | Some p \<Rightarrow> Some (if k \<in> K \<and> storage p < desired then raise desired p else p))"

definition claimKeys :: "rabbitmqCluster \<Rightarrow> nskey set" where
  "claimKeys c = (\<lambda>i. (rc_Namespace c, PVCName c (int i))) ` {..<nat (replicasOrOne c)}"

definition isPVCUpdate :: "event \<Rightarrow> bool" where
  "isPVCUpdate e = (case e of UpdatePVC ns p r \<Rightarrow> True | _ \<Rightarrow> False)"

lemma isPVCUpdate_simps [simp]:
  "isPVCUpdate (UpdatePVC ns p r)" "\<not> isPVCUpdate (GetPVC k q)" "\<not> isPVCUpdate (GetSts k u)"
  "\<not> isPVCUpdate (DeleteSts k opts v)" "\<not> isPVCUpdate (Sleep n)"
  by (simp_all add: isPVCUpdate_def)

lemma storeAfter_simps [simp]:
  "storeAfter st [] = st" "storeAfter st (es @ fs) = storeAfter (storeAfter st es) fs"
  "storeAfter st (e # es) = storeAfter (storeStep st e) es"
  by (simp_all add: storeAfter_def)

lemma storeStep_simps [simp]:
  "storeStep st (UpdatePVC ns p (Inr p')) = st((ns, om_Name (pvc_Meta p)) \<mapsto> p)"
  "storeStep st (UpdatePVC ns p (Inl q)) = st" "storeStep st (GetPVC k r) = st"
  by (simp_all add: storeStep_def)

lemma storeStep_other: "\<not> isPVCUpdate e \<Longrightarrow> storeStep st e = st"
  by (cases e) (simp_all add: storeStep_def)

lemma storeAfter_other: "list_all (\<lambda>e. \<not> isPVCUpdate e) es \<Longrightarrow> storeAfter st es = st"
  by (induction es) (simp_all add: storeStep_other)

lemma quiet_store:
  assumes "only (\<lambda>e. \<not> isPVCUpdate e) m" and "m w = (r, w')"
  shows "storeAfter st (w_log w') = storeAfter st (w_log w)"
  using only_runD [OF assms] storeAfter_other by fastforce

lemma raise_simps [simp]:
  "pvc_Meta (raise d p) = pvc_Meta p" "raise d (raise d p) = raise d p"
  by (cases "pvc_Requests p"; simp add: raise_def)+

lemma storage_raise: "pvc_Requests p \<noteq> None \<Longrightarrow> storage (raise d p) = d"
  by (simp add: raise_def mindex_def mget_mput)

lemma grow_empty [simp]: "grow d {} st = st"
  by (rule ext) (simp add: grow_def split: option.splits)

text \<open>Reading the claims of the cluster.\<close>

definition readClaims :: "pvcStore \<Rightarrow> rabbitmqCluster \<Rightarrow> int list \<Rightarrow> persistentVolumeClaim list" where
  "readClaims st c is = List.map_filter (\<lambda>i. st (rc_Namespace c, PVCName c i)) is"

lemma served: "servesStore S st \<Longrightarrow> api_getPVC S k l =
    (case storeAfter st l k of None \<Rightarrow> Inl (ReasonNotFound, ''not found'') | Some p \<Rightarrow> Inr p)"
  by (cases k) (simp add: servesStore_def)

lemma run_getPVC:
  assumes "servesStore S st"
  shows "getPVC S k w = (case storeAfter st (w_log w) k of
      None \<Rightarrow> (Err (ApiError ReasonNotFound ''not found''),
               w\<lparr>w_log := w_log w @ [GetPVC k (Inl (ReasonNotFound, ''not found''))]\<rparr>)
    | Some p \<Rightarrow> (Ok p, w\<lparr>w_log := w_log w @ [GetPVC k (Inr p)]\<rparr>))"
  by (simp add: run_simps served [OF assms] split: option.splits)

lemma getPVCLoop_reads:
  assumes "servesStore S st"
  shows "\<exists>w'. getPVCLoop S c is acc w = (Ok (acc @ readClaims (storeAfter st (w_log w)) c is), w')
     \<and> storeAfter st (w_log w') = storeAfter st (w_log w)"
proof (induction "is" arbitrary: acc w)
  case Nil
  show ?case by (simp add: run_simps readClaims_def)
next
  case (Cons i "is")
  let ?k = "(rc_Namespace c, PVCName c i)"
  show ?case
  proof (cases "storeAfter st (w_log w) ?k")
    case None
    let ?w = "w\<lparr>w_log := w_log w @ [GetPVC ?k (Inl (ReasonNotFound, ''not found''))]\<rparr>"
    from None have "getPVCLoop S c (i # is) acc w = getPVCLoop S c is acc ?w"
      by (simp add: tryM_def run_getPVC [OF assms])
    with None Cons.IH [of acc ?w] show ?thesis by (simp add: readClaims_def)
  next
    case (Some p)
    let ?w = "w\<lparr>w_log := w_log w @ [GetPVC ?k (Inr p)]\<rparr>"
    from Some have "getPVCLoop S c (i # is) acc w = getPVCLoop S c is (acc @ [p]) ?w"
      by (simp add: tryM_def run_getPVC [OF assms])
    with Some Cons.IH [of "acc @ [p]" ?w] show ?thesis by (simp add: readClaims_def)
  qed
qed

text \<open>Writing the claims back, one by one; a failure leaves a part of them raised.\<close>

lemma scaleUpPVC_step:
  assumes serves: "servesStore S st" and run: "scaleUpPVC S c d p w = (r, w')"
    and ns: "om_Namespace (pvc_Meta p) = rc_Namespace c"
    and named: "wellNamed (storeAfter st (w_log w))"
    and found: "storeAfter st (w_log w) (metaKey (pvc_Meta p)) = Some p"
  shows "storeAfter st (w_log w') = storeAfter st (w_log w) \<and> r \<noteq> Ok ()
     \<or> storeAfter st (w_log w') = (storeAfter st (w_log w))(metaKey (pvc_Meta p) \<mapsto> raise d p) \<and> r = Ok ()"
proof -
  let ?k = "(om_Namespace (pvc_Meta p), om_Name (pvc_Meta p))"
  let ?w = "w\<lparr>w_log := w_log w @ [GetPVC ?k (Inr p)]\<rparr>"
  have get: "getPVC S ?k w = (Ok p, ?w)"
    using found by (simp add: run_getPVC [OF serves] metaKey_def)
  show ?thesis
  proof (cases "pvc_Requests p = None")
    case True
    with run get show ?thesis by (auto simp: scaleUpPVC_def bindM_def wrapM_def run_simps)
  next
    case False
    with run get show ?thesis
      by (cases "api_updatePVC S (rc_Namespace c) (raise d p) (w_log ?w)")
         (auto simp: scaleUpPVC_def bindM_def wrapM_def run_simps metaKey_def ns)
  qed
qed

lemma wellNamedD: "wellNamed st \<Longrightarrow> st k = Some p \<Longrightarrow> metaKey (pvc_Meta p) = k"
  by (cases k) (simp add: wellNamed_def)

lemma wellNamed_grow [simp]: "wellNamed st \<Longrightarrow> wellNamed (grow d K st)"
  by (auto simp: wellNamed_def grow_def split: option.splits)

lemma grow_grow: "grow d K (grow d K' st) = grow d (K \<union> K') st"
  by (rule ext) (auto simp: grow_def split: option.split)

lemma grow_single:
  "st k = Some p \<Longrightarrow> storage p < d \<Longrightarrow> st(k \<mapsto> raise d p) = grow d {k} st"
  by (rule ext) (simp add: grow_def split: option.split)

lemma grow_other: "k \<notin> K \<Longrightarrow> grow d K st k = st k"
  by (simp add: grow_def split: option.split)

definition claimsIn :: "pvcStore \<Rightarrow> rabbitmqCluster \<Rightarrow> quantity \<Rightarrow> persistentVolumeClaim list \<Rightarrow> bool" where
  "claimsIn st c d pvcs \<longleftrightarrow> distinct (map (metaKey \<circ> pvc_Meta) pvcs)
     \<and> (\<forall>p \<in> set pvcs. st (metaKey (pvc_Meta p)) = Some p \<and> om_Namespace (pvc_Meta p) = rc_Namespace c
          \<and> storage p < d)"

lemma claimsIn_Cons:
  assumes "claimsIn st c d (p # pvcs)"
  shows "claimsIn (grow d {metaKey (pvc_Meta p)} st) c d pvcs"
  using assms by (auto simp: claimsIn_def image_iff grow_other)

lemma scaleUpPVCs_store:
  assumes serves: "servesStore S st" and run: "scaleUpPVCs S c pvcs d w = (r, w')"
    and named: "wellNamed (storeAfter st (w_log w))" and claims: "claimsIn (storeAfter st (w_log w)) c d pvcs"
  shows "\<exists>K. K \<subseteq> metaKey ` pvc_Meta ` set pvcs
     \<and> storeAfter st (w_log w') = grow d K (storeAfter st (w_log w))
     \<and> (r = Ok () \<longrightarrow> K = metaKey ` pvc_Meta ` set pvcs)"
  using run named claims
proof (induction pvcs arbitrary: w)
  case Nil
  then show ?case by (simp add: scaleUpPVCs_def run_simps)
next
  case (Cons p pvcs)
  let ?k = "metaKey (pvc_Meta p)" and ?s = "storeAfter st (w_log w)"
  have p: "om_Namespace (pvc_Meta p) = rc_Namespace c" "?s ?k = Some p" "storage p < d"
    using Cons.prems(3) by (simp_all add: claimsIn_def)
  note step = scaleUpPVC_step [OF serves _ p(1) Cons.prems(2) p(2)]
  from Cons.prems(1) have "bindM (scaleUpPVC S c d p) (\<lambda>_. forEach (scaleUpPVC S c d) pvcs) w = (r, w')"
    by (simp add: scaleUpPVCs_def)
  then show ?case
  proof (cases rule: bind_cases)
    case (val u w1)
    from step [OF val(1)] have s1: "storeAfter st (w_log w1) = grow d {?k} ?s"
      using grow_single [of ?s ?k p d, OF p(2,3)] by simp
    from Cons.IH [of w1] val(2) Cons.prems(2) claimsIn_Cons [OF Cons.prems(3)] obtain K where
      "K \<subseteq> metaKey ` pvc_Meta ` set pvcs" "storeAfter st (w_log w') = grow d K (grow d {?k} ?s)"
      "r = Ok () \<longrightarrow> K = metaKey ` pvc_Meta ` set pvcs"
      by (auto simp: scaleUpPVCs_def s1)
    then show ?thesis by (intro exI [of _ "insert ?k K"]) (auto simp: grow_grow)
  next
    case (err e)
    from step [OF err(1)] err(2) show ?thesis by (intro exI [of _ "{}"]) simp
  next
    case (pan q)
    from step [OF pan(1)] pan(2) show ?thesis by (intro exI [of _ "{}"]) simp
  qed
qed

text \<open>The claims the scaler selects are the small ones among those of the cluster.\<close>

lemma set_readClaims: "set (readClaims st c is) = {p. \<exists>i \<in> set is. st (rc_Namespace c, PVCName c i) = Some p}"
  by (induction "is") (auto simp: readClaims_def map_filter_simps split: option.splits)

lemma distinct_readClaims:
  assumes "wellNamed st" and "distinct is"
  shows "distinct (map (metaKey \<circ> pvc_Meta) (readClaims st c is))"
  using assms(2)
proof (induction "is")
  case (Cons i "is")
  show ?case
  proof (cases "st (rc_Namespace c, PVCName c i)")
    case None
    with Cons show ?thesis by (simp add: readClaims_def map_filter_simps)
  next
    case (Some p)
    have key: "metaKey (pvc_Meta p) = (rc_Namespace c, PVCName c i)" using wellNamedD [OF assms(1) Some] .
    have "metaKey (pvc_Meta q) \<noteq> (rc_Namespace c, PVCName c i)" if q: "q \<in> set (readClaims st c is)" for q
    proof -
      from q obtain j where j: "j \<in> set is" "st (rc_Namespace c, PVCName c j) = Some q"
        by (auto simp: set_readClaims)
      with Cons.prems wellNamedD [OF assms(1) j(2)] show ?thesis by auto
    qed
    then have "(metaKey \<circ> pvc_Meta) p \<notin> set (map (metaKey \<circ> pvc_Meta) (readClaims st c is))"
      by (metis comp_apply imageE key list.set_map)
    moreover have "readClaims st c (i # is) = p # readClaims st c is"
      using Some by (simp add: readClaims_def map_filter_simps)
    ultimately show ?thesis using Cons.IH Cons.prems by simp
  qed
qed (simp add: readClaims_def map_filter_simps)

definition claimIndices :: "rabbitmqCluster \<Rightarrow> int list" where
  "claimIndices c = map int [0..<nat (replicasOrOne c)]"

lemma selected_claims:
  assumes "wellNamed st"
  shows "claimsIn st c d (pvcsNeedingScaling (readClaims st c (claimIndices c)) d)"
    and "grow d (metaKey ` pvc_Meta ` set (pvcsNeedingScaling (readClaims st c (claimIndices c)) d)) st
       = grow d (claimKeys c) st"
proof -
  let ?sel = "pvcsNeedingScaling (readClaims st c (claimIndices c)) d"
  have "distinct (claimIndices c)" by (simp add: claimIndices_def distinct_map)
  from distinct_readClaims [OF assms this, of c]
  have "distinct (map (metaKey \<circ> pvc_Meta) ?sel)"
    unfolding pvcsNeedingScaling_def by (rule distinct_map_filter)
  moreover have mem: "p \<in> set ?sel \<longleftrightarrow>
      (\<exists>i < nat (replicasOrOne c). st (rc_Namespace c, PVCName c (int i)) = Some p) \<and> storage p < d" for p
    by (auto simp: pvcsNeedingScaling_def set_readClaims claimIndices_def)
  moreover have key: "st k = Some p \<Longrightarrow> metaKey (pvc_Meta p) = k" for k p
    using wellNamedD [OF assms] .
  ultimately show "claimsIn st c d ?sel"
    by (fastforce simp: claimsIn_def metaKey_def)
  show "grow d (metaKey ` pvc_Meta ` set ?sel) st = grow d (claimKeys c) st"
  proof (rule ext)
    fix k
    show "grow d (metaKey ` pvc_Meta ` set ?sel) st k = grow d (claimKeys c) st k"
    proof (cases "st k")
      case (Some p)
      have "k \<in> metaKey ` pvc_Meta ` set ?sel \<longleftrightarrow> k \<in> claimKeys c" if "storage p < d"
      proof
        assume "k \<in> metaKey ` pvc_Meta ` set ?sel"
        then obtain q where "q \<in> set ?sel" "k = metaKey (pvc_Meta q)" by blast
        then show "k \<in> claimKeys c" unfolding mem claimKeys_def using key by blast
      next
        assume "k \<in> claimKeys c"
        with Some that have "p \<in> set ?sel" unfolding mem claimKeys_def by blast
        then show "k \<in> metaKey ` pvc_Meta ` set ?sel" using key [OF Some] by blast
      qed
      with Some show ?thesis by (cases "storage p < d") (simp_all add: grow_def)
    qed (simp add: grow_def)
  qed
qed

section \<open>What a scaling does to the claims\<close>

lemma getPVCLoop_only: "(\<And>k r. P (GetPVC k r)) \<Longrightarrow> only P (getPVCLoop S c is acc)"
  by (induction "is" arbitrary: acc) (auto intro!: only_intros split: sum.splits)

lemma getClusterPVCs_only [only_intros]: "(\<And>k r. P (GetPVC k r)) \<Longrightarrow> only P (getClusterPVCs S c)"
  unfolding getClusterPVCs_def by (rule getPVCLoop_only)

lemma getSts_only [only_intros]: "(\<And>r. P (GetSts (stsKey c) r)) \<Longrightarrow> only P (getSts S c)"
  unfolding getSts_def stsKey_def [symmetric] by (intro only_intros)

lemma deleteSts_only [only_intros]:
  "(\<And>r. P (GetSts (stsKey c) r)) \<Longrightarrow> (\<And>k r. P (DeleteSts k orphan r)) \<Longrightarrow> P (Sleep 3)
   \<Longrightarrow> only P (deleteSts S c)"
  unfolding deleteSts_def deleteAndWait_def stsGone_def by (intro only_intros)

lemma scaleUpPVCs_only [only_intros]:
  assumes "\<And>k r. P (GetPVC k r)"
    and "\<And>pvc r. pvc_Requests pvc \<noteq> None \<Longrightarrow> P (UpdatePVC (rc_Namespace c) (raise d pvc) r)"
  shows "only P (scaleUpPVCs S c pvcs d)"
  unfolding scaleUpPVCs_def scaleUpPVC_def
  by (intro only_intros assms) (auto simp: fromOutcome_def split: if_splits)

lemma growPVCs_store:
  assumes serves: "servesStore S st" and named: "wellNamed (storeAfter st (w_log w))"
    and run: "growPVCs S c d w = (r, w')"
  shows "\<exists>K. K \<subseteq> claimKeys c
     \<and> storeAfter st (w_log w') = grow d K (storeAfter st (w_log w))
     \<and> (r = Ok () \<longrightarrow> storeAfter st (w_log w') = grow d (claimKeys c) (storeAfter st (w_log w)))"
proof -
  let ?s = "storeAfter st (w_log w)"
  let ?sel = "pvcsNeedingScaling (readClaims ?s c (claimIndices c)) d"
  obtain w1 where get: "getClusterPVCs S c w = (Ok (readClaims ?s c (claimIndices c)), w1)"
    and w1: "storeAfter st (w_log w1) = ?s"
    using getPVCLoop_reads [OF serves, of c "claimIndices c" "[]" w]
    unfolding getClusterPVCs_def claimIndices_def by auto
  note sel = selected_claims [OF named, where c = c and d = d]
  have keys: "metaKey ` pvc_Meta ` set ?sel \<subseteq> claimKeys c"
    using wellNamedD [OF named]
    by (fastforce simp: pvcsNeedingScaling_def set_readClaims claimIndices_def claimKeys_def)
  show ?thesis
  proof (cases "?sel = []")
    case True
    with run get w1 sel(2) show ?thesis
      by (intro exI [of _ "{}"]) (simp add: growPVCs_def bindM_def Let_def run_simps)
  next
    case False
    have quiet: "only (\<lambda>e. \<not> isPVCUpdate e) (wrapM msg (deleteSts S c))" for msg
      by (intro only_intros) simp_all
    from False run get have "bindM (wrapM ''failed to delete Statefulset from Kubernetes API'' (deleteSts S c))
        (\<lambda>_. scaleUpPVCs S c ?sel d) w1 = (r, w')"
      by (simp add: growPVCs_def bindM_def Let_def)
    then show ?thesis
    proof (cases rule: bind_cases)
      case (val u w2)
      from quiet_store [OF quiet val(1)] w1 have w2: "storeAfter st (w_log w2) = ?s" by simp
      with scaleUpPVCs_store [OF serves val(2)] named sel(1) obtain K where
        K: "K \<subseteq> metaKey ` pvc_Meta ` set ?sel" and st: "storeAfter st (w_log w') = grow d K ?s"
        and all: "r = Ok () \<longrightarrow> K = metaKey ` pvc_Meta ` set ?sel" by auto
      have "K \<subseteq> claimKeys c" using K keys by (rule order_trans)
      moreover have "r = Ok () \<longrightarrow> storeAfter st (w_log w') = grow d (claimKeys c) ?s"
        using all st sel(2) by simp
      ultimately show ?thesis using st by (intro exI conjI)
    next
      case (err e)
      from quiet_store [OF quiet err(1)] w1 err(2) show ?thesis by (intro exI [of _ "{}"]) simp
    next
      case (pan q)
      from quiet_store [OF quiet pan(1)] w1 pan(2) show ?thesis by (intro exI [of _ "{}"]) simp
    qed
  qed
qed

lemma run_existingCapacity:
  "existingCapacity S c w =
     (case api_getSts S (stsKey c) (w_log w) of
        Inl (q, m) \<Rightarrow> Err (ApiError q m)
      | Inr sts \<Rightarrow> Ok (capacityLoop (st_VolumeClaimTemplates sts)),
      w\<lparr>w_log := w_log w @ [GetSts (stsKey c) (api_getSts S (stsKey c) (w_log w))]\<rparr>)"
  by (cases "api_getSts S (stsKey c) (w_log w)")
     (auto simp: existingCapacity_def getSts_def stsKey_def bindM_def run_simps split: prod.splits)

text \<open>
  C23. Scaling refuses to give an ephemeral cluster persistent storage and to shrink volumes: it
  then fails after one read of the StatefulSet, and has changed nothing.
\<close>

theorem scale_refused:
  assumes "api_getSts S (stsKey c) (w_log w) = Inr sts"
    and "capacityLoop (st_VolumeClaimTemplates sts) = 0 \<and> desired \<noteq> 0
         \<or> desired < capacityLoop (st_VolumeClaimTemplates sts)"
  shows "Scale S c desired w =
    (Err (ErrMsg (if capacityLoop (st_VolumeClaimTemplates sts) = 0 \<and> desired \<noteq> 0
            then ''changing from ephemeral to persistent storage is not supported''
            else ''shrinking persistent volumes is not supported'')),
     w\<lparr>w_log := w_log w @ [GetSts (stsKey c) (Inr sts)]\<rparr>)"
  using assms by (auto simp: Scale_def tryM_def run_existingCapacity run_simps)

lemma Scale_store:
  assumes "servesStore S st" and "wellNamed (storeAfter st (w_log w))" and "Scale S c desired w = (r, w')"
  shows "\<exists>K. K \<subseteq> claimKeys c
     \<and> storeAfter st (w_log w') = grow desired K (storeAfter st (w_log w))
     \<and> (r = Ok () \<longrightarrow> storeAfter st (w_log w') = grow desired (claimKeys c) (storeAfter st (w_log w)))"
proof -
  let ?w = "w\<lparr>w_log := w_log w @ [GetSts (stsKey c) (api_getSts S (stsKey c) (w_log w))]\<rparr>"
  have store: "storeAfter st (w_log ?w) = storeAfter st (w_log w)" by (simp add: storeStep_other)
  have "r \<noteq> Ok () \<and> w' = ?w \<or> growPVCs S c desired ?w = (r, w')"
    using assms(3)
    by (auto simp: Scale_def tryM_def run_existingCapacity run_simps split: sum.splits prod.splits if_splits)
  then show ?thesis
  proof
    assume "r \<noteq> Ok () \<and> w' = ?w"
    with store show ?thesis by (intro exI [of _ "{}"]) simp
  next
    assume "growPVCs S c desired ?w = (r, w')"
    with growPVCs_store [OF assms(1), of ?w] assms(2) store show ?thesis by simp
  qed
qed

text \<open>
  C3. Against a store of claims, whatever else the server does: a scaling that succeeds takes the
  abstract step that raises every claim of the cluster smaller than desired to the desired
  size, and one that fails has raised some of them; no other claim changes.
\<close>

theorem scale_refines:
  assumes "servesStore S st" and "wellNamed (storeAfter st (w_log w))" and "Scale S c desired w = (r, w')"
  shows "\<exists>K. K \<subseteq> claimKeys c
     \<and> storeAfter st (w_log w') = grow desired K (storeAfter st (w_log w))
     \<and> (r = Ok () \<longrightarrow> storeAfter st (w_log w') = grow desired (claimKeys c) (storeAfter st (w_log w)))"
  using assms by (rule Scale_store)

text \<open>A claim is written back as it was just read, but for its storage request.\<close>

fun freshWrites :: "quantity \<Rightarrow> persistentVolumeClaim option \<Rightarrow> event list \<Rightarrow> bool" where
  "freshWrites d prev [] = True"
| "freshWrites d prev (e # es) = (case e of
      GetPVC k r \<Rightarrow> freshWrites d (case r of Inl q \<Rightarrow> None | Inr p \<Rightarrow> Some p) es
    | UpdatePVC ns p r \<Rightarrow> Some p = map_option (raise d) prev \<and> freshWrites d None es
    | _ \<Rightarrow> freshWrites d None es)"

lemma freshWrites_weak: "freshWrites d None es \<Longrightarrow> freshWrites d l es"
  by (cases es) (auto split: event.splits)

lemma freshWrites_append: "freshWrites d l es \<Longrightarrow> freshWrites d None fs \<Longrightarrow> freshWrites d l (es @ fs)"
  by (induction es arbitrary: l) (auto split: event.splits dest: freshWrites_weak)

lemma freshWrites_composes: "composes (freshWrites d None)"
  by (simp add: composes_def freshWrites_append)

lemma freshWrites_other: "list_all (\<lambda>e. \<not> isPVCUpdate e) es \<Longrightarrow> freshWrites d l es"
  by (induction es arbitrary: l) (auto split: event.splits)

lemma scaleUpPVC_fresh: "traces (freshWrites d None) (scaleUpPVC S c d p)"
proof (rule tracesI)
  fix w r w'
  assume run: "scaleUpPVC S c d p w = (r, w')"
  let ?k = "(om_Namespace (pvc_Meta p), om_Name (pvc_Meta p))"
  let ?q = "api_getPVC S ?k (w_log w)"
  let ?w = "w\<lparr>w_log := w_log w @ [GetPVC ?k ?q]\<rparr>"
  have get: "getPVC S ?k w = (fromResponse ?q, ?w)" by (simp add: run_simps)
  show "\<exists>es. w_log w' = w_log w @ es \<and> freshWrites d None es"
  proof (cases ?q)
    case (Inl e)
    with run get have "w' = ?w"
      by (cases e) (simp add: scaleUpPVC_def bindM_def wrapM_def)
    then show ?thesis by (simp split: sum.splits)
  next
    case (Inr v)
    let ?u = "api_updatePVC S (rc_Namespace c) (raise d v) (w_log ?w)"
    show ?thesis
    proof (cases "pvc_Requests v = None")
      case True
      with Inr run get have "w' = ?w" by (simp add: scaleUpPVC_def bindM_def wrapM_def run_simps)
      then show ?thesis by (simp split: sum.splits)
    next
      case False
      with Inr run get have "w' = ?w\<lparr>w_log := w_log ?w @ [UpdatePVC (rc_Namespace c) (raise d v) ?u]\<rparr>"
        by (cases ?u) (auto simp: scaleUpPVC_def bindM_def wrapM_def run_simps)
      with Inr show ?thesis by simp
    qed
  qed
qed

definition scaleEvent :: "rabbitmqCluster \<Rightarrow> quantity \<Rightarrow> event \<Rightarrow> bool" where
  "scaleEvent c d e = (case e of
      GetSts k r \<Rightarrow> k = stsKey c
    | GetPVC k r \<Rightarrow> True
    | Sleep s \<Rightarrow> s = 3
    | DeleteSts k opts r \<Rightarrow> opts = orphan
    | UpdatePVC ns p r \<Rightarrow> ns = rc_Namespace c \<and> storage p = d
    | _ \<Rightarrow> False)"

lemma Scale_only [only_intros]:
  assumes "\<And>r. P (GetSts (stsKey c) r)" "\<And>k r. P (GetPVC k r)" "\<And>k r. P (DeleteSts k orphan r)" "P (Sleep 3)"
    and "\<And>p r. storage p = d \<Longrightarrow> P (UpdatePVC (rc_Namespace c) p r)"
  shows "only P (Scale S c d)"
  unfolding Scale_def existingCapacity_def growPVCs_def Let_def
  by (intro only_intros assms) (simp_all add: storage_raise)

lemma growPVCs_quiet: "only (\<lambda>e. \<not> isPVCUpdate e) (wrapM msg (deleteSts S c))"
  "only (\<lambda>e. \<not> isPVCUpdate e) (getClusterPVCs S c)" "only (\<lambda>e. \<not> isPVCUpdate e) (existingCapacity S c)"
  unfolding existingCapacity_def by (intro only_intros; simp)+

lemma Scale_fresh: "traces (freshWrites d None) (Scale S c d)"
proof -
  note quiet = only_traces [OF _ freshWrites_other]
  show ?thesis unfolding Scale_def growPVCs_def Let_def scaleUpPVCs_def
    by (intro traces_intros freshWrites_composes scaleUpPVC_fresh quiet [OF growPVCs_quiet(1)]
        quiet [OF growPVCs_quiet(2)] quiet [OF growPVCs_quiet(3)])
qed

text \<open>No claim is updated unless the StatefulSet has been heard to be gone before.\<close>

lemma growPVCs_guarded:
  assumes "growPVCs S c d w = (r, w')"
  shows "\<exists>es. w_log w' = w_log w @ es \<and> guarded (goneAnswer c) isPVCUpdate es"
proof -
  let ?G = "guarded (goneAnswer c) isPVCUpdate"
  note never = guarded_never [of isPVCUpdate _ "goneAnswer c"]
  from assms show ?thesis unfolding growPVCs_def
  proof (cases rule: bind_cases)
    case (val pvcs w1)
    obtain as where as: "w_log w1 = w_log w @ as" "list_all (\<lambda>e. \<not> isPVCUpdate e) as"
      using only_runD [OF growPVCs_quiet(2) val(1)] by blast
    show ?thesis
    proof (cases "pvcsNeedingScaling pvcs d = []")
      case True
      with val(2) as show ?thesis by (auto simp: run_simps intro: never)
    next
      case False
      with val(2) have "bindM (wrapM ''failed to delete Statefulset from Kubernetes API'' (deleteSts S c))
          (\<lambda>_. scaleUpPVCs S c (pvcsNeedingScaling pvcs d) d) w1 = (r, w')" by (simp add: Let_def)
      then show ?thesis
      proof (cases rule: bind_cases)
        case del: (val u w2)
        obtain r0 bs where run: "deleteSts S c w1 = (r0, w1\<lparr>w_log := w_log w1 @ bs\<rparr>)"
          and gone: "bs \<noteq> []" "r0 = Ok () \<longleftrightarrow> goneAnswer c (last bs)"
          using deleteSts_bounded [of S c w1] by blast
        with del(1) have w2: "w_log w2 = w_log w1 @ bs" and "r0 = Ok ()"
          by (auto simp: wrapM_run)
        with gone have "list_ex (goneAnswer c) bs" using last_in_set [of bs] by (auto simp: list_ex_iff)
        moreover have "list_all (\<lambda>e. \<not> isPVCUpdate e) bs"
          using only_runD [OF growPVCs_quiet(1) del(1)] w2 by auto
        moreover obtain cs where "w_log w' = w_log w2 @ cs"
          using only_runD [OF scaleUpPVCs_only [of "\<lambda>_. True"] del(2)] by blast
        ultimately show ?thesis using as w2
          by (intro exI [of _ "as @ bs @ cs"]) (simp add: guarded_append never)
      next
        case (err e)
        from only_runD [OF growPVCs_quiet(1) err(1)] as show ?thesis
          by (metis append_assoc list_all_append never)
      next
        case (pan e)
        from only_runD [OF growPVCs_quiet(1) pan(1)] as show ?thesis
          by (metis append_assoc list_all_append never)
      qed
    qed
  qed (use only_runD [OF growPVCs_quiet(2)] never in blast)+
qed

text \<open>
  C13. Whatever the server answers, a scaling deletes the StatefulSet only by orphaning its pods,
  sends no update of a volume claim before it has heard that the StatefulSet is gone, writes
  each claim back as it was just read except for the storage request, which becomes the desired
  size, and makes no call of any other kind.
\<close>

theorem scale_order:
  "guarded (goneAnswer c) isPVCUpdate (events (Scale S c desired) w)
   \<and> freshWrites desired None (events (Scale S c desired) w)
   \<and> list_all (scaleEvent c desired) (events (Scale S c desired) w)"
proof (intro conjI)
  obtain r w' where run: "Scale S c desired w = (r, w')" by (cases "Scale S c desired w")
  let ?e = "GetSts (stsKey c) (api_getSts S (stsKey c) (w_log w))"
  let ?w = "w\<lparr>w_log := w_log w @ [?e]\<rparr>"
  have "w' = ?w \<or> growPVCs S c desired ?w = (r, w')"
    using run
    by (auto simp: Scale_def tryM_def run_existingCapacity run_simps split: sum.splits prod.splits if_splits)
  then have "\<exists>es. w_log w' = w_log w @ (?e # es) \<and> guarded (goneAnswer c) isPVCUpdate es"
    by (auto dest: growPVCs_guarded)
  with run show "guarded (goneAnswer c) isPVCUpdate (events (Scale S c desired) w)"
    by (auto simp: events_def)
  show "freshWrites desired None (events (Scale S c desired) w)"
    by (rule traces_events [OF Scale_fresh])
  show "list_all (scaleEvent c desired) (events (Scale S c desired) w)"
    by (rule only_events) (intro only_intros; simp add: scaleEvent_def)
qed

section \<open>A concrete scaling\<close>

text \<open>Two of the three claims exist: the first is smaller than desired, the second larger.\<close>

definition claimOf :: "int \<Rightarrow> int \<Rightarrow> persistentVolumeClaim" where
  "claimOf i n = \<lparr>pvc_Meta = emptyMeta\<lparr>om_Name := PVCName sampleCluster i, om_Namespace := ''ns''\<rparr>,
     pvc_Requests = mlit [(''storage'', units n)], pvc_AccessModes = [''ReadWriteOnce''],
     pvc_StorageClassName = None\<rparr>"

definition sampleStore :: pvcStore where
  "sampleStore = [(''ns'', PVCName sampleCluster 0) \<mapsto> claimOf 0 1, (''ns'', PVCName sampleCluster 1) \<mapsto> claimOf 1 20]"

definition storeApi :: api where
  "storeApi = sampleApi\<lparr>api_getPVC := (\<lambda>k l. case storeAfter sampleStore l k of
     None \<Rightarrow> Inl (ReasonNotFound, ''not found'') | Some p \<Rightarrow> Inr p)\<rparr>"

definition smallSts :: statefulSet where
  "smallSts = \<lparr>st_Meta = emptyMeta\<lparr>om_Name := ''rmq-server'', om_Namespace := ''ns'', om_UID := ''u2''\<rparr>,
     st_Replicas = Some 3, st_ServiceName = ''rmq-nodes'', st_Selector = None,
     st_VolumeClaimTemplates = [(claimOf 0 10)\<lparr>pvc_Meta := emptyMeta\<lparr>om_Name := ''persistence''\<rparr>\<rparr>],
     st_PodManagementPolicy = ''Parallel'', st_UpdateStrategy = \<lparr>us_Type = [], us_Partition = None\<rparr>,
     st_Template = \<lparr>pt_Meta = emptyMeta, pt_Spec = samplePodSpec\<rparr>,
     st_ReadyReplicas = 3, st_CurrentRevision = ''r1'', st_UpdateRevision = ''r1''\<rparr>"

theorem scale_refused_witness:
  "fst (Scale (sampleApi\<lparr>api_getSts := (\<lambda>k l. Inr smallSts)\<rparr>) sampleCluster (units 5) sampleWorld)
     = Err (ErrMsg ''shrinking persistent volumes is not supported'')"
proof -
  have cap: "capacityLoop (st_VolumeClaimTemplates smallSts) = units 10"
    by (simp add: smallSts_def claimOf_def mindex_def)
  show ?thesis
    using scale_refused [of "sampleApi\<lparr>api_getSts := (\<lambda>k l. Inr smallSts)\<rparr>" sampleCluster sampleWorld smallSts "units 5"]
    by (simp add: cap units_def zero_quantity_def less_quantity_def)
qed

lemma store_serves: "servesStore storeApi sampleStore"
  by (simp add: servesStore_def storeApi_def)

lemma store_named: "wellNamed (storeAfter sampleStore (w_log sampleWorld))"
  by (simp add: wellNamed_def sampleStore_def claimOf_def metaKey_def)

lemma storeApi_answers:
  "api_getSts storeApi k l = Inl (ReasonNotFound, ''not found'')" "api_updatePVC storeApi ns p l = Inr p"
  by (simp_all add: storeApi_def sampleApi_def withLibraries_def sampleBase_def absent_def)

lemma sample_claims:
  "claimIndices sampleCluster = [0, 1, 2]"
  "pvcsNeedingScaling (readClaims sampleStore sampleCluster [0, 1, 2]) (units 10) = [claimOf 0 1]"
  by (simp_all add: claimIndices_def replicasOrOne_def sampleCluster_def sampleSpec_def upt_rec
      pvcsNeedingScaling_def readClaims_def map_filter_simps sampleStore_def claimOf_def mindex_def emptyMeta_def)

lemma storeApi_grows:
  assumes st: "storeAfter sampleStore (w_log w) = sampleStore"
  shows "fst (growPVCs storeApi sampleCluster (units 10) w) = Ok ()"
proof -
  obtain w1 where get: "getClusterPVCs storeApi sampleCluster w
      = (Ok (readClaims sampleStore sampleCluster [0, 1, 2]), w1)"
    and w1: "storeAfter sampleStore (w_log w1) = sampleStore"
    using getPVCLoop_reads [OF store_serves, of sampleCluster "claimIndices sampleCluster" "[]" w]
    unfolding getClusterPVCs_def claimIndices_def [symmetric] sample_claims(1) st
    by (auto simp del: getPVCLoop.simps)
  let ?w2 = "w1\<lparr>w_log := w_log w1 @ [GetSts (stsKey sampleCluster) (Inl (ReasonNotFound, ''not found''))]\<rparr>"
  have del: "deleteSts storeApi sampleCluster w1 = (Ok (), ?w2)"
    by (simp add: deleteSts_def getSts_def tryM_def run_simps storeApi_answers stsKey_def)
  have "storeAfter sampleStore (w_log ?w2) = sampleStore" using w1 by (simp add: storeStep_other)
  then have "getPVC storeApi (''ns'', PVCName sampleCluster 0) ?w2
      = (Ok (claimOf 0 1), ?w2\<lparr>w_log := w_log ?w2 @ [GetPVC (''ns'', PVCName sampleCluster 0) (Inr (claimOf 0 1))]\<rparr>)"
    by (simp add: run_getPVC [OF store_serves] sampleStore_def)
  then have "fst (scaleUpPVC storeApi sampleCluster (units 10) (claimOf 0 1) ?w2) = Ok ()"
    by (simp add: scaleUpPVC_def claimOf_def bindM_def wrapM_def run_simps storeApi_answers)
  then show ?thesis using get del
    by (auto simp: growPVCs_def bindM_def wrapM_def Let_def sample_claims scaleUpPVCs_def run_simps
        split: prod.splits outcome.splits)
qed

theorem scale_refines_witness:
  "\<exists>w'. Scale storeApi sampleCluster (units 10) sampleWorld = (Ok (), w')
     \<and> storeAfter sampleStore (w_log w') = grow (units 10) (claimKeys sampleCluster) sampleStore"
proof -
  obtain r w' where run: "Scale storeApi sampleCluster (units 10) sampleWorld = (r, w')" by fastforce
  let ?w = "sampleWorld\<lparr>w_log := [GetSts (stsKey sampleCluster) (Inl (ReasonNotFound, ''not found''))]\<rparr>"
  have "Scale storeApi sampleCluster (units 10) sampleWorld = growPVCs storeApi sampleCluster (units 10) ?w"
    by (simp add: Scale_def tryM_def run_existingCapacity storeApi_answers)
  with run storeApi_grows [of ?w] have "r = Ok ()" by (simp add: storeStep_other)
  with run scale_refines [OF store_serves store_named run] show ?thesis by auto
qed

end
