(* ===== verification/Reconciler.thy ===== *)
theory Reconciler
  imports Scaling
begin

text \<open>
  \<^verbatim>\<open>controllers/utils.go\<close> and \<^verbatim>\<open>controllers/reconcile_finalizer.go\<close>: the reconciler, its
  helpers, and the deletion of a cluster.

  Methods take the reconciler \<open>R\<close>. The pointer \<^verbatim>\<open>rabbitmqCluster\<close> is part of the
  world, so a method reads it with \<open>getRmq\<close> and writes it with \<open>modifyRmq\<close>.
\<close>

record reconciler =
  rec_Client :: api
  rec_env :: env
  rec_DefaultRabbitmqImage :: string
  rec_DefaultUserUpdaterImage :: string
  rec_DefaultImagePullSecrets :: string

section \<open>Annotations of an object\<close>

text \<open>
  \<^verbatim>\<open>client.Object\<close>: the calls through which a method reaches an object, and its metadata.
\<close>

record 'o clientObject =
  cl_get :: "nskey \<Rightarrow> 'o prog"
  cl_update :: "'o \<Rightarrow> 'o prog"
  cl_meta :: "'o \<Rightarrow> objectMeta"
  cl_setMeta :: "'o \<Rightarrow> objectMeta \<Rightarrow> 'o"

definition cmObject :: "api \<Rightarrow> configMap clientObject" where
  "cmObject S = \<lparr>cl_get = getConfigMap S, cl_update = updateConfigMap S, cl_meta = cm_Meta,
     cl_setMeta = (\<lambda>c m. c\<lparr>cm_Meta := m\<rparr>)\<rparr>"

definition stsObject :: "api \<Rightarrow> statefulSet clientObject" where
  "stsObject S = \<lparr>cl_get = getStatefulSet S, cl_update = updateStatefulSet S, cl_meta = st_Meta,
     cl_setMeta = (\<lambda>s m. s\<lparr>st_Meta := m\<rparr>)\<rparr>"

text \<open>The cluster itself is updated in place.\<close>

definition rmqObject :: "api \<Rightarrow> rabbitmqCluster clientObject" where
  "rmqObject S = \<lparr>cl_get = getCluster S,
     cl_update = (\<lambda>c. bindM (modifyRmq (\<lambda>_. c)) (\<lambda>_. bindM (updateCluster S) (\<lambda>_. getRmq))),
     cl_meta = rc_Meta, cl_setMeta = (\<lambda>c m. c\<lparr>rc_Meta := m\<rparr>)\<rparr>"

definition deleteAnnotation :: "'o clientObject \<Rightarrow> 'o \<Rightarrow> string \<Rightarrow> unit prog" where
  "deleteAnnotation C obj annotation =
     (let m = cl_meta C obj; annotations = om_Annotations m
      in if annotations = None then ret ()
         else bindM (cl_update C (cl_setMeta C obj (m\<lparr>om_Annotations := mdelete annotations annotation\<rparr>)))
                (\<lambda>_. ret ()))"

definition errorIsConflictOrNotFound :: "error \<Rightarrow> bool" where
  "errorIsConflictOrNotFound err = (isConflict err \<or> isNotFound err)"

definition annotated :: "string \<Rightarrow> string \<Rightarrow> objectMeta \<Rightarrow> objectMeta" where
  "annotated key val m = m\<lparr>om_Annotations := mput (mmake (om_Annotations m)) key val\<rparr>"

definition updateAnnotation ::
    "api \<Rightarrow> 'o clientObject \<Rightarrow> string \<Rightarrow> string \<Rightarrow> string \<Rightarrow> string \<Rightarrow> unit prog" where
  "updateAnnotation S C namespace objName key val =
     lib_onError S errorIsConflictOrNotFound
       (bindM (cl_get C (namespace, objName)) (\<lambda>obj.
        bindM (cl_update C (cl_setMeta C obj (annotated key val (cl_meta C obj)))) (\<lambda>_. ret ())))"

section \<open>Reading child objects\<close>

definition statefulSet :: "reconciler \<Rightarrow> statefulSet prog" where
  "statefulSet R = bindM getRmq (\<lambda>rmq.
     getStatefulSet (rec_Client R) (rc_Namespace rmq, ChildResourceName rmq ''server''))"

definition statefulSetUID :: "reconciler \<Rightarrow> string prog" where
  "statefulSetUID R =
     bindM (wrapM ''failed to get statefulSet'' (statefulSet R)) (\<lambda>sts.
     case lib_GetControllerOf (rec_Client R) (st_Meta sts) of
       None \<Rightarrow> throw (ErrMsg (''failed to get controller reference for statefulSet '' @ om_Name (st_Meta sts)))
     | Some ref \<Rightarrow> bindM getRmq (\<lambda>rmq.
         if om_UID (rc_Meta rmq) \<noteq> or_UID ref
         then throw (ErrMsg (''statefulSet '' @ om_Name (st_Meta sts)
                @ '' not owned by current RabbitmqCluster '' @ rc_Name rmq))
         else ret (om_UID (st_Meta sts))))"

definition configMap :: "reconciler \<Rightarrow> string \<Rightarrow> configMap prog" where
  "configMap R name = bindM getRmq (\<lambda>rmq. getConfigMap (rec_Client R) (rc_Namespace rmq, name))"

section \<open>The finalizer\<close>

definition deletionFinalizer :: string where
  "deletionFinalizer = ''deletion.finalizers.rabbitmqclusters.rabbitmq.com''"

text \<open>\<^verbatim>\<open>t.IsZero()\<close> of a \<^verbatim>\<open>*metav1.Time\<close>.\<close>

definition isZeroTime :: "gotime option \<Rightarrow> bool" where
  "isZeroTime t = (case t of None \<Rightarrow> True | Some x \<Rightarrow> x = 0)"

definition modifyMeta :: "(objectMeta \<Rightarrow> objectMeta) \<Rightarrow> unit prog" where
  "modifyMeta f = modifyRmq (\<lambda>c. c\<lparr>rc_Meta := f (rc_Meta c)\<rparr>)"

definition addFinalizerIfNeeded :: "reconciler \<Rightarrow> unit prog" where
  "addFinalizerIfNeeded R = bindM getRmq (\<lambda>c.
     if isZeroTime (om_DeletionTimestamp (rc_Meta c))
        \<and> \<not> lib_containsFinalizer (rec_Client R) (rc_Meta c) deletionFinalizer
     then bindM (modifyMeta (\<lambda>m. lib_addFinalizer (rec_Client R) m deletionFinalizer)) (\<lambda>_.
          updateCluster (rec_Client R))
     else ret ())"

definition removeFinalizer :: "reconciler \<Rightarrow> unit prog" where
  "removeFinalizer R =
     bindM (modifyMeta (\<lambda>m. lib_removeFinalizer (rec_Client R) m deletionFinalizer)) (\<lambda>_.
     updateCluster (rec_Client R))"

definition markPod :: "pod \<Rightarrow> pod" where
  "markPod p = p\<lparr>po_Meta := (po_Meta p)\<lparr>om_Labels := mput (om_Labels (po_Meta p)) DeletionMarker ''true''\<rparr>\<rparr>"

definition labelPod :: "reconciler \<Rightarrow> pod \<Rightarrow> unit prog" where
  "labelPod R p =
     bindM (fromOutcome (if om_Labels (po_Meta p) = None then Panic ''assignment to entry in nil map'' else Ok ())) (\<lambda>_.
     tryM (updatePod (rec_Client R) (markPod p)) (case_sum
       (\<lambda>err. if isNotFound err then ret ()
              else throw (Wrap (''cannot Update Pod '' @ om_Name (po_Meta p) @ '' in Namespace ''
                     @ om_Namespace (po_Meta p)) err))
       (\<lambda>_. ret ())))"

definition addRabbitmqDeletionLabel :: "reconciler \<Rightarrow> unit prog" where
  "addRabbitmqDeletionLabel R = bindM getRmq (\<lambda>c.
     (let selector = ''app.kubernetes.io/name='' @ rc_Name c
      in case lib_parseSelector (rec_Client R) selector of
           Some err \<Rightarrow> throw err
         | None \<Rightarrow> bindM (listPods (rec_Client R) selector) (forEach (labelPod R))))"

definition onUID :: "string \<Rightarrow> deleteOptions" where
  "onUID uid = \<lparr>do_PreconditionUID = Some uid, do_PropagationPolicy = None\<rparr>"

text \<open>The function \<^verbatim>\<open>prepareForDeletion\<close> retries on conflict.\<close>

definition deleteOwnedSts :: "reconciler \<Rightarrow> unit prog" where
  "deleteOwnedSts R =
     bindM (statefulSetUID R) (\<lambda>uid.
     bindM (wrapM ''failed to add deletion markers to RabbitmqCluster Pods'' (addRabbitmqDeletionLabel R)) (\<lambda>_.
     bindM getRmq (\<lambda>c.
     tryM (deleteStatefulSet (rec_Client R) (rc_Namespace c, ChildResourceName c ''server'') (onUID uid)) (case_sum
       (\<lambda>err. if isNotFound err then ret () else throw (Wrap ''cannot delete StatefulSet'' err))
       (\<lambda>_. ret ())))))"

definition prepareForDeletion :: "reconciler \<Rightarrow> unit prog" where
  "prepareForDeletion R = bindM getRmq (\<lambda>c.
     if lib_containsFinalizer (rec_Client R) (rc_Meta c) deletionFinalizer
     then tryM (lib_onError (rec_Client R) isConflict (deleteOwnedSts R)) (\<lambda>_.
          removeFinalizer R)
     else ret ())"

section \<open>Writing an annotation\<close>

text \<open>
  What the two annotated kinds of objects have in common: each call is one event, and the
  metadata written is the metadata read back.
\<close>

locale annotated_object =
  fixes C :: "'o clientObject" and getEv :: "nskey \<Rightarrow> 'o response \<Rightarrow> event"
    and updEv :: "'o \<Rightarrow> 'o response \<Rightarrow> event"
  assumes get_run: "\<exists>r. cl_get C k w = (fromResponse r, w\<lparr>w_log := w_log w @ [getEv k r]\<rparr>)"
    and upd_run: "\<exists>r. cl_update C ob w = (fromResponse r, w\<lparr>w_log := w_log w @ [updEv ob r]\<rparr>)"
    and meta_set: "cl_meta C (cl_setMeta C ob m) = m"
begin

text \<open>One attempt fails to read, or writes what it read with the annotation set.\<close>

definition attempt :: "nskey \<Rightarrow> string \<Rightarrow> string \<Rightarrow> unit outcome \<Rightarrow> event list \<Rightarrow> bool" where
  "attempt k key val r es \<longleftrightarrow>
     (\<exists>q m. es = [getEv k (Inl (q, m))] \<and> r = Err (ApiError q m))
   \<or> (\<exists>ob u. es = [getEv k (Inr ob), updEv (cl_setMeta C ob (annotated key val (cl_meta C ob))) u]
        \<and> r = (case u of Inl (q, m) \<Rightarrow> Err (ApiError q m) | Inr ob' \<Rightarrow> Ok ()))"

lemma attempt_logs:
  "logs (bindM (cl_get C k) (\<lambda>obj. bindM (cl_update C (cl_setMeta C obj (annotated key val (cl_meta C obj))))
     (\<lambda>_. ret ()))) c (attempt k key val)"
  unfolding logs_def
proof (intro allI impI)
  fix w
  let ?m = "bindM (cl_get C k) (\<lambda>obj. bindM (cl_update C (cl_setMeta C obj (annotated key val (cl_meta C obj))))
     (\<lambda>_. ret ()))"
  obtain g where g: "cl_get C k w = (fromResponse g, w\<lparr>w_log := w_log w @ [getEv k g]\<rparr>)"
    using get_run by blast
  show "\<exists>r es. ?m w = (r, w\<lparr>w_log := w_log w @ es\<rparr>) \<and> attempt k key val r es"
  proof (cases g)
    case (Inl e)
    obtain q m where "e = (q, m)" by (cases e)
    with g Inl show ?thesis
      by (intro exI [of _ "Err (ApiError q m)"] exI [of _ "[getEv k g]"]) (simp add: bindM_def attempt_def)
  next
    case (Inr ob)
    let ?ob = "cl_setMeta C ob (annotated key val (cl_meta C ob))"
    let ?w = "w\<lparr>w_log := w_log w @ [getEv k g]\<rparr>"
    obtain u where u: "cl_update C ?ob ?w = (fromResponse u, ?w\<lparr>w_log := w_log ?w @ [updEv ?ob u]\<rparr>)"
      using upd_run by blast
    let ?r = "case u of Inl (q, m) \<Rightarrow> Err (ApiError q m) | Inr ob' \<Rightarrow> Ok ()"
    have "?m w = (?r, w\<lparr>w_log := w_log w @ [getEv k g, updEv ?ob u]\<rparr>)"
      using g Inr u by (cases u) (auto simp: bindM_def run_simps)
    with Inr show ?thesis by (intro exI conjI) (assumption, auto simp: attempt_def)
  qed
qed

lemma updateAnnotation_run:
  assumes "documented S"
  shows "\<exists>r ess. updateAnnotation S C ns name key val w = (r, w\<lparr>w_log := w_log w @ concat ess\<rparr>)
     \<and> retried errorIsConflictOrNotFound (attempt (ns, name) key val) r ess"
  unfolding updateAnnotation_def
  by (rule logs_onError [OF assms attempt_logs refl])

text \<open>The events of an annotation, for the bounds of the callers.\<close>

lemma updateAnnotation_only:
  assumes "documented S" and "\<And>r. P (getEv (ns, name) r)"
    and "\<And>ob u. P (updEv (cl_setMeta C ob (annotated key val (cl_meta C ob))) u)"
  shows "only P (updateAnnotation S C ns name key val)"
  unfolding only_def
proof (rule tracesI)
  fix w r w'
  assume "updateAnnotation S C ns name key val w = (r, w')"
  with updateAnnotation_run [OF assms(1), of ns name key val w] obtain ess where
    w': "w' = w\<lparr>w_log := w_log w @ concat ess\<rparr>"
    and ess: "retried errorIsConflictOrNotFound (attempt (ns, name) key val) r ess" by auto
  have "list_all P es" if "es \<in> set ess" for es
    using retried_all [OF ess that] assms(2,3) by (auto simp: attempt_def)
  then have "list_all P (concat ess)" by (auto simp: list_all_iff)
  with w' show "\<exists>es. w_log w' = w_log w @ es \<and> list_all P es" by auto
qed

end

interpretation cmAnnotation: annotated_object "cmObject S" GetConfigMap UpdateConfigMap for S
  by unfold_locales (auto simp: cmObject_def run_simps)

interpretation stsAnnotation: annotated_object "stsObject S" GetSts UpdateSts for S
  by unfold_locales (auto simp: stsObject_def run_simps)

text \<open>
  Annotating a config map works in one or more attempts. Each reads the config map anew and
  writes back what it has read with that one annotation set; an attempt is followed by another
  only after a conflict or a missing object; and the result is that of the last attempt, so
  success means that the server has accepted the annotation.
\<close>

theorem annotation_written:
  assumes "documented S"
  shows "\<exists>r ess. updateAnnotation S (cmObject S) ns name key val w = (r, w\<lparr>w_log := w_log w @ concat ess\<rparr>)
    \<and> retried errorIsConflictOrNotFound (\<lambda>r es.
        (\<exists>q m. es = [GetConfigMap (ns, name) (Inl (q, m))] \<and> r = Err (ApiError q m))
      \<or> (\<exists>cm u. es = [GetConfigMap (ns, name) (Inr cm),
              UpdateConfigMap (cm\<lparr>cm_Meta := annotated key val (cm_Meta cm)\<rparr>) u]
           \<and> r = (case u of Inl (q, m) \<Rightarrow> Err (ApiError q m) | Inr cm' \<Rightarrow> Ok ()))) r ess"
proof -
  have eq: "cmAnnotation.attempt S (ns, name) key val = (\<lambda>r es.
        (\<exists>q m. es = [GetConfigMap (ns, name) (Inl (q, m))] \<and> r = Err (ApiError q m))
      \<or> (\<exists>cm u. es = [GetConfigMap (ns, name) (Inr cm),
              UpdateConfigMap (cm\<lparr>cm_Meta := annotated key val (cm_Meta cm)\<rparr>) u]
           \<and> r = (case u of Inl (q, m) \<Rightarrow> Err (ApiError q m) | Inr cm' \<Rightarrow> Ok ())))"
    by (intro ext, unfold cmAnnotation.attempt_def) (simp add: cmObject_def)
  show ?thesis using cmAnnotation.updateAnnotation_run [OF assms, of S ns name key val w] unfolding eq .
qed

theorem annotation_written_witness:
  "\<exists>r ess. updateAnnotation sampleApi (cmObject sampleApi) ''ns'' ''rmq-server-conf'' ''k'' ''v'' sampleWorld
      = (r, sampleWorld\<lparr>w_log := concat ess\<rparr>) \<and> ess \<noteq> []"
  using annotation_written [OF documented_sample, of "''ns''" "''rmq-server-conf''" "''k''" "''v''" sampleWorld]
  by (auto simp: retried_def)

section \<open>Deleting a cluster\<close>

definition controlledBy :: "rabbitmqCluster \<Rightarrow> statefulSet \<Rightarrow> bool" where
  "controlledBy c sts \<longleftrightarrow>
     (case List.find (\<lambda>r. or_Controller r = Some True) (om_OwnerReferences (st_Meta sts)) of
        None \<Rightarrow> False | Some ref \<Rightarrow> or_UID ref = om_UID (rc_Meta c))"

text \<open>The pod was labelled, or it was gone already.\<close>

definition podAck :: "pod \<Rightarrow> event \<Rightarrow> bool" where
  "podAck p e \<longleftrightarrow> (\<exists>r. e = UpdatePod (markPod p) r \<and> (\<forall>q m. r = Inl (q, m) \<longrightarrow> q = ReasonNotFound))"

text \<open>
  One attempt to delete the StatefulSet: it gives up before the deletion, or it deletes, on its
  identity, the StatefulSet it has found controlled by the cluster, after labelling every pod.
\<close>

definition deletionAttempt :: "rabbitmqCluster \<Rightarrow> unit outcome \<Rightarrow> event list \<Rightarrow> bool" where
  "deletionAttempt c r es \<longleftrightarrow>
     list_all (\<lambda>e. \<not> isDelete e) es \<and> r \<noteq> Ok ()
   \<or> (\<exists>sts sel pods acks d. controlledBy c sts \<and> list_all2 podAck pods acks
        \<and> es = [GetSts (stsKey c) (Inr sts), ListPods sel (Inr pods)] @ acks
                @ [DeleteSts (stsKey c) (onUID (om_UID (st_Meta sts))) d]
        \<and> (r = Ok () \<longleftrightarrow> (\<forall>q m. d = Inl (q, m) \<longrightarrow> q = ReasonNotFound)))"

lemma isDelete_others [simp]:
  "\<not> isDelete (ListPods sel r)" "\<not> isDelete (UpdatePod p u)" "\<not> isDelete (UpdateCluster c v)"
  by (simp_all add: isDelete_def)

text \<open>A program that logs keeps the cluster in memory.\<close>

lemma run_labelPod:
  "\<exists>r es. labelPod R p w = (r, w\<lparr>w_log := w_log w @ es\<rparr>)
     \<and> list_all (\<lambda>e. \<not> isDelete e) es \<and> (r = Ok () \<longrightarrow> (\<exists>e. es = [e] \<and> podAck p e))"
proof (cases "om_Labels (po_Meta p) = None")
  case True
  then show ?thesis
    by (intro exI [of _ "Panic ''assignment to entry in nil map''"] exI [of _ "[]"])
       (simp add: labelPod_def bindM_def run_simps)
next
  case False
  let ?u = "api_updatePod (rec_Client R) (markPod p) (w_log w)"
  show ?thesis
  proof (cases ?u)
    case (Inl x)
    obtain q m where "x = (q, m)" by (cases x)
    with False Inl show ?thesis
      by (intro exI [of _ "fst (labelPod R p w)"] exI [of _ "[UpdatePod (markPod p) ?u]"])
         (auto simp: labelPod_def bindM_def tryM_def run_simps podAck_def)
  next
    case (Inr p')
    with False show ?thesis
      by (intro exI [of _ "Ok ()"] exI [of _ "[UpdatePod (markPod p) ?u]"])
         (simp add: labelPod_def bindM_def tryM_def run_simps podAck_def)
  qed
qed

lemma run_labelPods:
  "\<exists>r es. forEach (labelPod R) pods w = (r, w\<lparr>w_log := w_log w @ es\<rparr>)
     \<and> list_all (\<lambda>e. \<not> isDelete e) es \<and> (r = Ok () \<longrightarrow> list_all2 podAck pods es)"
proof (induction pods arbitrary: w)
  case Nil
  show ?case by (intro exI [of _ "Ok ()"] exI [of _ "[]"]) (simp add: run_simps)
next
  case (Cons p pods)
  from run_labelPod [of R p w] obtain r es where
    p: "labelPod R p w = (r, w\<lparr>w_log := w_log w @ es\<rparr>)" "list_all (\<lambda>e. \<not> isDelete e) es"
      "r = Ok () \<longrightarrow> (\<exists>e. es = [e] \<and> podAck p e)" by blast
  show ?case
  proof (cases "r = Ok ()")
    case True
    let ?w = "w\<lparr>w_log := w_log w @ es\<rparr>"
    from Cons.IH [of ?w] obtain r' es' where
      "forEach (labelPod R) pods ?w = (r', ?w\<lparr>w_log := w_log ?w @ es'\<rparr>)"
      "list_all (\<lambda>e. \<not> isDelete e) es'" "r' = Ok () \<longrightarrow> list_all2 podAck pods es'" by blast
    with p True show ?thesis
      by (intro exI [of _ r'] exI [of _ "es @ es'"]) (auto simp: bindM_def)
  next
    case False
    with p have "forEach (labelPod R) (p # pods) w = (r, w\<lparr>w_log := w_log w @ es\<rparr>)"
      by (cases r) (simp_all add: bindM_def)
    with p False show ?thesis by blast
  qed
qed

lemma run_deletionLabel:
  "\<exists>r es. addRabbitmqDeletionLabel R w = (r, w\<lparr>w_log := w_log w @ es\<rparr>)
     \<and> list_all (\<lambda>e. \<not> isDelete e) es
     \<and> (r = Ok () \<longrightarrow> (\<exists>sel pods acks. es = ListPods sel (Inr pods) # acks \<and> list_all2 podAck pods acks))"
proof (cases "lib_parseSelector (rec_Client R) (''app.kubernetes.io/name='' @ rc_Name (w_rmq w))")
  case (Some e)
  then show ?thesis
    by (intro exI [of _ "Err e"] exI [of _ "[]"]) (simp add: addRabbitmqDeletionLabel_def bindM_def run_simps)
next
  case None
  let ?sel = "''app.kubernetes.io/name='' @ rc_Name (w_rmq w)"
  let ?l = "api_listPods (rec_Client R) ?sel (w_log w)"
  let ?w = "w\<lparr>w_log := w_log w @ [ListPods ?sel ?l]\<rparr>"
  show ?thesis
  proof (cases ?l)
    case (Inl x)
    obtain q m where "x = (q, m)" by (cases x)
    with None Inl show ?thesis
      by (intro exI [of _ "Err (ApiError q m)"] exI [of _ "[ListPods ?sel ?l]"])
         (simp add: addRabbitmqDeletionLabel_def bindM_def run_simps)
  next
    case (Inr pods)
    from run_labelPods [of R pods ?w] obtain r es where
      "forEach (labelPod R) pods ?w = (r, ?w\<lparr>w_log := w_log ?w @ es\<rparr>)"
      "list_all (\<lambda>e. \<not> isDelete e) es" "r = Ok () \<longrightarrow> list_all2 podAck pods es" by blast
    with None Inr show ?thesis
      by (intro exI [of _ r] exI [of _ "ListPods ?sel ?l # es"])
         (simp add: addRabbitmqDeletionLabel_def bindM_def run_simps)
  qed
qed

lemma run_statefulSet [run_simps]:
  "statefulSet R w = (fromResponse (api_getSts (rec_Client R) (stsKey (w_rmq w)) (w_log w)),
     w\<lparr>w_log := w_log w @ [GetSts (stsKey (w_rmq w)) (api_getSts (rec_Client R) (stsKey (w_rmq w)) (w_log w))]\<rparr>)"
  by (simp add: statefulSet_def bindM_def run_simps stsKey_def)

lemma run_statefulSetUID:
  assumes "documented (rec_Client R)"
  shows "\<exists>r e. statefulSetUID R w = (r, w\<lparr>w_log := w_log w @ [e]\<rparr>) \<and> \<not> isDelete e
     \<and> (\<forall>uid. r = Ok uid \<longrightarrow>
          (\<exists>sts. e = GetSts (stsKey (w_rmq w)) (Inr sts) \<and> controlledBy (w_rmq w) sts \<and> uid = om_UID (st_Meta sts)))"
proof -
  let ?q = "api_getSts (rec_Client R) (stsKey (w_rmq w)) (w_log w)"
  let ?e = "GetSts (stsKey (w_rmq w)) ?q"
  show ?thesis
  proof (cases ?q)
    case (Inl x)
    obtain q m where "x = (q, m)" by (cases x)
    with Inl have "\<exists>e. statefulSetUID R w = (Err e, w\<lparr>w_log := w_log w @ [?e]\<rparr>)"
      by (simp add: statefulSetUID_def bindM_def wrapM_def run_simps)
    then show ?thesis by fastforce
  next
    case (Inr sts)
    have "\<exists>r. statefulSetUID R w = (r, w\<lparr>w_log := w_log w @ [?e]\<rparr>)
       \<and> (\<forall>uid. r = Ok uid \<longrightarrow> controlledBy (w_rmq w) sts \<and> uid = om_UID (st_Meta sts))"
      using Inr
      by (cases "List.find (\<lambda>r. or_Controller r = Some True) (om_OwnerReferences (st_Meta sts))")
         (simp_all add: statefulSetUID_def bindM_def wrapM_def run_simps documentedD(4) [OF assms] controlledBy_def)
    then obtain r where "statefulSetUID R w = (r, w\<lparr>w_log := w_log w @ [?e]\<rparr>)"
      "\<forall>uid. r = Ok uid \<longrightarrow> controlledBy (w_rmq w) sts \<and> uid = om_UID (st_Meta sts)" by blast
    with Inr show ?thesis by (intro exI [of _ r] exI [of _ ?e]) simp
  qed
qed

lemma deleteOwnedSts_logs:
  assumes "documented (rec_Client R)"
  shows "logs (deleteOwnedSts R) c (deletionAttempt c)"
  unfolding logs_def
proof (intro allI impI)
  fix w :: world
  assume c: "w_rmq w = c"
  let ?goal = "\<exists>r es. deleteOwnedSts R w = (r, w\<lparr>w_log := w_log w @ es\<rparr>) \<and> deletionAttempt c r es"
  from run_statefulSetUID [OF assms, of w] obtain r e where
    uid: "statefulSetUID R w = (r, w\<lparr>w_log := w_log w @ [e]\<rparr>)" "\<not> isDelete e"
    and ok: "\<forall>u. r = Ok u \<longrightarrow> (\<exists>sts. e = GetSts (stsKey c) (Inr sts) \<and> controlledBy c sts \<and> u = om_UID (st_Meta sts))"
    unfolding c by (elim exE conjE) (rule that)
  show ?goal
  proof (cases r)
    case (Ok u)
    then obtain sts where sts: "e = GetSts (stsKey c) (Inr sts)" "controlledBy c sts" "u = om_UID (st_Meta sts)"
      using ok by blast
    let ?w = "w\<lparr>w_log := w_log w @ [e]\<rparr>"
    from run_deletionLabel [of R ?w] obtain r1 es where
      lab: "addRabbitmqDeletionLabel R ?w = (r1, ?w\<lparr>w_log := w_log ?w @ es\<rparr>)" "list_all (\<lambda>e. \<not> isDelete e) es"
      and acked: "r1 = Ok () \<longrightarrow> (\<exists>sel pods acks. es = ListPods sel (Inr pods) # acks \<and> list_all2 podAck pods acks)"
      by (elim exE conjE) (rule that)
    show ?thesis
    proof (cases "r1 = Ok ()")
      case True
      then obtain sel pods acks where es: "es = ListPods sel (Inr pods) # acks" "list_all2 podAck pods acks"
        using acked by blast
      let ?d = "api_deleteSts (rec_Client R) (stsKey c) (onUID u) (w_log w @ e # es)"
      let ?es = "e # es @ [DeleteSts (stsKey c) (onUID u) ?d]"
      have "\<exists>r2. deleteOwnedSts R w = (r2, w\<lparr>w_log := w_log w @ ?es\<rparr>)
          \<and> (r2 = Ok () \<longleftrightarrow> (\<forall>q m. ?d = Inl (q, m) \<longrightarrow> q = ReasonNotFound))"
        using uid(1) Ok lab(1) True
        by (cases ?d) (auto simp: deleteOwnedSts_def bindM_def wrapM_def tryM_def run_simps c stsKey_def [symmetric])
      then obtain r2 where "deleteOwnedSts R w = (r2, w\<lparr>w_log := w_log w @ ?es\<rparr>)"
        "r2 = Ok () \<longleftrightarrow> (\<forall>q m. ?d = Inl (q, m) \<longrightarrow> q = ReasonNotFound)" by blast
      moreover have "?es = [GetSts (stsKey c) (Inr sts), ListPods sel (Inr pods)] @ acks
          @ [DeleteSts (stsKey c) (onUID (om_UID (st_Meta sts))) ?d]"
        using sts es by simp
      ultimately show ?thesis using sts(2) es(2) unfolding deletionAttempt_def by blast
    next
      case False
      with uid Ok lab have "\<exists>r2. deleteOwnedSts R w = (r2, w\<lparr>w_log := w_log w @ (e # es)\<rparr>) \<and> r2 \<noteq> Ok ()"
        by (cases r1) (auto simp: deleteOwnedSts_def bindM_def wrapM_def)
      with uid lab show ?thesis unfolding deletionAttempt_def by (metis list.pred_inject(2))
    qed
  next
    case (Err x)
    with uid show ?thesis
      by (intro exI [of _ "Err x"] exI [of _ "[e]"]) (simp add: deleteOwnedSts_def bindM_def deletionAttempt_def)
  next
    case (Panic x)
    with uid show ?thesis
      by (intro exI [of _ "Panic x"] exI [of _ "[e]"]) (simp add: deleteOwnedSts_def bindM_def deletionAttempt_def)
  qed
qed

text \<open>
  C7. When a deleted cluster carries the operator's finalizer, its deletion makes one or more
  attempts at the StatefulSet and then asks the server to drop the finalizer, whether they
  succeeded or not. An attempt that deletes has found a StatefulSet controlled by this very
  cluster, has labelled every pod it listed, and names the identity it found as a precondition,
  so that no other StatefulSet of that name is deleted. The result is that of the last update.
\<close>

theorem deletion_trace:
  assumes "documented (rec_Client R)" and "deletionFinalizer \<in> set (om_Finalizers (rc_Meta (w_rmq w)))"
    and "prepareForDeletion R w = (r, w')" and "\<forall>p. r \<noteq> Panic p"
  shows "\<exists>ats r1 resp. retried isConflict (deletionAttempt (w_rmq w)) r1 ats
    \<and> w_log w' = w_log w @ concat ats @ [UpdateCluster ((w_rmq w)\<lparr>rc_Meta := (rc_Meta (w_rmq w))
          \<lparr>om_Finalizers := removeAll deletionFinalizer (om_Finalizers (rc_Meta (w_rmq w)))\<rparr>\<rparr>) resp]
    \<and> (r = Ok () \<longleftrightarrow> (\<exists>c. resp = Inr c))"
proof -
  let ?S = "rec_Client R" and ?c = "w_rmq w"
  let ?c' = "?c\<lparr>rc_Meta := (rc_Meta ?c)\<lparr>om_Finalizers := removeAll deletionFinalizer (om_Finalizers (rc_Meta ?c))\<rparr>\<rparr>"
  from logs_onError [OF assms(1) deleteOwnedSts_logs [OF assms(1)] refl, of isConflict w] obtain r1 ats where
    del: "lib_onError ?S isConflict (deleteOwnedSts R) w = (r1, w\<lparr>w_log := w_log w @ concat ats\<rparr>)"
    and ats: "retried isConflict (deletionAttempt ?c) r1 ats" by blast
  let ?w = "w\<lparr>w_log := w_log w @ concat ats\<rparr>"
  let ?u = "api_updateCluster ?S ?c' (w_log ?w)"
  have run: "prepareForDeletion R w = tryM (lib_onError ?S isConflict (deleteOwnedSts R)) (\<lambda>_. removeFinalizer R) w"
    using assms(1,2) by (simp add: prepareForDeletion_def bindM_def run_simps documentedD)
  with del assms(3,4) have "removeFinalizer R ?w = (r, w')"
    by (cases r1) (auto simp: tryM_def)
  then have "w_log w' = w_log ?w @ [UpdateCluster ?c' ?u] \<and> (r = Ok () \<longleftrightarrow> (\<exists>c. ?u = Inr c))"
    by (cases ?u) (auto simp: removeFinalizer_def modifyMeta_def updateCluster_def bindM_def run_simps run_call
        documentedD [OF assms(1)] split: outcome.splits)
  with ats show ?thesis by (intro exI [of _ ats] exI [of _ r1] exI [of _ ?u]) simp
qed

section \<open>A concrete deletion\<close>

definition deletedCluster :: rabbitmqCluster where
  "deletedCluster = sampleCluster\<lparr>rc_Meta := (rc_Meta sampleCluster)
     \<lparr>om_DeletionTimestamp := Some 7, om_Finalizers := [deletionFinalizer]\<rparr>\<rparr>"

definition ownedSts :: statefulSet where
  "ownedSts = smallSts\<lparr>st_Meta := (st_Meta smallSts)\<lparr>om_OwnerReferences := [ownerOf sampleCluster]\<rparr>\<rparr>"

definition samplePod :: pod where
  "samplePod = \<lparr>po_Meta = emptyMeta\<lparr>om_Name := ''rmq-server-0'', om_Namespace := ''ns'',
     om_Labels := mlit [(''app.kubernetes.io/name'', ''rmq'')]\<rparr>\<rparr>"

definition deletionApi :: api where
  "deletionApi = withLibraries (sampleBase\<lparr>api_getSts := (\<lambda>k l. Inr ownedSts),
     api_listPods := (\<lambda>sel l. Inr [samplePod])\<rparr>)"

definition sampleReconciler :: "api \<Rightarrow> reconciler" where
  "sampleReconciler S = \<lparr>rec_Client = S, rec_env = sampleEnv,
     rec_DefaultRabbitmqImage = ''rabbitmq:3.10.2-management'',
     rec_DefaultUserUpdaterImage = ''rabbitmqoperator/default-user-credential-updater:1.0.2'',
     rec_DefaultImagePullSecrets = []\<rparr>"

lemma sampleReconciler_simps [simp]: "rec_Client (sampleReconciler S) = S" "rec_env (sampleReconciler S) = sampleEnv"
  by (simp_all add: sampleReconciler_def)

lemma deletionApi_documented: "documented deletionApi"
  unfolding deletionApi_def by (rule documented_withLibraries)

lemma deletionApi_answers:
  "api_getSts deletionApi k l = Inr ownedSts" "api_listPods deletionApi sel l = Inr [samplePod]"
  "api_updatePod deletionApi p l = Inr p" "api_deleteSts deletionApi k opts l = Inr ()"
  "api_updateCluster deletionApi c l = Inr c" "lib_parseSelector deletionApi s = None"
  "lib_onError deletionApi P f = attempts 4 P f"
  by (simp_all add: deletionApi_def withLibraries_def sampleBase_def)

abbreviation deletionWorld :: world where
  "deletionWorld \<equiv> sampleWorld\<lparr>w_rmq := deletedCluster\<rparr>"

lemma deletion_runs: "fst (prepareForDeletion (sampleReconciler deletionApi) deletionWorld) = Ok ()"
proof -
  note lib = documentedD [OF deletionApi_documented]
  have "lib_containsFinalizer deletionApi (rc_Meta deletedCluster) deletionFinalizer"
    by (simp add: lib deletedCluster_def)
  moreover have "List.find (\<lambda>r. or_Controller r = Some True) (om_OwnerReferences (st_Meta ownedSts))
      = Some (ownerOf sampleCluster)" by (simp add: ownedSts_def ownerOf_def)
  moreover have "om_UID (rc_Meta deletedCluster) = or_UID (ownerOf sampleCluster)"
    by (simp add: deletedCluster_def ownerOf_def)
  moreover have "om_Labels (po_Meta samplePod) \<noteq> None" by (simp add: samplePod_def)
  ultimately show ?thesis
    by (simp add: prepareForDeletion_def deletionApi_answers deleteOwnedSts_def statefulSetUID_def lib
        addRabbitmqDeletionLabel_def labelPod_def removeFinalizer_def modifyMeta_def bindM_def tryM_def wrapM_def
        run_simps numeral_eq_Suc)
qed

theorem deletion_trace_witness:
  "\<exists>ats r1 resp. retried isConflict (deletionAttempt deletedCluster) r1 ats
    \<and> w_log (snd (prepareForDeletion (sampleReconciler deletionApi) deletionWorld)) = concat ats
        @ [UpdateCluster (deletedCluster\<lparr>rc_Meta := (rc_Meta deletedCluster)\<lparr>om_Finalizers := []\<rparr>\<rparr>) resp]"
proof -
  obtain r w' where run: "prepareForDeletion (sampleReconciler deletionApi) deletionWorld = (r, w')" by fastforce
  with deletion_runs have r: "r = Ok ()" by simp
  have fin: "om_Finalizers (rc_Meta deletedCluster) = [deletionFinalizer]" by (simp add: deletedCluster_def)
  have "\<exists>ats r1 resp. retried isConflict (deletionAttempt (w_rmq deletionWorld)) r1 ats
    \<and> w_log w' = w_log deletionWorld @ concat ats @ [UpdateCluster ((w_rmq deletionWorld)\<lparr>rc_Meta := (rc_Meta (w_rmq deletionWorld))
          \<lparr>om_Finalizers := removeAll deletionFinalizer (om_Finalizers (rc_Meta (w_rmq deletionWorld)))\<rparr>\<rparr>) resp]
    \<and> (r = Ok () \<longleftrightarrow> (\<exists>c. resp = Inr c))"
    by (rule deletion_trace) (use deletionApi_documented run r in \<open>simp_all add: fin\<close>)
  then show ?thesis using run by (auto simp: fin)
qed

end
