(* ===== verification/Reconcile_Steps.thy ===== *)
theory Reconcile_Steps
  imports Reconciler
begin

text \<open>
  The smaller steps of a reconciliation: \<^verbatim>\<open>reconcile_operator_defaults.go\<close>,
  \<^verbatim>\<open>reconcile_status.go\<close>, \<^verbatim>\<open>reconcile_scale_down.go\<close>,
  \<^verbatim>\<open>reconcile_persistence.go\<close>, \<^verbatim>\<open>reconcile_tls.go\<close>, and from the controller the
  status conditions.
\<close>

section \<open>Operator defaults\<close>

definition updateRabbitmqCluster :: "reconciler \<Rightarrow> requeue prog" where
  "updateRabbitmqCluster R =
     tryM (updateCluster (rec_Client R)) (case_sum
       (\<lambda>err. if isConflict err then ret (2, None) else ret (0, Some err))
       (\<lambda>_. ret (0, None)))"

definition modifySpec :: "(clusterSpec \<Rightarrow> clusterSpec) \<Rightarrow> unit prog" where
  "modifySpec f = modifyRmq (\<lambda>c. c\<lparr>rc_Spec := f (rc_Spec c)\<rparr>)"

text \<open>
  \<^verbatim>\<open>if requeue, err := r.updateRabbitmqCluster(...); err != nil { return requeue, err }\<close>:
  a requeue without an error is not looked at.
\<close>

definition thenUpdate :: "reconciler \<Rightarrow> requeue prog \<Rightarrow> requeue prog" where
  "thenUpdate R rest =
     bindM (updateRabbitmqCluster R) (\<lambda>p. case p of
       (requeue, err) \<Rightarrow> if err \<noteq> None then ret (requeue, err) else rest)"

fun appendRefs :: "string list \<Rightarrow> string list option \<Rightarrow> string list option" where
  "appendRefs [] secrets = secrets"
| "appendRefs (reference # refs) secrets =
     appendRefs refs (if length reference > 0 then Some (slice secrets @ [reference]) else secrets)"

definition defaultImage :: "reconciler \<Rightarrow> clusterSpec \<Rightarrow> clusterSpec" where
  "defaultImage R s = s\<lparr>spec_Image := rec_DefaultRabbitmqImage R\<rparr>"

definition defaultPullSecrets :: "reconciler \<Rightarrow> clusterSpec \<Rightarrow> clusterSpec" where
  "defaultPullSecrets R s = s\<lparr>spec_ImagePullSecrets :=
     appendRefs (strSplit (rec_DefaultImagePullSecrets R) (CHR '','')) (spec_ImagePullSecrets s)\<rparr>"

definition defaultUpdater :: "reconciler \<Rightarrow> clusterSpec \<Rightarrow> clusterSpec" where
  "defaultUpdater R s = s\<lparr>spec_Vault :=
     map_option (\<lambda>v. v\<lparr>va_DefaultUserUpdaterImage := Some (rec_DefaultUserUpdaterImage R)\<rparr>) (spec_Vault s)\<rparr>"

text \<open>One of the three defaults: \<^verbatim>\<open>if\<close> it is needed, set it and update.\<close>

definition applyDefault ::
    "reconciler \<Rightarrow> (rabbitmqCluster \<Rightarrow> bool) \<Rightarrow> (clusterSpec \<Rightarrow> clusterSpec) \<Rightarrow> requeue prog \<Rightarrow> requeue prog" where
  "applyDefault R needed set_it rest =
     bindM getRmq (\<lambda>c. if needed c then bindM (modifySpec set_it) (\<lambda>_. thenUpdate R rest) else rest)"

definition needsImage :: "rabbitmqCluster \<Rightarrow> bool" where
  "needsImage c = (spec_Image (rc_Spec c) = [])"

definition needsPullSecrets :: "rabbitmqCluster \<Rightarrow> bool" where
  "needsPullSecrets c = (spec_ImagePullSecrets (rc_Spec c) = None)"

definition reconcileOperatorDefaults :: "reconciler \<Rightarrow> requeue prog" where
  "reconcileOperatorDefaults R =
     applyDefault R needsImage (defaultImage R)
       (applyDefault R needsPullSecrets (defaultPullSecrets R)
         (applyDefault R UsesDefaultUserUpdaterImage (defaultUpdater R) (ret (0, None))))"

section \<open>The status\<close>

definition modifyStatus :: "(clusterStatus \<Rightarrow> clusterStatus) \<Rightarrow> unit prog" where
  "modifyStatus f = modifyRmq (\<lambda>c. c\<lparr>rc_Status := f (rc_Status c)\<rparr>)"

text \<open>\<^verbatim>\<open>rmq.Status.SetCondition\<close>, which reads the clock.\<close>

definition setCondition :: "reconciler \<Rightarrow> conditionType \<Rightarrow> conditionStatus \<Rightarrow> string \<Rightarrow> string list \<Rightarrow> unit prog" where
  "setCondition R ty st reason messages =
     bindM (now (rec_Client R)) (\<lambda>t. modifyStatus (SetCondition t ty st reason messages))"

text \<open>A failing status update is only logged.\<close>

definition updateStatusOrLog :: "reconciler \<Rightarrow> unit prog" where
  "updateStatusOrLog R = tryM (updateStatus (rec_Client R)) (\<lambda>_. ret ())"

definition setReconcileSuccess :: "reconciler \<Rightarrow> conditionStatus \<Rightarrow> string \<Rightarrow> string \<Rightarrow> unit prog" where
  "setReconcileSuccess R st reason msg =
     bindM (setCondition R ReconcileSuccess st reason [msg]) (\<lambda>_. updateStatusOrLog R)"

definition getChildResources :: "reconciler \<Rightarrow> resource list prog" where
  "getChildResources R = bindM getRmq (\<lambda>c.
     tryM (getStatefulSet (rec_Client R) (rc_Namespace c, ChildResourceName c ''server'')) (\<lambda>s.
     bindM (case s of
        Inl err \<Rightarrow> if isNotFound err then ret None else throw err
      | Inr sts \<Rightarrow> ret (Some sts)) (\<lambda>sts.
     tryM (getEndpoints (rec_Client R) (rc_Namespace c, ChildResourceName c ServiceSuffix)) (\<lambda>e.
     bindM (case e of
        Inl err \<Rightarrow> if isNotFound err then ret None else throw err
      | Inr ep \<Rightarrow> ret (Some ep)) (\<lambda>endPoints.
     ret [StsResource sts, EndpointsResource endPoints])))))"

text \<open>Each of the four conditions may read the clock.\<close>

definition clockOf :: "gotime \<Rightarrow> gotime \<Rightarrow> gotime \<Rightarrow> gotime \<Rightarrow> conditionType \<Rightarrow> gotime" where
  "clockOf t1 t2 t3 t4 ty = (case ty of AllReplicasReady \<Rightarrow> t1 | ClusterAvailable \<Rightarrow> t2
     | NoWarnings \<Rightarrow> t3 | _ \<Rightarrow> t4)"

definition setConditions :: "reconciler \<Rightarrow> resource list \<Rightarrow> unit prog" where
  "setConditions R rs =
     bindM (now (rec_Client R)) (\<lambda>t1. bindM (now (rec_Client R)) (\<lambda>t2. bindM (now (rec_Client R)) (\<lambda>t3.
     bindM (now (rec_Client R)) (\<lambda>t4.
     bindM getRmq (\<lambda>c. bindM (fromOutcome (SetConditions (clockOf t1 t2 t3 t4) rs (rc_Status c))) (\<lambda>st.
     modifyStatus (\<lambda>_. st)))))))"

definition updateStatusConditions :: "reconciler \<Rightarrow> requeue prog" where
  "updateStatusConditions R =
     checked 0 (getChildResources R) (\<lambda>childResources.
     bindM getRmq (\<lambda>c0. (let oldConditions = cst_Conditions (rc_Status c0) in
     bindM (setConditions R childResources) (\<lambda>_.
     bindM getRmq (\<lambda>c.
     if cst_Conditions (rc_Status c) \<noteq> oldConditions
     then tryM (updateStatus (rec_Client R)) (case_sum
            (\<lambda>err. if isConflict err then ret (2, None) else ret (0, Some err))
            (\<lambda>_. ret (0, None)))
     else ret (0, None))))))"

definition defaultUserStatusOf :: "rabbitmqCluster \<Rightarrow> defaultUserStatus" where
  "defaultUserStatusOf rmq =
     \<lparr>du_SecretReference = (if \<not> VaultDefaultUserSecretEnabled rmq
        then Some \<lparr>sr_Name = ChildResourceName rmq DefaultUserSecretName, sr_Namespace = rc_Namespace rmq,
               sr_Keys = mlit [(''username'', ''username''), (''password'', ''password'')]\<rparr>
        else None),
      du_ServiceReference = Some \<lparr>svr_Name = ChildResourceName rmq [], svr_Namespace = rc_Namespace rmq\<rparr>\<rparr>"

definition bindingOf :: "rabbitmqCluster \<Rightarrow> string option" where
  "bindingOf rmq = (if \<not> VaultDefaultUserSecretEnabled rmq
     then Some (ChildResourceName rmq DefaultUserSecretName) else None)"

definition reconcileStatus :: "reconciler \<Rightarrow> unit prog" where
  "reconcileStatus R = bindM getRmq (\<lambda>rmq.
     if cst_DefaultUser (rc_Status rmq) \<noteq> Some (defaultUserStatusOf rmq)
        \<or> cst_Binding (rc_Status rmq) \<noteq> bindingOf rmq
     then bindM (modifyStatus (\<lambda>st. st\<lparr>cst_DefaultUser := Some (defaultUserStatusOf rmq),
                  cst_Binding := bindingOf rmq\<rparr>)) (\<lambda>_.
          updateStatus (rec_Client R))
     else ret ())"

section \<open>Scaling down\<close>

definition scaleDownMsg :: "int \<Rightarrow> int \<Rightarrow> string" where
  "scaleDownMsg current desired = ''Cluster Scale down not supported; tried to scale cluster from ''
     @ itoa current @ '' nodes to '' @ itoa desired @ '' nodes''"

text \<open>Both replica counts are dereferenced.\<close>

definition scaleDown :: "reconciler \<Rightarrow> statefulSet \<Rightarrow> statefulSet \<Rightarrow> bool prog" where
  "scaleDown R current sts =
     bindM (fromOutcome (deref (st_Replicas current))) (\<lambda>currentReplicas.
     bindM (fromOutcome (deref (st_Replicas sts))) (\<lambda>desiredReplicas.
     if currentReplicas > desiredReplicas
     then let msg = scaleDownMsg currentReplicas desiredReplicas; reason = ''UnsupportedOperation'' in
          bindM (record_event EventTypeWarning reason msg) (\<lambda>_.
          bindM (setCondition R ReconcileSuccess ConditionFalse reason [msg]) (\<lambda>_.
          bindM (updateStatusOrLog R) (\<lambda>_. ret True)))
     else ret False))"

section \<open>Persistence\<close>

definition persistenceStorageCapacity :: "persistentVolumeClaim list \<Rightarrow> quantity" where
  "persistenceStorageCapacity templates = capacityLoop templates"

definition reconcilePVC :: "reconciler \<Rightarrow> statefulSet \<Rightarrow> unit prog" where
  "reconcilePVC R desiredSts =
     (let desiredCapacity = persistenceStorageCapacity (st_VolumeClaimTemplates desiredSts) in
      bindM getRmq (\<lambda>rmq.
      tryM (Scale (rec_Client R) rmq desiredCapacity) (case_sum
        (\<lambda>err. bindM (record_event EventTypeWarning ''FailedReconcilePersistence''
                   (''Failed to scale PVCs: '' @ errString err)) (\<lambda>_. throw err))
        ret)))"

section \<open>TLS\<close>

definition tlsError :: "string \<Rightarrow> unit prog" where
  "tlsError msg = record_event EventTypeWarning ''TLSError'' msg"

definition hasKey :: "secret \<Rightarrow> string \<Rightarrow> bool" where
  "hasKey s k = (mget (se_Data s) k \<noteq> None)"

definition badSecret :: "string \<Rightarrow> string \<Rightarrow> string \<Rightarrow> error" where
  "badSecret name ns what = ApiError ReasonBadRequest
     (''TLS secret '' @ name @ '' in namespace '' @ ns @ '' does not have the '' @ what)"

text \<open>A secret that must exist: the failure to get it is recorded and returned.\<close>

definition getTLSSecret :: "reconciler \<Rightarrow> string \<Rightarrow> string \<Rightarrow> string \<Rightarrow> secret prog" where
  "getTLSSecret R what ns name =
     tryM (getSecret (rec_Client R) (ns, name)) (case_sum
       (\<lambda>err. bindM (tlsError (''Failed to get '' @ what @ '' secret '' @ name @ '' in namespace '' @ ns
                  @ '': '' @ errString err)) (\<lambda>_. throw err))
       ret)"

text \<open>A secret that must have keys: the failure is recorded and returned.\<close>

definition requireKeys :: "secret \<Rightarrow> string list \<Rightarrow> error \<Rightarrow> unit prog" where
  "requireKeys s ks err =
     (if list_all (hasKey s) ks then ret ()
      else bindM (tlsError (errString err)) (\<lambda>_. throw err))"

definition checkTLSSecrets :: "reconciler \<Rightarrow> unit prog" where
  "checkTLSSecrets R = bindM getRmq (\<lambda>c.
     let ns = rc_Namespace c; secretName = tls_SecretName (spec_TLS (rc_Spec c));
         caSecretName = tls_CaSecretName (spec_TLS (rc_Spec c)) in
     bindM (getTLSSecret R ''TLS'' ns secretName) (\<lambda>secret.
     bindM (requireKeys secret [''tls.crt'', ''tls.key'']
              (badSecret secretName ns ''fields tls.crt and tls.key'')) (\<lambda>_.
     if MutualTLSEnabled c
     then bindM (if \<not> SingleTLSSecret c then getTLSSecret R ''CA certificate'' ns caSecretName else ret secret) (\<lambda>secret.
          requireKeys secret [''ca.crt''] (badSecret caSecretName ns ''field ca.crt''))
     else ret ())))"

definition reconcileTLS :: "reconciler \<Rightarrow> unit prog" where
  "reconcileTLS R = bindM getRmq (\<lambda>c.
     if DisableNonTLSListeners c \<and> \<not> TLSEnabled c
     then bindM (tlsError (errString DisableNonTLSConfigErr)) (\<lambda>_.
          bindM (setReconcileSuccess R ConditionFalse ''TLSError'' (errString DisableNonTLSConfigErr)) (\<lambda>_.
          throw DisableNonTLSConfigErr))
     else if SecretTLSEnabled c
     then tryM (checkTLSSecrets R) (case_sum
            (\<lambda>err. bindM (setReconcileSuccess R ConditionFalse ''TLSError'' (errString err)) (\<lambda>_. throw err))
            ret)
     else ret ())"

section \<open>No step writes a child object\<close>

definition writesChild :: "event \<Rightarrow> bool" where
  "writesChild e = (case e of
      UpdateSts s r \<Rightarrow> True | DeleteSts k opts r \<Rightarrow> True | UpdateConfigMap c r \<Rightarrow> True
    | UpdatePod p r \<Rightarrow> True | UpdatePVC ns p r \<Rightarrow> True | CreateObject ob r \<Rightarrow> True
    | UpdateObject ob r \<Rightarrow> True | Exec k con cmd r \<Rightarrow> True | _ \<Rightarrow> False)"

lemma writesChild_reads [simp]:
  "\<not> writesChild (Clock t)" "\<not> writesChild (Sleep n)" "\<not> writesChild (Recorded ty reason msg)"
  "\<not> writesChild (GetCluster k r1)" "\<not> writesChild (UpdateCluster c r1)" "\<not> writesChild (UpdateClusterStatus c r1)"
  "\<not> writesChild (GetSts k r2)" "\<not> writesChild (GetConfigMap k r3)" "\<not> writesChild (GetSecret k r4)"
  "\<not> writesChild (GetEndpoints k r5)" "\<not> writesChild (ListPods sel r6)" "\<not> writesChild (GetPVC k r7)"
  "\<not> writesChild (ReadObject i r8)"
  by (simp_all add: writesChild_def)

lemma thenUpdate_only [only_intros]:
  "(\<And>c r. P (UpdateCluster c r)) \<Longrightarrow> only P rest \<Longrightarrow> only P (thenUpdate R rest)"
  unfolding thenUpdate_def updateRabbitmqCluster_def by (intro only_intros)

lemma defaults_only [only_intros]:
  "(\<And>c r. P (UpdateCluster c r)) \<Longrightarrow> only P (reconcileOperatorDefaults R)"
  unfolding reconcileOperatorDefaults_def applyDefault_def modifySpec_def by (intro only_intros)

lemma finalizer_only [only_intros]:
  "(\<And>c r. P (UpdateCluster c r)) \<Longrightarrow> only P (addFinalizerIfNeeded R)"
  unfolding addFinalizerIfNeeded_def modifyMeta_def by (intro only_intros)

lemma setCondition_only [only_intros]:
  "(\<And>t. P (Clock t)) \<Longrightarrow> only P (setCondition R ty st reason msgs)"
  unfolding setCondition_def modifyStatus_def by (intro only_intros)

lemma updateStatusOrLog_only [only_intros]:
  "(\<And>c r. P (UpdateClusterStatus c r)) \<Longrightarrow> only P (updateStatusOrLog R)"
  unfolding updateStatusOrLog_def by (intro only_intros)

lemma setReconcileSuccess_only [only_intros]:
  "(\<And>t. P (Clock t)) \<Longrightarrow> (\<And>c r. P (UpdateClusterStatus c r)) \<Longrightarrow> only P (setReconcileSuccess R st reason msg)"
  unfolding setReconcileSuccess_def by (intro only_intros)

lemma updateStatusConditions_only [only_intros]:
  assumes "\<And>t. P (Clock t)" "\<And>c r. P (UpdateClusterStatus c r)" "\<And>k r. P (GetSts k r)" "\<And>k r. P (GetEndpoints k r)"
  shows "only P (updateStatusConditions R)"
  unfolding updateStatusConditions_def getChildResources_def setConditions_def modifyStatus_def Let_def
  by (intro only_intros assms)

lemma reconcileStatus_only [only_intros]:
  "(\<And>c r. P (UpdateClusterStatus c r)) \<Longrightarrow> only P (reconcileStatus R)"
  unfolding reconcileStatus_def modifyStatus_def by (intro only_intros)

lemma scaleDown_only [only_intros]:
  assumes "\<And>t. P (Clock t)" "\<And>c r. P (UpdateClusterStatus c r)" "\<And>ty reason msg. P (Recorded ty reason msg)"
  shows "only P (scaleDown R current sts)"
  unfolding scaleDown_def Let_def by (intro only_intros assms)

lemma reconcileTLS_only [only_intros]:
  assumes "\<And>t. P (Clock t)" "\<And>c r. P (UpdateClusterStatus c r)" "\<And>ty reason msg. P (Recorded ty reason msg)"
    and "\<And>k r. P (GetSecret k r)"
  shows "only P (reconcileTLS R)"
  unfolding reconcileTLS_def checkTLSSecrets_def getTLSSecret_def requireKeys_def tlsError_def Let_def
  by (intro only_intros assms)

lemma statefulSet_only [only_intros]: "(\<And>k r. P (GetSts k r)) \<Longrightarrow> only P (statefulSet R)"
  unfolding statefulSet_def by (intro only_intros)

lemma configMap_only [only_intros]: "(\<And>k r. P (GetConfigMap k r)) \<Longrightarrow> only P (configMap R name)"
  unfolding configMap_def by (intro only_intros)

section \<open>Defaults\<close>

text \<open>A server that stores what it is sent and returns it.\<close>

definition echoes :: "api \<Rightarrow> bool" where
  "echoes S \<longleftrightarrow> (\<forall>c l. api_updateCluster S c l = Inr c \<and> api_updateStatus S c l = Inr c)"

text \<open>The defaults as one function on the resource.\<close>

definition withDefaults :: "reconciler \<Rightarrow> rabbitmqCluster \<Rightarrow> rabbitmqCluster" where
  "withDefaults R c =
     (let c1 = (if needsImage c then c\<lparr>rc_Spec := defaultImage R (rc_Spec c)\<rparr> else c);
          c2 = (if needsPullSecrets c1 then c1\<lparr>rc_Spec := defaultPullSecrets R (rc_Spec c1)\<rparr> else c1)
      in if UsesDefaultUserUpdaterImage c2 then c2\<lparr>rc_Spec := defaultUpdater R (rc_Spec c2)\<rparr> else c2)"

lemma run_applyDefault:
  assumes "echoes (rec_Client R)"
  shows "applyDefault R needed f rest w =
    (if needed (w_rmq w)
     then rest (w\<lparr>w_rmq := (w_rmq w)\<lparr>rc_Spec := f (rc_Spec (w_rmq w))\<rparr>,
            w_log := w_log w @ [UpdateCluster ((w_rmq w)\<lparr>rc_Spec := f (rc_Spec (w_rmq w))\<rparr>)
              (Inr ((w_rmq w)\<lparr>rc_Spec := f (rc_Spec (w_rmq w))\<rparr>))]\<rparr>)
     else rest w)"
  using assms
  by (simp add: applyDefault_def modifySpec_def thenUpdate_def updateRabbitmqCluster_def bindM_def tryM_def
      run_simps echoes_def)

lemma appendRefs_eq: "appendRefs refs secrets =
    (if filter (\<lambda>r. r \<noteq> []) refs = [] then secrets else Some (slice secrets @ filter (\<lambda>r. r \<noteq> []) refs))"
  by (induction refs arbitrary: secrets) auto

definition imageOr :: "reconciler \<Rightarrow> string \<Rightarrow> string" where
  "imageOr R img = (if img = [] then rec_DefaultRabbitmqImage R else img)"

definition pullSecretsOr :: "reconciler \<Rightarrow> string list option \<Rightarrow> string list option" where
  "pullSecretsOr R secrets = (if secrets = None
     then appendRefs (strSplit (rec_DefaultImagePullSecrets R) (CHR '','')) None else secrets)"

definition updaterOr :: "reconciler \<Rightarrow> vaultSpec \<Rightarrow> vaultSpec" where
  "updaterOr R v = (if va_DefaultUserUpdaterImage v = None
     then v\<lparr>va_DefaultUserUpdaterImage := Some (rec_DefaultUserUpdaterImage R)\<rparr> else v)"

lemma image_step: "(if needsImage c then c\<lparr>rc_Spec := defaultImage R (rc_Spec c)\<rparr> else c)
    = c\<lparr>rc_Spec := (rc_Spec c)\<lparr>spec_Image := imageOr R (spec_Image (rc_Spec c))\<rparr>\<rparr>"
  by (simp add: needsImage_def defaultImage_def imageOr_def)

lemma secrets_step: "(if needsPullSecrets c then c\<lparr>rc_Spec := defaultPullSecrets R (rc_Spec c)\<rparr> else c)
    = c\<lparr>rc_Spec := (rc_Spec c)\<lparr>spec_ImagePullSecrets := pullSecretsOr R (spec_ImagePullSecrets (rc_Spec c))\<rparr>\<rparr>"
  by (simp add: needsPullSecrets_def defaultPullSecrets_def pullSecretsOr_def)

lemma updater_step: "(if UsesDefaultUserUpdaterImage c then c\<lparr>rc_Spec := defaultUpdater R (rc_Spec c)\<rparr> else c)
    = c\<lparr>rc_Spec := (rc_Spec c)\<lparr>spec_Vault := map_option (updaterOr R) (spec_Vault (rc_Spec c))\<rparr>\<rparr>"
  by (cases "spec_Vault (rc_Spec c)")
     (simp_all add: UsesDefaultUserUpdaterImage_def defaultUpdater_def updaterOr_def)

text \<open>Each field is filled on its own, and only where it is empty.\<close>

lemma withDefaults_eq:
  "withDefaults R c = c\<lparr>rc_Spec := (rc_Spec c)
     \<lparr>spec_Image := imageOr R (spec_Image (rc_Spec c)),
      spec_ImagePullSecrets := pullSecretsOr R (spec_ImagePullSecrets (rc_Spec c)),
      spec_Vault := map_option (updaterOr R) (spec_Vault (rc_Spec c))\<rparr>\<rparr>"
  unfolding withDefaults_def Let_def image_step secrets_step updater_step by simp

lemma fills_again [simp]:
  "imageOr R (imageOr R i) = imageOr R i" "pullSecretsOr R (pullSecretsOr R s) = pullSecretsOr R s"
  "updaterOr R (updaterOr R v) = updaterOr R v"
  by (simp_all add: imageOr_def pullSecretsOr_def updaterOr_def)

lemma withDefaults_again: "withDefaults R (withDefaults R c) = withDefaults R c"
  by (simp add: withDefaults_eq option.map_comp comp_def)

lemma run_defaults:
  assumes "echoes (rec_Client R)"
  shows "\<exists>es. reconcileOperatorDefaults R w
      = (Ok (0, None), w\<lparr>w_rmq := withDefaults R (w_rmq w), w_log := w_log w @ es\<rparr>) \<and> length es \<le> 3"
proof -
  let ?c1 = "if needsImage (w_rmq w) then (w_rmq w)\<lparr>rc_Spec := defaultImage R (rc_Spec (w_rmq w))\<rparr> else w_rmq w"
  let ?c2 = "if needsPullSecrets ?c1 then ?c1\<lparr>rc_Spec := defaultPullSecrets R (rc_Spec ?c1)\<rparr> else ?c1"
  let ?up = "\<lambda>c. [UpdateCluster c (Inr c)]"
  let ?c3 = "withDefaults R (w_rmq w)"
  let ?es = "(if needsImage (w_rmq w) then ?up ?c1 else [])
     @ (if needsPullSecrets ?c1 then ?up ?c2 else []) @ (if UsesDefaultUserUpdaterImage ?c2 then ?up ?c3 else [])"
  have "reconcileOperatorDefaults R w = (Ok (0, None), w\<lparr>w_rmq := ?c3, w_log := w_log w @ ?es\<rparr>)"
    unfolding reconcileOperatorDefaults_def run_applyDefault [OF assms] withDefaults_def Let_def
    by (simp add: run_simps)
  then show ?thesis by (intro exI conjI) (assumption, simp)
qed

text \<open>
  C29. With a server that stores what it is sent, filling in the operator's defaults ends with the
  function \<open>withDefaults\<close> applied to the resource: an image, image pull secrets or an
  updater image the user has given stay as they are, and nothing else of the resource changes.
  A resource that has been through it once is not changed again.
\<close>

theorem defaults_spec:
  assumes "echoes (rec_Client R)"
  shows "(\<exists>es. reconcileOperatorDefaults R w
      = (Ok (0, None), w\<lparr>w_rmq := withDefaults R (w_rmq w), w_log := w_log w @ es\<rparr>) \<and> length es \<le> 3)
    \<and> withDefaults R c = c\<lparr>rc_Spec := (rc_Spec c)
        \<lparr>spec_Image := imageOr R (spec_Image (rc_Spec c)),
         spec_ImagePullSecrets := pullSecretsOr R (spec_ImagePullSecrets (rc_Spec c)),
         spec_Vault := map_option (updaterOr R) (spec_Vault (rc_Spec c))\<rparr>\<rparr>
    \<and> withDefaults R (withDefaults R c) = withDefaults R c"
  using run_defaults [OF assms] withDefaults_eq withDefaults_again by blast

lemma sample_echoes: "echoes sampleApi"
  by (simp add: echoes_def sampleApi_def withLibraries_def sampleBase_def)

theorem defaults_spec_witness:
  "\<exists>es. reconcileOperatorDefaults (sampleReconciler sampleApi) (sampleWorld\<lparr>w_rmq := vaultCluster\<rparr>)
      = (Ok (0, None), sampleWorld\<lparr>w_rmq := withDefaults (sampleReconciler sampleApi) vaultCluster, w_log := es\<rparr>)"
  using defaults_spec [of "sampleReconciler sampleApi" "sampleWorld\<lparr>w_rmq := vaultCluster\<rparr>" vaultCluster] sample_echoes
  by auto

text \<open>
  The comment of \<^verbatim>\<open>updateRabbitmqCluster\<close> promises a requeue after a conflict. Its caller
  looks at the error only: a conflict on every update goes unnoticed and the reconciliation
  goes on with a resource the server has refused.
\<close>

lemma defaults_conflict_dropped:
  assumes "\<forall>c l. api_updateCluster (rec_Client R) c l = Inl (ReasonConflict, m)"
  shows "fst (updateRabbitmqCluster R w) = Ok (2, None) \<and> fst (reconcileOperatorDefaults R w) = Ok (0, None)"
proof -
  have up: "updateRabbitmqCluster R v =
      (Ok (2, None), v\<lparr>w_log := w_log v @ [UpdateCluster (w_rmq v) (Inl (ReasonConflict, m))]\<rparr>)" for v
    using assms by (simp add: updateRabbitmqCluster_def tryM_def run_simps)
  have step: "fst (applyDefault R needed f rest v) = Ok (0, None)" if "\<And>v. fst (rest v) = Ok (0, None)" for needed f rest v
    using that by (simp add: applyDefault_def modifySpec_def thenUpdate_def bindM_def run_simps up)
  show ?thesis unfolding reconcileOperatorDefaults_def up
    by (simp add: step run_simps)
qed

section \<open>The references in the status\<close>

definition statusSettled :: "rabbitmqCluster \<Rightarrow> bool" where
  "statusSettled c \<longleftrightarrow> cst_DefaultUser (rc_Status c) = Some (defaultUserStatusOf c) \<and> cst_Binding (rc_Status c) = bindingOf c"

text \<open>
  With a server that stores what it is sent, reconciling the status leaves the references to
  the default user's secret and service, and the binding, as the resource asks for: both name
  the secret the default user builder makes, or no secret when Vault holds the user. The rest
  of the resource is untouched, and one update is sent at most, none when all is settled.
\<close>

theorem status_references:
  assumes "echoes (rec_Client R)" and "reconcileStatus R w = (r, w')"
  shows "r = Ok () \<and> statusSettled (w_rmq w')
    \<and> (w_rmq w')\<lparr>rc_Status := rc_Status (w_rmq w)\<rparr> = w_rmq w
    \<and> cst_Conditions (rc_Status (w_rmq w')) = cst_Conditions (rc_Status (w_rmq w))
    \<and> w_log w' = w_log w @ (if statusSettled (w_rmq w) then [] else [UpdateClusterStatus (w_rmq w') (Inr (w_rmq w'))])
    \<and> (\<forall>n. cst_Binding (rc_Status (w_rmq w')) = Some n \<longrightarrow>
          targetId (w_rmq w') DefaultUserSecretBuilder = (KSecret, (rc_Namespace (w_rmq w'), n))
          \<and> DefaultUserSecretBuilder \<in> set (ResourceBuilders (w_rmq w')))"
proof -
  let ?c = "w_rmq w"
  let ?c' = "?c\<lparr>rc_Status := (rc_Status ?c)\<lparr>cst_DefaultUser := Some (defaultUserStatusOf ?c), cst_Binding := bindingOf ?c\<rparr>\<rparr>"
  have same: "defaultUserStatusOf ?c' = defaultUserStatusOf ?c" "bindingOf ?c' = bindingOf ?c"
    "VaultDefaultUserSecretEnabled ?c' = VaultDefaultUserSecretEnabled ?c"
    by (simp_all add: defaultUserStatusOf_def bindingOf_def VaultDefaultUserSecretEnabled_def ChildResourceName_def
        cong: option.case_cong)
  have bound: "targetId c DefaultUserSecretBuilder = (KSecret, (rc_Namespace c, n))
      \<and> DefaultUserSecretBuilder \<in> set (ResourceBuilders c)" if "bindingOf c = Some n" for c n
    using that by (auto simp: bindingOf_def targetId_def DefaultUserSecretName_def builders_mem split: if_splits)
  show ?thesis
  proof (cases "statusSettled ?c")
    case True
    with assms have "r = Ok () \<and> w' = w"
      by (simp add: reconcileStatus_def bindM_def run_simps statusSettled_def)
    with True bound show ?thesis by (auto simp: statusSettled_def)
  next
    case False
    with assms have "r = Ok () \<and> w_rmq w' = ?c' \<and> w_log w' = w_log w @ [UpdateClusterStatus ?c' (Inr ?c')]"
      by (auto simp: reconcileStatus_def modifyStatus_def bindM_def run_simps statusSettled_def echoes_def)
    with False bound [of ?c'] same show ?thesis by (auto simp: statusSettled_def)
  qed
qed

theorem status_references_witness:
  "\<exists>w'. reconcileStatus (sampleReconciler sampleApi) (sampleWorld\<lparr>w_rmq := vaultCluster\<rparr>) = (Ok (), w')
     \<and> statusSettled (w_rmq w') \<and> \<not> statusSettled vaultCluster"
proof -
  have vault: "VaultDefaultUserSecretEnabled vaultCluster"
    by (simp add: VaultDefaultUserSecretEnabled_def vaultCluster_def sampleVault_def
        vaultSpec_DefaultUserSecretEnabled_def)
  then have no: "\<not> statusSettled vaultCluster"
    by (simp add: statusSettled_def bindingOf_def vaultCluster_def sampleCluster_def)
  obtain r w' where run: "reconcileStatus (sampleReconciler sampleApi) (sampleWorld\<lparr>w_rmq := vaultCluster\<rparr>) = (r, w')"
    by fastforce
  with no status_references [OF _ run] sample_echoes show ?thesis by auto
qed

section \<open>Reporting a result\<close>

definition withCondition :: "gotime \<Rightarrow> conditionType \<Rightarrow> conditionStatus \<Rightarrow> string \<Rightarrow> string \<Rightarrow> rabbitmqCluster \<Rightarrow> rabbitmqCluster" where
  "withCondition t ty st reason msg c = c\<lparr>rc_Status := SetCondition t ty st reason [msg] (rc_Status c)\<rparr>"

lemma run_setReconcileSuccess:
  "\<exists>t resp c'. setReconcileSuccess R st reason msg w = (Ok (), w\<lparr>w_rmq := c',
     w_log := w_log w @ [Clock t, UpdateClusterStatus (withCondition t ReconcileSuccess st reason msg (w_rmq w)) resp]\<rparr>)
   \<and> c' = (case resp of Inl e \<Rightarrow> withCondition t ReconcileSuccess st reason msg (w_rmq w) | Inr c \<Rightarrow> c)"
proof -
  let ?t = "api_now (rec_Client R) (w_log w)"
  let ?c = "withCondition ?t ReconcileSuccess st reason msg (w_rmq w)"
  let ?resp = "api_updateStatus (rec_Client R) ?c (w_log w @ [Clock ?t])"
  show ?thesis
  proof (cases ?resp)
    case (Inl e)
    obtain q m where "e = (q, m)" by (cases e)
    with Inl show ?thesis
      by (intro exI [of _ ?t] exI [of _ ?resp])
         (simp add: setReconcileSuccess_def setCondition_def modifyStatus_def updateStatusOrLog_def bindM_def
          tryM_def run_simps withCondition_def)
  next
    case (Inr c)
    then show ?thesis
      by (intro exI [of _ ?t] exI [of _ ?resp])
         (simp add: setReconcileSuccess_def setCondition_def modifyStatus_def updateStatusOrLog_def bindM_def
          tryM_def run_simps withCondition_def)
  qed
qed

section \<open>When TLS is accepted\<close>

definition secretWith :: "(nskey \<Rightarrow> secret response) \<Rightarrow> nskey \<Rightarrow> string list \<Rightarrow> bool" where
  "secretWith get k ks = (case get k of Inl e \<Rightarrow> False | Inr s \<Rightarrow> list_all (hasKey s) ks)"

definition secretsOK :: "(nskey \<Rightarrow> secret response) \<Rightarrow> rabbitmqCluster \<Rightarrow> bool" where
  "secretsOK get c \<longleftrightarrow>
     secretWith get (rc_Namespace c, tls_SecretName (spec_TLS (rc_Spec c))) [''tls.crt'', ''tls.key'']
   \<and> (MutualTLSEnabled c \<longrightarrow> secretWith get (rc_Namespace c, tls_CaSecretName (spec_TLS (rc_Spec c))) [''ca.crt''])"

definition tlsAccepted :: "(nskey \<Rightarrow> secret response) \<Rightarrow> rabbitmqCluster \<Rightarrow> bool" where
  "tlsAccepted get c \<longleftrightarrow> (DisableNonTLSListeners c \<longrightarrow> TLSEnabled c) \<and> (SecretTLSEnabled c \<longrightarrow> secretsOK get c)"

definition servesSecrets :: "api \<Rightarrow> (nskey \<Rightarrow> secret response) \<Rightarrow> bool" where
  "servesSecrets S get \<longleftrightarrow> (\<forall>k l. api_getSecret S k l = get k)"

lemma tls_logsOnly [frame_intros]:
  "logsOnly (getTLSSecret R what ns name)" "logsOnly (requireKeys s ks err)" "logsOnly (checkTLSSecrets R)"
  unfolding checkTLSSecrets_def getTLSSecret_def requireKeys_def tlsError_def Let_def
  by (intro frame_intros)+

lemma run_getTLSSecret:
  assumes "servesSecrets (rec_Client R) get"
  shows "\<exists>w'. getTLSSecret R what ns name w = (fromResponse (get (ns, name)), w')"
proof (cases "get (ns, name)")
  case (Inl e)
  obtain q m where "e = (q, m)" by (cases e)
  with assms Inl show ?thesis
    by (simp add: getTLSSecret_def tlsError_def tryM_def bindM_def run_simps servesSecrets_def)
next
  case (Inr s)
  with assms show ?thesis by (simp add: getTLSSecret_def tryM_def run_simps servesSecrets_def)
qed

lemma run_requireKeys:
  "\<exists>w'. requireKeys s ks err w = (if list_all (hasKey s) ks then Ok () else Err err, w')"
  by (simp add: requireKeys_def tlsError_def bindM_def run_simps)

text \<open>Getting a secret and checking its keys.\<close>

lemma run_needSecret:
  assumes get: "\<And>w. \<exists>w'. m w = (fromResponse (get k), w')"
    and rest: "\<And>s w. get k = Inr s \<Longrightarrow> secretWith get k ks \<Longrightarrow>
      if ok then fst (rest s w) = Ok () else \<exists>q m. fst (rest s w) = Err (ApiError q m)"
  shows "if secretWith get k ks \<and> ok
    then fst (bindM m (\<lambda>s. bindM (requireKeys s ks (ApiError q0 m0)) (\<lambda>_. rest s)) w) = Ok ()
    else \<exists>q m'. fst (bindM m (\<lambda>s. bindM (requireKeys s ks (ApiError q0 m0)) (\<lambda>_. rest s)) w) = Err (ApiError q m')"
proof -
  from get [of w] obtain w1 where w1: "m w = (fromResponse (get k), w1)" ..
  show ?thesis
  proof (cases "get k")
    case (Inl e)
    obtain q m' where "e = (q, m')" by (cases e)
    with Inl w1 show ?thesis by (simp add: bindM_def secretWith_def)
  next
    case (Inr s)
    from run_requireKeys [of s ks "ApiError q0 m0" w1] obtain w2 where
      w2: "requireKeys s ks (ApiError q0 m0) w1 = (if list_all (hasKey s) ks then Ok () else Err (ApiError q0 m0), w2)" ..
    have with_iff: "secretWith get k ks \<longleftrightarrow> list_all (hasKey s) ks" using Inr by (simp add: secretWith_def)
    show ?thesis
      using w1 w2 Inr rest [OF Inr, of w2] unfolding with_iff by (simp add: bindM_def)
  qed
qed

lemma bind_ret_unit: "bindM m (\<lambda>_. ret ()) = (m :: unit prog)"
  by (rule ext) (simp add: bindM_def ret_def split: prod.split outcome.split)

lemma checkTLSSecrets_verdict:
  assumes "servesSecrets (rec_Client R) get"
  shows "if secretsOK get (w_rmq w) then fst (checkTLSSecrets R w) = Ok ()
    else \<exists>q m. fst (checkTLSSecrets R w) = Err (ApiError q m)"
proof -
  let ?c = "w_rmq w"
  let ?k = "(rc_Namespace ?c, tls_SecretName (spec_TLS (rc_Spec ?c)))"
  let ?ca = "(rc_Namespace ?c, tls_CaSecretName (spec_TLS (rc_Spec ?c)))"
  let ?bad = "badSecret (tls_CaSecretName (spec_TLS (rc_Spec ?c))) (rc_Namespace ?c) ''field ca.crt''"
  let ?ok = "MutualTLSEnabled ?c \<longrightarrow> secretWith get ?ca [''ca.crt'']"
  let ?pick = "\<lambda>s. if \<not> SingleTLSSecret ?c then getTLSSecret R ''CA certificate'' (rc_Namespace ?c)
      (tls_CaSecretName (spec_TLS (rc_Spec ?c))) else ret s"
  let ?rest = "\<lambda>s. if MutualTLSEnabled ?c then bindM (?pick s) (\<lambda>s. requireKeys s [''ca.crt''] ?bad) else ret ()"
  have pick: "\<exists>w'. ?pick s v = (fromResponse (get ?ca), w')" if "get ?k = Inr s" for s v
    using that run_getTLSSecret [OF assms] by (auto simp: SingleTLSSecret_def run_simps)
  have rest: "if ?ok then fst (?rest s v) = Ok () else \<exists>q m. fst (?rest s v) = Err (ApiError q m)"
    if "get ?k = Inr s" for s v
  proof (cases "MutualTLSEnabled ?c")
    case True
    obtain q0 m0 where bad: "?bad = ApiError q0 m0" by (simp add: badSecret_def)
    have "if secretWith get ?ca [''ca.crt''] \<and> True
      then fst (bindM (?pick s) (\<lambda>s. bindM (requireKeys s [''ca.crt''] ?bad) (\<lambda>_. ret ())) v) = Ok ()
      else \<exists>q m. fst (bindM (?pick s) (\<lambda>s. bindM (requireKeys s [''ca.crt''] ?bad) (\<lambda>_. ret ())) v) = Err (ApiError q m)"
      unfolding bad by (rule run_needSecret) (use pick [OF that] in \<open>simp_all add: run_simps\<close>)
    with True show ?thesis unfolding bind_ret_unit by (simp only: if_True simp_thms)
  qed (simp add: run_simps)
  have "checkTLSSecrets R w = bindM (getTLSSecret R ''TLS'' (rc_Namespace ?c) (tls_SecretName (spec_TLS (rc_Spec ?c))))
      (\<lambda>s. bindM (requireKeys s [''tls.crt'', ''tls.key''] (badSecret (tls_SecretName (spec_TLS (rc_Spec ?c)))
        (rc_Namespace ?c) ''fields tls.crt and tls.key'')) (\<lambda>_. ?rest s)) w"
    by (simp add: checkTLSSecrets_def Let_def bindM_def run_simps)
  then show ?thesis
    using run_needSecret [where ks = "[''tls.crt'', ''tls.key'']" and ok = ?ok and rest = ?rest and k = ?k
        and get = get and w = w, OF run_getTLSSecret [OF assms] rest]
    unfolding badSecret_def secretsOK_def by simp
qed

text \<open>The last thing sent is a status that reports the error.\<close>

definition reportsTLS :: "world \<Rightarrow> error \<Rightarrow> world \<Rightarrow> bool" where
  "reportsTLS w e w' \<longleftrightarrow> (\<exists>t resp. last (w_log w') = UpdateClusterStatus
     (withCondition t ReconcileSuccess ConditionFalse ''TLSError'' (errString e) (w_rmq w)) resp)"

lemma run_report:
  assumes "w_rmq v = w_rmq w"
  shows "\<exists>v'. bindM (setReconcileSuccess R ConditionFalse ''TLSError'' (errString e)) (\<lambda>_. throw e) v = (Err e, v')
     \<and> reportsTLS w e v'"
proof -
  let ?c = "\<lambda>t. withCondition t ReconcileSuccess ConditionFalse ''TLSError'' (errString e) (w_rmq v)"
  from run_setReconcileSuccess [of R ConditionFalse "''TLSError''" "errString e" v] obtain t resp c' where
    "setReconcileSuccess R ConditionFalse ''TLSError'' (errString e) v = (Ok (), v\<lparr>w_rmq := c',
       w_log := w_log v @ [Clock t, UpdateClusterStatus (?c t) resp]\<rparr>)"
    by blast
  then have run: "bindM (setReconcileSuccess R ConditionFalse ''TLSError'' (errString e)) (\<lambda>_. throw e) v
      = (Err e, v\<lparr>w_rmq := c', w_log := w_log v @ [Clock t, UpdateClusterStatus (?c t) resp]\<rparr>)"
    by (simp add: bindM_def run_simps)
  have "reportsTLS w e (v\<lparr>w_rmq := c', w_log := w_log v @ [Clock t, UpdateClusterStatus (?c t) resp]\<rparr>)"
    unfolding reportsTLS_def assms [symmetric] by (rule exI [of _ t], rule exI [of _ resp]) simp
  with run show ?thesis by blast
qed

lemma tls_misconfigured:
  assumes "DisableNonTLSListeners (w_rmq w) \<and> \<not> TLSEnabled (w_rmq w)"
  shows "\<exists>w'. reconcileTLS R w = (Err DisableNonTLSConfigErr, w') \<and> reportsTLS w DisableNonTLSConfigErr w'"
proof -
  let ?msg = "errString DisableNonTLSConfigErr"
  let ?v = "w\<lparr>w_log := w_log w @ [Recorded EventTypeWarning ''TLSError'' ?msg]\<rparr>"
  have "reconcileTLS R w
      = bindM (setReconcileSuccess R ConditionFalse ''TLSError'' ?msg) (\<lambda>_. throw DisableNonTLSConfigErr) ?v"
    using assms unfolding reconcileTLS_def tlsError_def by (simp add: run_simps del: errString.simps)
  moreover have "w_rmq ?v = w_rmq w" by simp
  ultimately show ?thesis using run_report [of ?v w R DisableNonTLSConfigErr] by simp
qed

lemma tls_secrets:
  assumes "servesSecrets (rec_Client R) get" and "\<not> (DisableNonTLSListeners (w_rmq w) \<and> \<not> TLSEnabled (w_rmq w))"
    and "SecretTLSEnabled (w_rmq w)"
  shows "\<exists>r w'. reconcileTLS R w = (r, w') \<and>
     (if secretsOK get (w_rmq w) then r = Ok () \<and> w_rmq w' = w_rmq w
      else \<exists>q m. r = Err (ApiError q m) \<and> reportsTLS w (ApiError q m) w')"
proof -
  from logsOnly_pair [OF tls_logsOnly(3), of R w] obtain es where
    check: "checkTLSSecrets R w = (fst (checkTLSSecrets R w), w\<lparr>w_log := w_log w @ es\<rparr>)" by blast
  let ?v = "w\<lparr>w_log := w_log w @ es\<rparr>"
  have tls: "reconcileTLS R w = tryM (checkTLSSecrets R) (case_sum
      (\<lambda>err. bindM (setReconcileSuccess R ConditionFalse ''TLSError'' (errString err)) (\<lambda>_. throw err)) ret) w"
    using assms(2,3) by (auto simp: reconcileTLS_def bindM_def run_simps)
  show ?thesis
  proof (cases "secretsOK get (w_rmq w)")
    case True
    with checkTLSSecrets_verdict [OF assms(1), of w] check have "checkTLSSecrets R w = (Ok (), ?v)" by simp
    with True tls show ?thesis by (simp add: tryM_def run_simps)
  next
    case False
    with checkTLSSecrets_verdict [OF assms(1), of w] obtain q m where
      "fst (checkTLSSecrets R w) = Err (ApiError q m)" by auto
    with check tls have "reconcileTLS R w = bindM (setReconcileSuccess R ConditionFalse ''TLSError''
        (errString (ApiError q m))) (\<lambda>_. throw (ApiError q m)) ?v"
      by (simp add: tryM_def)
    with run_report [of ?v w R "ApiError q m"] False show ?thesis by auto
  qed
qed

lemma tls_decides:
  assumes "servesSecrets (rec_Client R) get" and "reconcileTLS R w = (r, w')"
  shows "(r = Ok () \<longleftrightarrow> tlsAccepted get (w_rmq w)) \<and> (r = Ok () \<longrightarrow> w_rmq w' = w_rmq w)
    \<and> (r \<noteq> Ok () \<longrightarrow> (\<exists>e. r = Err e \<and> reportsTLS w e w'
        \<and> (e = DisableNonTLSConfigErr \<longleftrightarrow> DisableNonTLSListeners (w_rmq w) \<and> \<not> TLSEnabled (w_rmq w))))
    \<and> list_all (\<lambda>e. \<not> writesChild e) (events (reconcileTLS R) w)"
proof -
  have quiet: "list_all (\<lambda>e. \<not> writesChild e) (events (reconcileTLS R) w)"
    by (rule only_events) (intro only_intros; simp)
  consider (misconfigured) "DisableNonTLSListeners (w_rmq w) \<and> \<not> TLSEnabled (w_rmq w)"
    | (secrets) "\<not> (DisableNonTLSListeners (w_rmq w) \<and> \<not> TLSEnabled (w_rmq w))" "SecretTLSEnabled (w_rmq w)"
    | (none) "\<not> (DisableNonTLSListeners (w_rmq w) \<and> \<not> TLSEnabled (w_rmq w))" "\<not> SecretTLSEnabled (w_rmq w)"
    by blast
  then show ?thesis
  proof cases
    case misconfigured
    with tls_misconfigured [of w R] assms(2) quiet show ?thesis by (auto simp: tlsAccepted_def)
  next
    case secrets
    with tls_secrets [OF assms(1) secrets] assms(2) quiet show ?thesis
      by (auto simp: tlsAccepted_def split: if_splits)
  next
    case none
    with assms(2) have "r = Ok ()" "w' = w" by (auto simp: reconcileTLS_def bindM_def run_simps)
    with none quiet show ?thesis by (auto simp: tlsAccepted_def)
  qed
qed

text \<open>
  C15. The TLS settings of a cluster are accepted exactly when plain listeners are disabled only
  on a cluster with TLS, and every secret the settings name exists with the keys it must have
  (\<^verbatim>\<open>tls.crt\<close> and \<^verbatim>\<open>tls.key\<close>, and \<^verbatim>\<open>ca.crt\<close> for mutual TLS). Otherwise
  the last thing sent is a status that reports the error; the special error that stops the
  requeueing is returned in the first case only. No child object is written either way.
\<close>

theorem tls_verdict:
  assumes "servesSecrets (rec_Client R) get" and "reconcileTLS R w = (r, w')"
  shows "(r = Ok () \<longleftrightarrow> tlsAccepted get (w_rmq w)) \<and> (r = Ok () \<longrightarrow> w_rmq w' = w_rmq w)
    \<and> (r \<noteq> Ok () \<longrightarrow> (\<exists>e. r = Err e \<and> reportsTLS w e w'
        \<and> (e = DisableNonTLSConfigErr \<longleftrightarrow> DisableNonTLSListeners (w_rmq w) \<and> \<not> TLSEnabled (w_rmq w))))
    \<and> list_all (\<lambda>e. \<not> writesChild e) (events (reconcileTLS R) w)"
  using assms by (rule tls_decides)

lemma sample_noSecrets: "servesSecrets sampleApi (\<lambda>k. Inl (ReasonNotFound, ''not found''))"
  by (simp add: servesSecrets_def sampleApi_def withLibraries_def sampleBase_def absent_def)

theorem tls_verdict_witness:
  "\<exists>e w'. reconcileTLS (sampleReconciler sampleApi) sampleWorld = (Err e, w') \<and> e \<noteq> DisableNonTLSConfigErr"
proof -
  obtain r w' where run: "reconcileTLS (sampleReconciler sampleApi) sampleWorld = (r, w')" by fastforce
  have "\<not> tlsAccepted (\<lambda>k. Inl (ReasonNotFound, ''not found'')) sampleCluster"
    by (simp add: tlsAccepted_def secretsOK_def secretWith_def)
  with tls_verdict [OF _ run] sample_noSecrets run show ?thesis by auto
qed

section \<open>When scaling down is refused\<close>

lemma run_scaleDown:
  assumes "st_Replicas current = Some m" and "st_Replicas sts = Some n"
  shows "m \<le> n \<Longrightarrow> scaleDown R current sts w = (Ok False, w)"
    and "n < m \<Longrightarrow> \<exists>w' t resp. scaleDown R current sts w = (Ok True, w')
      \<and> w_log w' = w_log w @ [Recorded EventTypeWarning ''UnsupportedOperation'' (scaleDownMsg m n), Clock t,
          UpdateClusterStatus (withCondition t ReconcileSuccess ConditionFalse ''UnsupportedOperation''
            (scaleDownMsg m n) (w_rmq w)) resp]"
proof -
  show "scaleDown R current sts w = (Ok False, w)" if "m \<le> n"
    using that assms by (simp add: scaleDown_def bindM_def run_simps)
  assume less: "n < m"
  let ?msg = "scaleDownMsg m n"
  let ?v = "w\<lparr>w_log := w_log w @ [Recorded EventTypeWarning ''UnsupportedOperation'' ?msg]\<rparr>"
  from run_setReconcileSuccess [of R ConditionFalse "''UnsupportedOperation''" ?msg ?v] obtain t resp c' where
    set: "setReconcileSuccess R ConditionFalse ''UnsupportedOperation'' ?msg ?v = (Ok (), ?v\<lparr>w_rmq := c',
       w_log := w_log ?v @ [Clock t, UpdateClusterStatus (withCondition t ReconcileSuccess ConditionFalse
         ''UnsupportedOperation'' ?msg (w_rmq ?v)) resp]\<rparr>)"
    by blast
  have "scaleDown R current sts w
      = bindM (setReconcileSuccess R ConditionFalse ''UnsupportedOperation'' ?msg) (\<lambda>_. ret True) ?v"
    using less assms
    by (simp add: scaleDown_def setReconcileSuccess_def bindM_def run_simps Let_def split: prod.splits outcome.splits)
  also have "\<dots> = (Ok True, ?v\<lparr>w_rmq := c',
       w_log := w_log ?v @ [Clock t, UpdateClusterStatus (withCondition t ReconcileSuccess ConditionFalse
         ''UnsupportedOperation'' ?msg (w_rmq ?v)) resp]\<rparr>)"
    using set by (simp add: bindM_def run_simps)
  finally show "\<exists>w' t resp. scaleDown R current sts w = (Ok True, w')
      \<and> w_log w' = w_log w @ [Recorded EventTypeWarning ''UnsupportedOperation'' ?msg, Clock t,
          UpdateClusterStatus (withCondition t ReconcileSuccess ConditionFalse ''UnsupportedOperation'' ?msg (w_rmq w)) resp]"
    by (intro exI [of _ t] exI [of _ resp] exI conjI) (assumption, simp)
qed

end
