(* ===== verification/Reconcile_Config.thy ===== *)
theory Reconcile_Config
  imports Reconcile_Steps
begin

text \<open>
  \<^verbatim>\<open>reconcile_rabbitmq_configurations.go\<close>: the annotations by which one pass tells a later
  one what it has changed, and the restart of the StatefulSet after a change of the server
  configuration.
\<close>

section \<open>The operations\<close>

definition pluginsUpdateAnnotation :: string where "pluginsUpdateAnnotation = ''rabbitmq.com/pluginsUpdatedAt''"
definition serverConfAnnotation :: string where "serverConfAnnotation = ''rabbitmq.com/serverConfUpdatedAt''"
definition stsRestartAnnotation :: string where "stsRestartAnnotation = ''rabbitmq.com/lastRestartAt''"
definition stsCreateAnnotation :: string where "stsCreateAnnotation = ''rabbitmq.com/createdAt''"

text \<open>\<^verbatim>\<open>time.Now().Format(time.RFC3339)\<close>.\<close>

definition timeStamp :: "reconciler \<Rightarrow> string prog" where
  "timeStamp R = bindM (now (rec_Client R)) (\<lambda>t. ret (lib_formatTime (rec_Client R) t))"

text \<open>The common end of \<^verbatim>\<open>annotateIfNeeded\<close>, for either kind of object.\<close>

definition annotateWith :: "reconciler \<Rightarrow> 'o clientObject \<Rightarrow> string \<Rightarrow> string \<Rightarrow> unit prog" where
  "annotateWith R C objName annotationKey =
     bindM getRmq (\<lambda>rmq. bindM (timeStamp R) (\<lambda>ts.
     tryM (updateAnnotation (rec_Client R) C (rc_Namespace rmq) objName annotationKey ts) (case_sum
       (\<lambda>err. bindM (record_event EventTypeWarning ''FailedUpdate'' (''failed to annotate '' @ objName)) (\<lambda>_.
              throw err))
       ret)))"

definition annotateIfNeeded :: "reconciler \<Rightarrow> builder \<Rightarrow> operationResult \<Rightarrow> unit prog" where
  "annotateIfNeeded R b operationResult = bindM getRmq (\<lambda>rmq. (case b of
      RabbitmqPluginsConfigMapBuilder \<Rightarrow>
        if operationResult \<noteq> OperationResultUpdated then ret ()
        else annotateWith R (cmObject (rec_Client R)) (ChildResourceName rmq PluginsConfigName) pluginsUpdateAnnotation
    | ServerConfigMapBuilder \<Rightarrow>
        if operationResult \<noteq> OperationResultUpdated then ret ()
        else annotateWith R (cmObject (rec_Client R)) (ChildResourceName rmq ServerConfigMapName) serverConfAnnotation
    | StatefulSetBuilder \<Rightarrow>
        if operationResult \<noteq> OperationResultCreated then ret ()
        else annotateWith R (stsObject (rec_Client R)) (ChildResourceName rmq ''server'') stsCreateAnnotation
    | _ \<Rightarrow> ret ()))"

text \<open>Go compares strings bytewise.\<close>

fun strLess :: "string \<Rightarrow> string \<Rightarrow> bool" where
  "strLess s [] = False"
| "strLess [] (c # t) = True"
| "strLess (b # s) (c # t) = ((of_char b :: nat) < of_char c \<or> b = c \<and> strLess s t)"

definition restartAnnotated :: "string \<Rightarrow> statefulSet \<Rightarrow> statefulSet" where
  "restartAnnotated ts sts = sts\<lparr>st_Template := (st_Template sts)
     \<lparr>pt_Meta := annotated stsRestartAnnotation ts (pt_Meta (st_Template sts))\<rparr>\<rparr>"

definition restartSts :: "reconciler \<Rightarrow> unit prog" where
  "restartSts R =
     lib_onError (rec_Client R) isConflict
       (bindM (statefulSet R) (\<lambda>sts. bindM (timeStamp R) (\<lambda>ts.
        bindM (updateStatefulSet (rec_Client R) (restartAnnotated ts sts)) (\<lambda>_. ret ()))))"

definition restartStatefulSetIfNeeded :: "reconciler \<Rightarrow> requeue prog" where
  "restartStatefulSetIfNeeded R = bindM getRmq (\<lambda>rmq.
     let server = ChildResourceName rmq ''server'' in
     tryM (configMap R (ChildResourceName rmq ServerConfigMapName)) (case_sum
       (\<lambda>err. ret (10, ignoreNotFound err))
       (\<lambda>serverConf. case mget (om_Annotations (cm_Meta serverConf)) serverConfAnnotation of
          None \<Rightarrow> ret (0, None)
        | Some serverConfigUpdatedAt \<Rightarrow>
     tryM (statefulSet R) (case_sum
       (\<lambda>err. ret (10, ignoreNotFound err))
       (\<lambda>sts.
          if (case mget (om_Annotations (pt_Meta (st_Template sts))) stsRestartAnnotation of
                None \<Rightarrow> False | Some stsRestartedAt \<Rightarrow> strLess serverConfigUpdatedAt stsRestartedAt)
          then ret (0, None)
          else tryM (restartSts R) (case_sum
                 (\<lambda>err. bindM (record_event EventTypeWarning ''FailedUpdate''
                            (''failed to restart StatefulSet '' @ server
                             @ ''; rabbitmq.conf configuration may be outdated'')) (\<lambda>_.
                        ret (0, Some err)))
                 (\<lambda>_. bindM (record_event EventTypeNormal ''SuccessfulUpdate''
                          (''restarted StatefulSet '' @ server)) (\<lambda>_.
                      ret (0, None)))))))))"

text \<open>
  Times are in nanoseconds, and \<^verbatim>\<open>time.Since(t).Seconds() < 2\<close> asks whether fewer than two
  thousand million of them have passed. An absent config map is a nil pointer, whose
  annotations cannot be read.
\<close>

definition pluginsConfigUpdatedRecently :: "reconciler \<Rightarrow> configMap option \<Rightarrow> bool prog" where
  "pluginsConfigUpdatedRecently R cfg =
     bindM (fromOutcome (deref cfg)) (\<lambda>cfg.
     case mget (om_Annotations (cm_Meta cfg)) pluginsUpdateAnnotation of
       None \<Rightarrow> ret False
     | Some pluginsUpdatedAt \<Rightarrow>
         bindM (fromOutcome (lift (lib_parseTime (rec_Client R) pluginsUpdatedAt))) (\<lambda>annotationTime.
         bindM (now (rec_Client R)) (\<lambda>t. ret (t - annotationTime < 2000000000))))"

section \<open>Bounds on the calls\<close>

lemma timeStamp_only [only_intros]: "(\<And>t. P (Clock t)) \<Longrightarrow> only P (timeStamp R)"
  unfolding timeStamp_def by (intro only_intros)

lemma annotateWith_only [only_intros]:
  assumes "\<And>ns k v. only P (updateAnnotation (rec_Client R) C ns k key v)" "\<And>t. P (Clock t)" "\<And>ty q m. P (Recorded ty q m)"
  shows "only P (annotateWith R C name key)"
  unfolding annotateWith_def by (intro only_intros assms)

lemma annotateIfNeeded_only [only_intros]:
  assumes "documented (rec_Client R)" "\<And>t. P (Clock t)" "\<And>ty q m. P (Recorded ty q m)"
    and "\<And>k r. P (GetConfigMap k r)" "\<And>c r. P (UpdateConfigMap c r)"
    and "\<And>k r. P (GetSts k r)" "\<And>s r. P (UpdateSts s r)"
  shows "only P (annotateIfNeeded R b res)"
proof (cases b)
qed (simp_all add: annotateIfNeeded_def,
  (intro only_intros assms cmAnnotation.updateAnnotation_only stsAnnotation.updateAnnotation_only)+)

lemma restart_only [only_intros]:
  assumes "documented (rec_Client R)" "\<And>t. P (Clock t)" "\<And>ty q m. P (Recorded ty q m)"
    and "\<And>k r. P (GetConfigMap k r)" "\<And>k r. P (GetSts k r)" "\<And>s r. P (UpdateSts s r)"
  shows "only P (restartStatefulSetIfNeeded R)"
  unfolding restartStatefulSetIfNeeded_def restartSts_def Let_def by (intro only_intros assms)

lemma updateAnnotation_logsOnly:
  "documented S \<Longrightarrow> logsOnly (updateAnnotation S (cmObject S) ns name key val)"
  "documented S \<Longrightarrow> logsOnly (updateAnnotation S (stsObject S) ns name key val)"
  unfolding updateAnnotation_def by (intro frame_intros; simp add: cmObject_def stsObject_def frame_intros)+

lemma statefulSet_logsOnly [frame_intros]: "logsOnly (statefulSet R)" "logsOnly (configMap R name)"
  "logsOnly (timeStamp R)"
  unfolding statefulSet_def configMap_def timeStamp_def by (intro frame_intros)+

lemma annotateWith_logsOnly:
  assumes "documented (rec_Client R)"
  shows "logsOnly (annotateWith R (cmObject (rec_Client R)) name key)"
    and "logsOnly (annotateWith R (stsObject (rec_Client R)) name key)"
  unfolding annotateWith_def by (intro frame_intros updateAnnotation_logsOnly assms)+

lemma annotateIfNeeded_logsOnly [frame_intros]:
  "documented (rec_Client R) \<Longrightarrow> logsOnly (annotateIfNeeded R b res)"
  by (cases b; simp add: annotateIfNeeded_def; intro frame_intros annotateWith_logsOnly)

lemma restart_logsOnly [frame_intros]:
  "documented (rec_Client R) \<Longrightarrow> logsOnly (restartStatefulSetIfNeeded R)"
  unfolding restartStatefulSetIfNeeded_def restartSts_def Let_def by (intro frame_intros)

section \<open>Restarting after a configuration change\<close>

definition needsRestart :: "configMap \<Rightarrow> statefulSet \<Rightarrow> bool" where
  "needsRestart serverConf sts \<longleftrightarrow>
     (case mget (om_Annotations (cm_Meta serverConf)) serverConfAnnotation of
        None \<Rightarrow> False
      | Some updatedAt \<Rightarrow> (case mget (om_Annotations (pt_Meta (st_Template sts))) stsRestartAnnotation of
            None \<Rightarrow> True | Some restartedAt \<Rightarrow> \<not> strLess updatedAt restartedAt))"

definition restartAttempt :: "reconciler \<Rightarrow> rabbitmqCluster \<Rightarrow> unit outcome \<Rightarrow> event list \<Rightarrow> bool" where
  "restartAttempt R c r es \<longleftrightarrow>
     (\<exists>q m. es = [GetSts (stsKey c) (Inl (q, m))] \<and> r = Err (ApiError q m))
   \<or> (\<exists>sts t u. es = [GetSts (stsKey c) (Inr sts), Clock t,
          UpdateSts (restartAnnotated (lib_formatTime (rec_Client R) t) sts) u]
        \<and> r = (case u of Inl (q, m) \<Rightarrow> Err (ApiError q m) | Inr s \<Rightarrow> Ok ()))"

lemma restartAttempt_result: "restartAttempt R c r es \<Longrightarrow> r = Ok () \<or> (\<exists>e. r = Err e)"
proof -
  have "(case u of Inl (q, m) \<Rightarrow> Err (ApiError q m) | Inr s \<Rightarrow> Ok ()) = Ok ()
      \<or> (\<exists>e. (case u of Inl (q, m) \<Rightarrow> Err (ApiError q m) | Inr s \<Rightarrow> Ok ()) = Err e)" for u :: "statefulSet response"
    by (cases u) auto
  then show "restartAttempt R c r es \<Longrightarrow> r = Ok () \<or> (\<exists>e. r = Err e)"
    unfolding restartAttempt_def by blast
qed

lemma restartSts_logs:
  "logs (bindM (statefulSet R) (\<lambda>sts. bindM (timeStamp R) (\<lambda>ts.
     bindM (updateStatefulSet (rec_Client R) (restartAnnotated ts sts)) (\<lambda>_. ret ())))) c (restartAttempt R c)"
  unfolding logs_def
proof (intro allI impI)
  fix w :: world
  assume c: "w_rmq w = c"
  let ?m = "bindM (statefulSet R) (\<lambda>sts. bindM (timeStamp R) (\<lambda>ts.
     bindM (updateStatefulSet (rec_Client R) (restartAnnotated ts sts)) (\<lambda>_. ret ())))"
  let ?q = "api_getSts (rec_Client R) (stsKey c) (w_log w)"
  show "\<exists>r es. ?m w = (r, w\<lparr>w_log := w_log w @ es\<rparr>) \<and> restartAttempt R c r es"
  proof (cases ?q)
    case (Inl x)
    obtain q m where "x = (q, m)" by (cases x)
    with Inl c show ?thesis
      by (intro exI [of _ "Err (ApiError q m)"] exI [of _ "[GetSts (stsKey c) ?q]"])
         (simp add: bindM_def run_simps restartAttempt_def)
  next
    case (Inr sts)
    let ?t = "api_now (rec_Client R) (w_log w @ [GetSts (stsKey c) ?q])"
    let ?sts = "restartAnnotated (lib_formatTime (rec_Client R) ?t) sts"
    let ?u = "api_updateSts (rec_Client R) ?sts (w_log w @ [GetSts (stsKey c) ?q, Clock ?t])"
    let ?r = "case ?u of Inl (q, m) \<Rightarrow> Err (ApiError q m) | Inr s \<Rightarrow> Ok ()"
    let ?es = "[GetSts (stsKey c) ?q, Clock ?t, UpdateSts ?sts ?u]"
    have "?m w = (?r, w\<lparr>w_log := w_log w @ ?es\<rparr>)"
      using Inr c by (cases ?u) (auto simp: bindM_def run_simps timeStamp_def)
    moreover have "restartAttempt R c ?r ?es" using Inr by (auto simp: restartAttempt_def)
    ultimately show ?thesis by blast
  qed
qed

lemma needsRestart_again:
  "needsRestart cm (restartAnnotated ts sts) \<longleftrightarrow>
     (\<exists>u. mget (om_Annotations (cm_Meta cm)) serverConfAnnotation = Some u \<and> \<not> strLess u ts)"
  by (cases "mget (om_Annotations (cm_Meta cm)) serverConfAnnotation")
     (simp_all add: needsRestart_def restartAnnotated_def annotated_def mget_mput)


definition changedConf :: configMap where
  "changedConf = (ServerConfigMap_Build sampleCluster)\<lparr>cm_Meta :=
     emptyMeta\<lparr>om_Annotations := mlit [(serverConfAnnotation, ''2022-06-01T12:00:00Z'')]\<rparr>\<rparr>"

definition restartApi :: api where
  "restartApi = withLibraries (sampleBase\<lparr>api_getConfigMap := (\<lambda>k l. Inr changedConf), api_getSts := (\<lambda>k l. Inr ownedSts)\<rparr>)"


end
