(* ===== verification/Reconcile_CLI.thy ===== *)
theory Reconcile_CLI
  imports Reconcile_Config
begin

text \<open>
  \<^verbatim>\<open>reconcile_cli.go\<close>: the commands a reconciliation runs in the pods once all replicas are
  ready, each asked for by an annotation that is removed after the command has succeeded.
\<close>

section \<open>The operations\<close>

definition queueRebalanceAnnotation :: string where
  "queueRebalanceAnnotation = ''rabbitmq.com/queueRebalanceNeededAt''"

definition statefulSetBeingUpdated :: "statefulSet \<Rightarrow> bool" where
  "statefulSetBeingUpdated sts = (st_CurrentRevision sts \<noteq> st_UpdateRevision sts)"

definition allReplicasReadyAndUpdated :: "statefulSet \<Rightarrow> bool outcome" where
  "allReplicasReadyAndUpdated sts =
     obind (deref (st_Replicas sts)) (\<lambda>n. Ok (st_ReadyReplicas sts = n \<and> \<not> statefulSetBeingUpdated sts))"

definition statefulSetNeedsQueueRebalance :: "statefulSet \<Rightarrow> rabbitmqCluster \<Rightarrow> bool outcome" where
  "statefulSetNeedsQueueRebalance sts rmq =
     (if statefulSetBeingUpdated sts \<and> \<not> spec_SkipPostDeploySteps (rc_Spec rmq)
      then obind (deref (spec_Replicas (rc_Spec rmq))) (\<lambda>n. Ok (n > 1)) else Ok False)"

text \<open>Run a command in the RabbitMQ container of a pod; a failure is recorded and wrapped.\<close>

definition podNamed :: "rabbitmqCluster \<Rightarrow> int \<Rightarrow> string" where
  "podNamed rmq i = ChildResourceName rmq ''server'' @ ''-'' @ itoa i"

definition runInPod :: "reconciler \<Rightarrow> rabbitmqCluster \<Rightarrow> string list \<Rightarrow> string \<Rightarrow> int \<Rightarrow> unit prog" where
  "runInPod R rmq cmd msg i =
     tryM (execIn (rec_Client R) (rc_Namespace rmq, podNamed rmq i) ''rabbitmq'' cmd) (case_sum
       (\<lambda>err. bindM (record_event EventTypeWarning ''FailedReconcile'' (msg @ '' '' @ podNamed rmq i)) (\<lambda>_.
              throw (Wrap (msg @ '' '' @ podNamed rmq i) err)))
       ret)"

definition featureFlagsCommand :: string where
  "featureFlagsCommand = ''set -eo pipefail; rabbitmqctl -s list_feature_flags name state stability | (grep ''
     @ [CHR 0x27] @ ''disabled'' @ [CHR 0x5C] @ ''sstable$'' @ [CHR 0x27]
     @ '' || true) | cut -f 1 | xargs -r -n1 rabbitmqctl enable_feature_flag''"

definition runEnableFeatureFlagsCommand :: "reconciler \<Rightarrow> statefulSet \<Rightarrow> unit prog" where
  "runEnableFeatureFlagsCommand R sts = bindM getRmq (\<lambda>rmq.
     bindM (runInPod R rmq [''bash'', ''-c'', featureFlagsCommand] ''failed to enable all feature flags on pod'' 0) (\<lambda>_.
     deleteAnnotation (stsObject (rec_Client R)) sts stsCreateAnnotation))"

definition setPluginsCommand :: "rabbitmqCluster \<Rightarrow> string list" where
  "setPluginsCommand rmq = [''sh'', ''-c'', ''rabbitmq-plugins set ''
     @ AsString (NewRabbitmqPlugins (cf_AdditionalPlugins (spec_Rabbitmq (rc_Spec rmq)))) '' '']"

definition runSetPluginsCommand :: "reconciler \<Rightarrow> configMap \<Rightarrow> unit prog" where
  "runSetPluginsCommand R cfg = bindM getRmq (\<lambda>rmq.
     bindM (fromOutcome (deref (spec_Replicas (rc_Spec rmq)))) (\<lambda>n.
     bindM (forEach (runInPod R rmq (setPluginsCommand rmq) ''failed to set plugins on pod'')
              (map int [0..<nat n])) (\<lambda>_.
     deleteAnnotation (cmObject (rec_Client R)) cfg pluginsUpdateAnnotation)))"

definition runQueueRebalanceCommand :: "reconciler \<Rightarrow> unit prog" where
  "runQueueRebalanceCommand R = bindM getRmq (\<lambda>rmq.
     bindM (runInPod R rmq [''sh'', ''-c'', ''rabbitmq-queues rebalance all'']
              ''failed to run queue rebalance on pod'' 0) (\<lambda>_.
     deleteAnnotation (rmqObject (rec_Client R)) rmq queueRebalanceAnnotation))"

definition pending :: "objectMeta \<Rightarrow> string \<Rightarrow> bool" where
  "pending m key = (mindex [] (om_Annotations m) key \<noteq> [])"

text \<open>What follows once the plugins config map (or nil) has been read.\<close>

definition runPendingCommands :: "reconciler \<Rightarrow> statefulSet \<Rightarrow> configMap option \<Rightarrow> requeue prog" where
  "runPendingCommands R sts pluginsConfig =
     checked 0 (pluginsConfigUpdatedRecently R pluginsConfig) (\<lambda>updatedRecently.
     if updatedRecently then ret (2, None)
     else bindM (fromOutcome (deref pluginsConfig)) (\<lambda>cfg.
     checked 0 (whenM (pending (cm_Meta cfg) pluginsUpdateAnnotation) (runSetPluginsCommand R cfg)) (\<lambda>_.
     checked 0 (whenM (pending (st_Meta sts) stsCreateAnnotation) (runEnableFeatureFlagsCommand R sts)) (\<lambda>_.
     bindM getRmq (\<lambda>rmq.
     checked 0 (whenM (pending (rc_Meta rmq) queueRebalanceAnnotation) (runQueueRebalanceCommand R)) (\<lambda>_.
     ret (0, None)))))))"

definition runRabbitmqCLICommandsIfAnnotated :: "reconciler \<Rightarrow> requeue prog" where
  "runRabbitmqCLICommandsIfAnnotated R =
     checked 0 (statefulSet R) (\<lambda>sts.
     bindM (fromOutcome (allReplicasReadyAndUpdated sts)) (\<lambda>ready.
     if \<not> ready then ret (15, None)
     else bindM getRmq (\<lambda>rmq.
     tryM (configMap R (ChildResourceName rmq PluginsConfigName)) (case_sum
       (\<lambda>err. if \<not> isNotFound err then ret (0, Some err) else runPendingCommands R sts None)
       (\<lambda>cfg. runPendingCommands R sts (Some cfg))))))"

section \<open>Bounds on the calls\<close>

lemma runInPod_only [only_intros]:
  "(\<And>k con cm r. P (Exec k con cm r)) \<Longrightarrow> (\<And>ty q m. P (Recorded ty q m)) \<Longrightarrow> only P (runInPod R rmq cmd msg i)"
  unfolding runInPod_def by (intro only_intros)

lemma deleteAnnotation_via:
  "(\<And>ob. only P (cl_update C ob)) \<Longrightarrow> only P (deleteAnnotation C obj key)"
  "(\<And>ob. logsOnly (cl_update C ob)) \<Longrightarrow> logsOnly (deleteAnnotation C obj key)"
  unfolding deleteAnnotation_def Let_def by (intro only_intros, assumption) (intro frame_intros, assumption)

lemma deleteAnnotation_only:
  "(\<And>c r. P (UpdateConfigMap c r)) \<Longrightarrow> only P (deleteAnnotation (cmObject S) cfg key)"
  "(\<And>s r. P (UpdateSts s r)) \<Longrightarrow> only P (deleteAnnotation (stsObject S) sts key)"
  "(\<And>c r. P (UpdateCluster c r)) \<Longrightarrow> only P (deleteAnnotation (rmqObject S) rmq key)"
  by (rule deleteAnnotation_via(1), simp add: cmObject_def stsObject_def rmqObject_def, intro only_intros, assumption)+

lemma pluginsRecently_only [only_intros]: "(\<And>t. P (Clock t)) \<Longrightarrow> only P (pluginsConfigUpdatedRecently R cfg)"
  unfolding pluginsConfigUpdatedRecently_def by (intro only_intros)

lemma pending_only [only_intros]:
  assumes "\<And>t. P (Clock t)" "\<And>ty q m. P (Recorded ty q m)" "\<And>k con cm r. P (Exec k con cm r)"
    and "\<And>c r. P (UpdateConfigMap c r)" "\<And>s r. P (UpdateSts s r)" "\<And>c r. P (UpdateCluster c r)"
  shows "only P (runPendingCommands R sts cfg)"
  unfolding runPendingCommands_def runSetPluginsCommand_def runEnableFeatureFlagsCommand_def
    runQueueRebalanceCommand_def
  by (intro only_intros deleteAnnotation_only assms)

lemma runCLI_only [only_intros]:
  assumes "\<And>t. P (Clock t)" "\<And>ty q m. P (Recorded ty q m)" "\<And>k con cm r. P (Exec k con cm r)"
    and "\<And>c r. P (UpdateConfigMap c r)" "\<And>s r. P (UpdateSts s r)" "\<And>c r. P (UpdateCluster c r)"
    and "\<And>k r. P (GetSts k r)" "\<And>k r. P (GetConfigMap k r)"
  shows "only P (runRabbitmqCLICommandsIfAnnotated R)"
  unfolding runRabbitmqCLICommandsIfAnnotated_def by (intro only_intros assms)

lemma runInPod_logsOnly [frame_intros]: "logsOnly (runInPod R rmq cmd msg i)"
  unfolding runInPod_def by (intro frame_intros)

lemma deleteAnnotation_logsOnly [frame_intros]:
  "logsOnly (deleteAnnotation (cmObject S) cfg key)" "logsOnly (deleteAnnotation (stsObject S) sts key)"
  by (rule deleteAnnotation_via(2), simp add: cmObject_def stsObject_def, intro frame_intros)+

lemma runSet_logsOnly [frame_intros]:
  "logsOnly (runSetPluginsCommand R cfg)" "logsOnly (runEnableFeatureFlagsCommand R sts)"
  "logsOnly (pluginsConfigUpdatedRecently R ocfg)"
  unfolding runSetPluginsCommand_def runEnableFeatureFlagsCommand_def pluginsConfigUpdatedRecently_def
  by (intro frame_intros)+

section \<open>Commands in the pods\<close>

definition execOk :: "rabbitmqCluster \<Rightarrow> string list \<Rightarrow> int \<Rightarrow> event" where
  "execOk c cmd i = Exec (rc_Namespace c, podNamed c i) ''rabbitmq'' cmd (Inr ())"

lemma run_runInPod:
  "runInPod R c cmd msg i w = (Ok (), w\<lparr>w_log := w_log w @ [execOk c cmd i]\<rparr>)
   \<or> (\<exists>e q ev. runInPod R c cmd msg i w = (Err e, w\<lparr>w_log := w_log w
        @ [Exec (rc_Namespace c, podNamed c i) ''rabbitmq'' cmd (Inl q), ev]\<rparr>) \<and> \<not> writesChild ev)"
proof (cases "api_exec (rec_Client R) (rc_Namespace c, podNamed c i) ''rabbitmq'' cmd (w_log w)")
  case (Inl q)
  obtain r m where "q = (r, m)" by (cases q)
  with Inl show ?thesis
    by (intro disjI2 exI [of _ "Wrap (msg @ '' '' @ podNamed c i) (ApiError r m)"] exI [of _ q]
        exI [of _ "Recorded EventTypeWarning ''FailedReconcile'' (msg @ '' '' @ podNamed c i)"])
       (simp add: runInPod_def tryM_def bindM_def run_simps)
next
  case (Inr u)
  then show ?thesis by (simp add: runInPod_def tryM_def run_simps execOk_def)
qed

text \<open>A command on several pods stops at the first that fails.\<close>

lemma run_inPods:
  "forEach (runInPod R c cmd msg) is w = (Ok (), w\<lparr>w_log := w_log w @ map (execOk c cmd) is\<rparr>)
   \<or> (\<exists>k e q ev. k < length is \<and> \<not> writesChild ev \<and> forEach (runInPod R c cmd msg) is w
      = (Err e, w\<lparr>w_log := w_log w @ map (execOk c cmd) (take k is)
          @ [Exec (rc_Namespace c, podNamed c (is ! k)) ''rabbitmq'' cmd (Inl q), ev]\<rparr>))"
proof (induction "is" arbitrary: w)
  case Nil
  show ?case by (simp add: run_simps)
next
  case (Cons i "is")
  let ?w = "w\<lparr>w_log := w_log w @ [execOk c cmd i]\<rparr>"
  from run_runInPod [of R c cmd msg i w] show ?case
  proof
    assume ok: "runInPod R c cmd msg i w = (Ok (), ?w)"
    from Cons.IH [of ?w] show ?thesis
    proof
      assume "forEach (runInPod R c cmd msg) is ?w = (Ok (), ?w\<lparr>w_log := w_log ?w @ map (execOk c cmd) is\<rparr>)"
      with ok show ?thesis by (simp add: bindM_def)
    next
      assume "\<exists>k e q ev. k < length is \<and> \<not> writesChild ev \<and> forEach (runInPod R c cmd msg) is ?w
        = (Err e, ?w\<lparr>w_log := w_log ?w @ map (execOk c cmd) (take k is)
            @ [Exec (rc_Namespace c, podNamed c (is ! k)) ''rabbitmq'' cmd (Inl q), ev]\<rparr>)"
      then obtain k e q ev where "k < length is" "\<not> writesChild ev" "forEach (runInPod R c cmd msg) is ?w
        = (Err e, ?w\<lparr>w_log := w_log ?w @ map (execOk c cmd) (take k is)
            @ [Exec (rc_Namespace c, podNamed c (is ! k)) ''rabbitmq'' cmd (Inl q), ev]\<rparr>)" by blast
      with ok show ?thesis
        by (intro disjI2 exI [of _ "Suc k"] exI [of _ e] exI [of _ q] exI [of _ ev]) (simp add: bindM_def)
    qed
  next
    assume "\<exists>e q ev. runInPod R c cmd msg i w = (Err e, w\<lparr>w_log := w_log w
        @ [Exec (rc_Namespace c, podNamed c i) ''rabbitmq'' cmd (Inl q), ev]\<rparr>) \<and> \<not> writesChild ev"
    then obtain e q ev where "runInPod R c cmd msg i w = (Err e, w\<lparr>w_log := w_log w
        @ [Exec (rc_Namespace c, podNamed c i) ''rabbitmq'' cmd (Inl q), ev]\<rparr>)" "\<not> writesChild ev" by blast
    then show ?thesis
      by (intro disjI2 exI [of _ 0] exI [of _ e] exI [of _ q] exI [of _ ev]) (simp add: bindM_def)
  qed
qed

definition clearedConf :: "string \<Rightarrow> configMap \<Rightarrow> configMap" where
  "clearedConf key cfg = cfg\<lparr>cm_Meta := (cm_Meta cfg)\<lparr>om_Annotations := mdelete (om_Annotations (cm_Meta cfg)) key\<rparr>\<rparr>"

lemma run_clearConf:
  "deleteAnnotation (cmObject S) cfg key w = (Ok (), w) \<and> om_Annotations (cm_Meta cfg) = None
   \<or> (\<exists>u. deleteAnnotation (cmObject S) cfg key w =
        (case u of Inl (q, m) \<Rightarrow> Err (ApiError q m) | Inr c \<Rightarrow> Ok (),
         w\<lparr>w_log := w_log w @ [UpdateConfigMap (clearedConf key cfg) u]\<rparr>))"
proof (cases "om_Annotations (cm_Meta cfg) = None")
  case True
  then show ?thesis by (simp add: deleteAnnotation_def cmObject_def Let_def run_simps)
next
  case False
  let ?u = "api_updateConfigMap S (clearedConf key cfg) (w_log w)"
  from False have "deleteAnnotation (cmObject S) cfg key w =
        (case ?u of Inl (q, m) \<Rightarrow> Err (ApiError q m) | Inr c \<Rightarrow> Ok (),
         w\<lparr>w_log := w_log w @ [UpdateConfigMap (clearedConf key cfg) ?u]\<rparr>)"
    by (cases ?u)
       (auto simp: deleteAnnotation_def cmObject_def clearedConf_def Let_def bindM_def run_simps)
  then show ?thesis by blast
qed

text \<open>
  The plugins of a running cluster are set on every pod before the mark that asks for it is
  removed: the pods are visited in the order of their ordinals, the first failure ends the
  command with an error and leaves the mark, and only when every pod has accepted the command
  is the config map written, with that one annotation removed. A cluster without a replica
  count makes it panic.
\<close>

theorem plugins_set_everywhere:
  assumes "spec_Replicas (rc_Spec (w_rmq w)) = Some n" and "runSetPluginsCommand R cfg w = (r, w')"
  shows "(let c = w_rmq w; cmd = setPluginsCommand c; execs = map (execOk c cmd) (map int [0..<nat n]) in
     (\<exists>k e q ev. k < nat n \<and> r = Err e \<and> \<not> writesChild ev \<and> w_log w' = w_log w @ take k execs
         @ [Exec (rc_Namespace c, podNamed c (int k)) ''rabbitmq'' cmd (Inl q), ev])
   \<or> (r = Ok () \<and> om_Annotations (cm_Meta cfg) = None \<and> w_log w' = w_log w @ execs)
   \<or> (\<exists>u. r = (case u of Inl (q, m) \<Rightarrow> Err (ApiError q m) | Inr c \<Rightarrow> Ok ())
         \<and> w_log w' = w_log w @ execs @ [UpdateConfigMap (clearedConf pluginsUpdateAnnotation cfg) u]))"
proof -
  let ?c = "w_rmq w" and ?is = "map int [0..<nat n]"
  let ?cmd = "setPluginsCommand ?c" and ?del = "deleteAnnotation (cmObject (rec_Client R)) cfg pluginsUpdateAnnotation"
  let ?loop = "forEach (runInPod R ?c ?cmd ''failed to set plugins on pod'') ?is"
  let ?w = "w\<lparr>w_log := w_log w @ map (execOk ?c ?cmd) ?is\<rparr>"
  have run: "bindM ?loop (\<lambda>_. ?del) w = (r, w')"
    using assms by (simp add: runSetPluginsCommand_def bindM_def run_simps)
  from run_inPods [of R ?c ?cmd "''failed to set plugins on pod''" ?is w] show ?thesis
  proof
    assume "?loop w = (Ok (), ?w)"
    with run have "?del ?w = (r, w')" by (simp add: bindM_def)
    with run_clearConf [of "rec_Client R" cfg pluginsUpdateAnnotation ?w] show ?thesis by (auto simp: Let_def)
  next
    assume "\<exists>k e q ev. k < length ?is \<and> \<not> writesChild ev \<and> ?loop w
      = (Err e, w\<lparr>w_log := w_log w @ map (execOk ?c ?cmd) (take k ?is)
          @ [Exec (rc_Namespace ?c, podNamed ?c (?is ! k)) ''rabbitmq'' ?cmd (Inl q), ev]\<rparr>)"
    then obtain k e q ev where k: "k < nat n" "\<not> writesChild ev" and fail: "?loop w
      = (Err e, w\<lparr>w_log := w_log w @ map (execOk ?c ?cmd) (take k ?is)
          @ [Exec (rc_Namespace ?c, podNamed ?c (int k)) ''rabbitmq'' ?cmd (Inl q), ev]\<rparr>)" by auto
    from run fail have "r = Err e" "w_log w' = w_log w @ map (execOk ?c ?cmd) (take k ?is)
          @ [Exec (rc_Namespace ?c, podNamed ?c (int k)) ''rabbitmq'' ?cmd (Inl q), ev]"
      by (auto simp: bindM_def)
    with k show ?thesis unfolding Let_def take_map by blast
  qed
qed

lemma sample_exec: "api_exec sampleApi k con cmd l = Inr ()" "api_updateConfigMap sampleApi c l = Inr c"
  by (simp_all add: sampleApi_def withLibraries_def sampleBase_def)

theorem plugins_set_everywhere_witness:
  "\<exists>w' u. runSetPluginsCommand (sampleReconciler sampleApi) changedConf sampleWorld = (Ok (), w')
     \<and> w_log w' = map (execOk sampleCluster (setPluginsCommand sampleCluster)) [0, 1, 2]
         @ [UpdateConfigMap (clearedConf pluginsUpdateAnnotation changedConf) u]"
proof -
  obtain r w' where run: "runSetPluginsCommand (sampleReconciler sampleApi) changedConf sampleWorld = (r, w')" by fastforce
  have n: "spec_Replicas (rc_Spec (w_rmq sampleWorld)) = Some 3" by (simp add: sampleCluster_def sampleSpec_def)
  have is3: "map int [0..<nat 3] = [0, 1, 2]" by (simp add: upt_rec)
  have ann: "om_Annotations (cm_Meta changedConf) \<noteq> None" by (simp add: changedConf_def)
  have "fst (runSetPluginsCommand (sampleReconciler sampleApi) changedConf sampleWorld) = Ok ()"
    using n is3 ann
    by (simp add: runSetPluginsCommand_def runInPod_def deleteAnnotation_def cmObject_def bindM_def tryM_def run_simps
        Let_def sample_exec)
  with run have r: "r = Ok ()" by simp
  show ?thesis
    using plugins_set_everywhere [OF n run] run ann unfolding r is3 Let_def by (auto simp: r)
qed

section \<open>When commands run\<close>

definition readyAnswer :: "rabbitmqCluster \<Rightarrow> event \<Rightarrow> bool" where
  "readyAnswer c e = (case e of
      GetSts k r \<Rightarrow> k = stsKey c \<and> (case r of Inl q \<Rightarrow> False | Inr sts \<Rightarrow> allReplicasReadyAndUpdated sts = Ok True)
    | _ \<Rightarrow> False)"

definition execEvent :: "rabbitmqCluster \<Rightarrow> event \<Rightarrow> bool" where
  "execEvent c e = (case e of Exec k con cmd r \<Rightarrow> con = ''rabbitmq'' \<and> (\<exists>i. k = (rc_Namespace c, podNamed c i)) | _ \<Rightarrow> True)"

text \<open>What a run that comes to an end with nothing left to do has done.\<close>

definition commandsDone :: "rabbitmqCluster \<Rightarrow> statefulSet \<Rightarrow> configMap \<Rightarrow> event list \<Rightarrow> bool" where
  "commandsDone c sts cfg es \<longleftrightarrow>
     (pending (cm_Meta cfg) pluginsUpdateAnnotation \<longrightarrow>
        (\<exists>n. spec_Replicas (rc_Spec c) = Some n
          \<and> list_all (\<lambda>i. execOk c (setPluginsCommand c) (int i) \<in> set es) [0..<nat n]))
   \<and> (pending (st_Meta sts) stsCreateAnnotation \<longrightarrow> execOk c [''bash'', ''-c'', featureFlagsCommand] 0 \<in> set es)
   \<and> (pending (rc_Meta c) queueRebalanceAnnotation \<longrightarrow>
        execOk c [''sh'', ''-c'', ''rabbitmq-queues rebalance all''] 0 \<in> set es)"

lemma commandsDone_mono: "commandsDone c sts cfg es \<Longrightarrow> set es \<subseteq> set fs \<Longrightarrow> commandsDone c sts cfg fs"
  unfolding commandsDone_def list_all_iff by blast

lemma run_setPlugins_Ok:
  assumes "runSetPluginsCommand R cfg w = (Ok (), w')"
  shows "\<exists>n es. spec_Replicas (rc_Spec (w_rmq w)) = Some n \<and> w' = w\<lparr>w_log := w_log w @ es\<rparr>
    \<and> list_all (\<lambda>i. execOk (w_rmq w) (setPluginsCommand (w_rmq w)) (int i) \<in> set es) [0..<nat n]"
proof -
  from assms obtain n where n: "spec_Replicas (rc_Spec (w_rmq w)) = Some n"
    by (cases "spec_Replicas (rc_Spec (w_rmq w))") (simp_all add: runSetPluginsCommand_def bindM_def run_simps)
  let ?c = "w_rmq w" and ?is = "map int [0..<nat n]"
  let ?cmd = "setPluginsCommand ?c" and ?del = "deleteAnnotation (cmObject (rec_Client R)) cfg pluginsUpdateAnnotation"
  let ?loop = "forEach (runInPod R ?c ?cmd ''failed to set plugins on pod'') ?is"
  let ?w = "w\<lparr>w_log := w_log w @ map (execOk ?c ?cmd) ?is\<rparr>"
  have run: "bindM ?loop (\<lambda>_. ?del) w = (Ok (), w')"
    using assms n by (simp add: runSetPluginsCommand_def bindM_def run_simps)
  with run_inPods [of R ?c ?cmd "''failed to set plugins on pod''" ?is w] have "?loop w = (Ok (), ?w)"
    by (auto simp: bindM_def)
  with run have "?del ?w = (Ok (), w')" by (simp add: bindM_def)
  from logsOnly_run [OF deleteAnnotation_logsOnly(1) this] obtain es where
    "w' = w\<lparr>w_log := w_log w @ (map (execOk ?c ?cmd) ?is @ es)\<rparr>" by auto
  with n show ?thesis by (intro exI [of _ n] exI conjI) (assumption, auto simp: list_all_iff)
qed

lemma run_flags_Ok:
  assumes "runEnableFeatureFlagsCommand R sts w = (Ok (), w')"
  shows "\<exists>es. w' = w\<lparr>w_log := w_log w @ es\<rparr> \<and> execOk (w_rmq w) [''bash'', ''-c'', featureFlagsCommand] 0 \<in> set es"
proof -
  let ?c = "w_rmq w" and ?cmd = "[''bash'', ''-c'', featureFlagsCommand]"
  let ?del = "deleteAnnotation (stsObject (rec_Client R)) sts stsCreateAnnotation"
  let ?w = "w\<lparr>w_log := w_log w @ [execOk ?c ?cmd 0]\<rparr>"
  from assms have run: "bindM (runInPod R ?c ?cmd ''failed to enable all feature flags on pod'' 0) (\<lambda>_. ?del) w = (Ok (), w')"
    by (simp add: runEnableFeatureFlagsCommand_def bindM_def run_simps)
  with run_runInPod [of R ?c ?cmd "''failed to enable all feature flags on pod''" 0 w]
  have "?del ?w = (Ok (), w')" by (auto simp: bindM_def)
  from logsOnly_run [OF deleteAnnotation_logsOnly(2) this] obtain es where
    "w' = w\<lparr>w_log := w_log w @ (execOk ?c ?cmd 0 # es)\<rparr>" by auto
  then show ?thesis by (intro exI conjI) (assumption, simp)
qed

lemma run_rebalance_Ok:
  assumes "runQueueRebalanceCommand R w = (Ok (), w')"
  shows "\<exists>es. w_log w' = w_log w @ es \<and> execOk (w_rmq w) [''sh'', ''-c'', ''rabbitmq-queues rebalance all''] 0 \<in> set es"
proof -
  let ?c = "w_rmq w" and ?cmd = "[''sh'', ''-c'', ''rabbitmq-queues rebalance all'']"
  let ?del = "deleteAnnotation (rmqObject (rec_Client R)) ?c queueRebalanceAnnotation"
  let ?w = "w\<lparr>w_log := w_log w @ [execOk ?c ?cmd 0]\<rparr>"
  from assms have run: "bindM (runInPod R ?c ?cmd ''failed to run queue rebalance on pod'' 0) (\<lambda>_. ?del) w = (Ok (), w')"
    by (simp add: runQueueRebalanceCommand_def bindM_def run_simps)
  with run_runInPod [of R ?c ?cmd "''failed to run queue rebalance on pod''" 0 w]
  have "?del ?w = (Ok (), w')" by (auto simp: bindM_def)
  from only_runD [OF deleteAnnotation_only(3) [of "\<lambda>_. True"] this] obtain es where
    "w_log w' = w_log w @ (execOk ?c ?cmd 0 # es)" by auto
  then show ?thesis by (intro exI conjI) (assumption, simp)
qed

lemma checked_OkD:
  assumes "checked 0 m k w = (Ok (0, None), w2)"
  obtains a w1 where "m w = (Ok a, w1)" and "k a w1 = (Ok (0, None), w2)"
  using assms by (auto elim: checked_cases)

lemma checked_whenD:
  assumes "checked 0 (whenM b m) k w = (Ok (0, None), w2)"
  obtains u w1 where "if b then m w = (Ok u, w1) else w1 = w" and "k u w1 = (Ok (0, None), w2)"
  using assms by (auto elim!: checked_OkD simp: whenM_def run_simps split: if_splits)

text \<open>The stages of a run that ends with nothing left to do.\<close>

lemma pending_stages:
  assumes "runPendingCommands R sts ocfg w = (Ok (0, None), w')"
  obtains recent cfg w1 u2 w2 u3 w3 u4 where "ocfg = Some cfg"
    and "pluginsConfigUpdatedRecently R ocfg w = (Ok recent, w1)"
    and "if pending (cm_Meta cfg) pluginsUpdateAnnotation then runSetPluginsCommand R cfg w1 = (Ok u2, w2) else w2 = w1"
    and "if pending (st_Meta sts) stsCreateAnnotation then runEnableFeatureFlagsCommand R sts w2 = (Ok u3, w3) else w3 = w2"
    and "if pending (rc_Meta (w_rmq w3)) queueRebalanceAnnotation then runQueueRebalanceCommand R w3 = (Ok u4, w') else w' = w3"
proof -
  let ?rest3 = "bindM getRmq (\<lambda>rmq.
     checked 0 (whenM (pending (rc_Meta rmq) queueRebalanceAnnotation) (runQueueRebalanceCommand R)) (\<lambda>_. ret (0, None)))"
  let ?rest2 = "checked 0 (whenM (pending (st_Meta sts) stsCreateAnnotation) (runEnableFeatureFlagsCommand R sts)) (\<lambda>_. ?rest3)"
  from assms obtain recent w1 where w1: "pluginsConfigUpdatedRecently R ocfg w = (Ok recent, w1)" and
    rest1: "(if recent then ret (2, None) else bindM (fromOutcome (deref ocfg)) (\<lambda>cfg.
       checked 0 (whenM (pending (cm_Meta cfg) pluginsUpdateAnnotation) (runSetPluginsCommand R cfg)) (\<lambda>_. ?rest2))) w1
       = (Ok (0, None), w')"
    unfolding runPendingCommands_def by (elim checked_OkD)
  then have "\<not> recent" by (auto simp: run_simps)
  with rest1 obtain cfg where cfg: "ocfg = Some cfg" by (cases ocfg) (auto simp: bindM_def run_simps)
  from rest1 \<open>\<not> recent\<close> cfg obtain u2 w2 where
    w2: "if pending (cm_Meta cfg) pluginsUpdateAnnotation then runSetPluginsCommand R cfg w1 = (Ok u2, w2) else w2 = w1" and
    rest2: "?rest2 w2 = (Ok (0, None), w')"
    by (auto simp: bindM_def run_simps elim: checked_whenD)
  from rest2 obtain u3 w3 where
    w3: "if pending (st_Meta sts) stsCreateAnnotation then runEnableFeatureFlagsCommand R sts w2 = (Ok u3, w3) else w3 = w2" and
    "?rest3 w3 = (Ok (0, None), w')" by (elim checked_whenD)
  then obtain u4 where
    "if pending (rc_Meta (w_rmq w3)) queueRebalanceAnnotation then runQueueRebalanceCommand R w3 = (Ok u4, w') else w' = w3"
    by (auto simp: bindM_def run_simps elim!: checked_whenD)
  with cfg w1 w2 w3 show ?thesis using that by blast
qed

lemma stage_done:
  fixes w w' :: world
  assumes "if b then X else w' = w" and "b \<Longrightarrow> X \<Longrightarrow> \<exists>es. w' = w\<lparr>w_log := w_log w @ es\<rparr> \<and> Q es"
  shows "\<exists>es. w' = w\<lparr>w_log := w_log w @ es\<rparr> \<and> (b \<longrightarrow> Q es)"
  using assms by (cases b) (auto intro: exI [of _ "[]"])

lemma pending_done:
  assumes "runPendingCommands R sts ocfg w = (Ok (0, None), w')"
  shows "\<exists>cfg es. ocfg = Some cfg \<and> w_log w' = w_log w @ es \<and> commandsDone (w_rmq w) sts cfg es"
proof (rule pending_stages [OF assms])
  let ?c = "w_rmq w"
  fix recent cfg w1 w2 w3 and u2 u3 u4 :: unit
  assume cfg: "ocfg = Some cfg" and w1: "pluginsConfigUpdatedRecently R ocfg w = (Ok recent, w1)"
    and w2: "if pending (cm_Meta cfg) pluginsUpdateAnnotation then runSetPluginsCommand R cfg w1 = (Ok u2, w2) else w2 = w1"
    and w3: "if pending (st_Meta sts) stsCreateAnnotation then runEnableFeatureFlagsCommand R sts w2 = (Ok u3, w3) else w3 = w2"
    and w4: "if pending (rc_Meta (w_rmq w3)) queueRebalanceAnnotation then runQueueRebalanceCommand R w3 = (Ok u4, w') else w' = w3"
  from logsOnly_run [OF runSet_logsOnly(3) w1] obtain es1 where es1: "w1 = w\<lparr>w_log := w_log w @ es1\<rparr>" ..
  from stage_done [OF w2, of "\<lambda>es. \<exists>n. spec_Replicas (rc_Spec ?c) = Some n
      \<and> list_all (\<lambda>i. execOk ?c (setPluginsCommand ?c) (int i) \<in> set es) [0..<nat n]"] run_setPlugins_Ok [of R cfg w1 w2] es1
  obtain es2 where es2: "w2 = w1\<lparr>w_log := w_log w1 @ es2\<rparr>"
    and done2: "pending (cm_Meta cfg) pluginsUpdateAnnotation \<longrightarrow> (\<exists>n. spec_Replicas (rc_Spec ?c) = Some n
        \<and> list_all (\<lambda>i. execOk ?c (setPluginsCommand ?c) (int i) \<in> set es2) [0..<nat n])" by auto
  from stage_done [OF w3, of "\<lambda>es. execOk ?c [''bash'', ''-c'', featureFlagsCommand] 0 \<in> set es"]
    run_flags_Ok [of R sts w2 w3] es1 es2
  obtain es3 where es3: "w3 = w2\<lparr>w_log := w_log w2 @ es3\<rparr>" and
    done3: "pending (st_Meta sts) stsCreateAnnotation \<longrightarrow> execOk ?c [''bash'', ''-c'', featureFlagsCommand] 0 \<in> set es3"
    by auto
  have c3: "w_rmq w3 = ?c" using es1 es2 es3 by simp
  with w4 run_rebalance_Ok [of R w3 w'] have "\<exists>es4. w_log w' = w_log w3 @ es4
    \<and> (pending (rc_Meta ?c) queueRebalanceAnnotation \<longrightarrow> execOk ?c [''sh'', ''-c'', ''rabbitmq-queues rebalance all''] 0 \<in> set es4)"
    by (cases "pending (rc_Meta ?c) queueRebalanceAnnotation") auto
  then obtain es4 where "w_log w' = w_log w3 @ es4" and "pending (rc_Meta ?c) queueRebalanceAnnotation \<longrightarrow>
      execOk ?c [''sh'', ''-c'', ''rabbitmq-queues rebalance all''] 0 \<in> set es4" by blast
  with done2 done3 es1 es2 es3 cfg show ?thesis
    by (intro exI [of _ cfg] exI [of _ "es1 @ es2 @ es3 @ es4"]) (auto simp: commandsDone_def list_all_iff)
qed

lemma run_configMap [run_simps]:
  "configMap R name w = (let k = (rc_Namespace (w_rmq w), name); q = api_getConfigMap (rec_Client R) k (w_log w) in
     (fromResponse q, w\<lparr>w_log := w_log w @ [GetConfigMap k q]\<rparr>))"
  by (simp add: configMap_def bindM_def run_simps Let_def)

text \<open>The part of a run after a StatefulSet that is ready.\<close>

definition runReady :: "reconciler \<Rightarrow> statefulSet \<Rightarrow> requeue prog" where
  "runReady R sts = bindM getRmq (\<lambda>rmq.
     tryM (configMap R (ChildResourceName rmq PluginsConfigName)) (case_sum
       (\<lambda>err. if \<not> isNotFound err then ret (0, Some err) else runPendingCommands R sts None)
       (\<lambda>cfg. runPendingCommands R sts (Some cfg))))"

lemma run_cli:
  "runRabbitmqCLICommandsIfAnnotated R w =
     (let q = api_getSts (rec_Client R) (stsKey (w_rmq w)) (w_log w);
          w1 = w\<lparr>w_log := w_log w @ [GetSts (stsKey (w_rmq w)) q]\<rparr>
      in case q of
           Inl (e, m) \<Rightarrow> (Ok (0, Some (ApiError e m)), w1)
         | Inr sts \<Rightarrow> (case allReplicasReadyAndUpdated sts of
               Ok ready \<Rightarrow> if \<not> ready then (Ok (15, None), w1) else runReady R sts w1
             | Err e \<Rightarrow> (Err e, w1) | Panic p \<Rightarrow> (Panic p, w1)))"
  unfolding runRabbitmqCLICommandsIfAnnotated_def checked_def runReady_def [symmetric] Let_def
  by (cases "api_getSts (rec_Client R) (stsKey (w_rmq w)) (w_log w)")
     (auto simp: tryM_def bindM_def run_simps split: outcome.splits)

lemma runReady_done:
  assumes "runReady R sts w = (Ok (0, None), w')"
  shows "\<exists>cfg k es. w_log w' = w_log w @ GetConfigMap k (Inr cfg) # es \<and> commandsDone (w_rmq w) sts cfg es"
proof -
  let ?k = "(rc_Namespace (w_rmq w), ChildResourceName (w_rmq w) PluginsConfigName)"
  let ?q = "api_getConfigMap (rec_Client R) ?k (w_log w)"
  let ?w = "w\<lparr>w_log := w_log w @ [GetConfigMap ?k ?q]\<rparr>"
  show ?thesis
  proof (cases ?q)
    case (Inl x)
    obtain q m where "x = (q, m)" by (cases x)
    with Inl assms have "runPendingCommands R sts None ?w = (Ok (0, None), w')"
      by (auto simp: runReady_def bindM_def tryM_def run_simps Let_def split: if_splits)
    from pending_done [OF this] show ?thesis by simp
  next
    case (Inr cfg)
    with assms have "runPendingCommands R sts (Some cfg) ?w = (Ok (0, None), w')"
      by (simp add: runReady_def bindM_def tryM_def run_simps Let_def)
    from pending_done [OF this] Inr show ?thesis by auto
  qed
qed

lemma runReady_extends:
  assumes "runReady R sts w = (r, w')"
  shows "\<exists>es. w_log w' = w_log w @ es"
proof -
  have "only (\<lambda>_. True) (runReady R sts)" unfolding runReady_def by (intro only_intros; simp)
  from only_runD [OF this assms] show ?thesis by blast
qed

text \<open>
  C14. A run of the commands executes nothing in a pod and writes nothing before it has read a
  StatefulSet whose replicas are all ready and up to date; otherwise it asks to be run again in
  15 seconds. When it ends with nothing left to do, every command that an annotation asked for
  has succeeded: the plugins are set on every pod, the feature flags are enabled and the queues
  are rebalanced.
\<close>

theorem cli_commands:
  assumes "runRabbitmqCLICommandsIfAnnotated R w = (r, w')"
  shows "guarded (readyAnswer (w_rmq w)) writesChild (events (runRabbitmqCLICommandsIfAnnotated R) w)
    \<and> (\<forall>sts. api_getSts (rec_Client R) (stsKey (w_rmq w)) (w_log w) = Inr sts
          \<and> allReplicasReadyAndUpdated sts = Ok False \<longrightarrow> r = Ok (15, None))
    \<and> (r = Ok (0, None) \<longrightarrow> (\<exists>sts cfg k es. w_log w' = w_log w @ GetSts (stsKey (w_rmq w)) (Inr sts) # GetConfigMap k (Inr cfg) # es
          \<and> api_getSts (rec_Client R) (stsKey (w_rmq w)) (w_log w) = Inr sts
          \<and> allReplicasReadyAndUpdated sts = Ok True \<and> commandsDone (w_rmq w) sts cfg es))"
proof -
  let ?c = "w_rmq w"
  let ?q = "api_getSts (rec_Client R) (stsKey ?c) (w_log w)"
  let ?w = "w\<lparr>w_log := w_log w @ [GetSts (stsKey ?c) ?q]\<rparr>"
  have ev: "events (runRabbitmqCLICommandsIfAnnotated R) w = GetSts (stsKey ?c) ?q # es"
    if "w_log w' = w_log ?w @ es" for es
    using assms that by (simp add: events_def)
  show ?thesis
  proof (cases "\<exists>sts. ?q = Inr sts \<and> allReplicasReadyAndUpdated sts = Ok True")
    case False
    then have "w' = ?w \<and> r \<noteq> Ok (0, None) \<and> (\<forall>sts. ?q = Inr sts \<and> allReplicasReadyAndUpdated sts = Ok False \<longrightarrow> r = Ok (15, None))"
      using assms unfolding run_cli Let_def by (auto split: sum.splits outcome.splits if_splits)
    with ev [of "[]"] show ?thesis by auto
  next
    case True
    then obtain sts where sts: "?q = Inr sts" and ready: "allReplicasReadyAndUpdated sts = Ok True" by blast
    with assms have rest: "runReady R sts ?w = (r, w')" by (simp add: run_cli Let_def)
    then obtain es where es: "w_log w' = w_log ?w @ es" using runReady_extends by blast
    have "readyAnswer ?c (GetSts (stsKey ?c) ?q)" by (simp add: readyAnswer_def sts ready)
    then have "guarded (readyAnswer ?c) writesChild (events (runRabbitmqCLICommandsIfAnnotated R) w)"
      unfolding ev [OF es] by simp
    moreover have "\<exists>sts cfg k es. w_log w' = w_log w @ GetSts (stsKey ?c) (Inr sts) # GetConfigMap k (Inr cfg) # es
          \<and> ?q = Inr sts \<and> allReplicasReadyAndUpdated sts = Ok True \<and> commandsDone ?c sts cfg es" if "r = Ok (0, None)"
      using runReady_done [of R sts ?w w'] rest that sts ready by auto
    ultimately show ?thesis using sts ready by auto
  qed
qed

text \<open>
  When the plugins config map does not exist, the code goes on with a nil pointer although its
  comment says "if it exists": reading its annotations panics.
\<close>

lemma cli_missing_config_panics:
  assumes "api_getSts (rec_Client R) (stsKey (w_rmq w)) (w_log w) = Inr sts"
    and "allReplicasReadyAndUpdated sts = Ok True"
    and "\<forall>k l. api_getConfigMap (rec_Client R) k l = Inl (ReasonNotFound, m)"
  shows "\<exists>w'. runRabbitmqCLICommandsIfAnnotated R w = (Panic ''nil pointer dereference'', w')"
  using assms
  by (simp add: run_cli Let_def runReady_def bindM_def tryM_def run_simps runPendingCommands_def checked_def
      pluginsConfigUpdatedRecently_def)

definition readySts :: statefulSet where
  "readySts = ownedSts\<lparr>st_Meta := (st_Meta ownedSts)\<lparr>om_Annotations := mlit [(stsCreateAnnotation, ''2022-06-01T12:00:00Z'')]\<rparr>\<rparr>"

definition cliApi :: api where
  "cliApi = withLibraries (sampleBase\<lparr>api_getConfigMap := (\<lambda>k l. Inr changedConf), api_getSts := (\<lambda>k l. Inr readySts)\<rparr>)"

theorem cli_commands_witness:
  "\<exists>w'. runRabbitmqCLICommandsIfAnnotated (sampleReconciler cliApi) sampleWorld = (Ok (0, None), w')
     \<and> execOk sampleCluster [''bash'', ''-c'', featureFlagsCommand] 0 \<in> set (w_log w')"
proof -
  obtain r w' where run: "runRabbitmqCLICommandsIfAnnotated (sampleReconciler cliApi) sampleWorld = (r, w')" by fastforce
  have ready: "allReplicasReadyAndUpdated readySts = Ok True"
    by (simp add: allReplicasReadyAndUpdated_def statefulSetBeingUpdated_def readySts_def ownedSts_def smallSts_def)
  have ann: "\<not> pending (cm_Meta changedConf) pluginsUpdateAnnotation"
      "mget (om_Annotations (cm_Meta changedConf)) pluginsUpdateAnnotation = None"
      "pending (st_Meta readySts) stsCreateAnnotation" "\<not> pending (rc_Meta sampleCluster) queueRebalanceAnnotation"
    by (simp_all add: pending_def mindex_def changedConf_def readySts_def sampleCluster_def emptyMeta_def
        pluginsUpdateAnnotation_def serverConfAnnotation_def)
  have api: "api_getSts cliApi k l = Inr readySts" "api_getConfigMap cliApi k l = Inr changedConf"
    "api_exec cliApi k con cmd l = Inr ()" "api_updateSts cliApi s l = Inr s" for k l con cmd s
    by (simp_all add: cliApi_def withLibraries_def sampleBase_def)
  have "fst (runRabbitmqCLICommandsIfAnnotated (sampleReconciler cliApi) sampleWorld) = Ok (0, None)"
    using ann
    by (simp add: run_cli Let_def api ready runReady_def bindM_def tryM_def run_simps runPendingCommands_def checked_def
        pluginsConfigUpdatedRecently_def whenM_def runEnableFeatureFlagsCommand_def runInPod_def deleteAnnotation_def
        stsObject_def del: mget_simps)
  with run have "r = Ok (0, None)" by simp
  with cli_commands [OF run] run ann show ?thesis
    by (auto simp: commandsDone_def api)
qed

end
