(* ===== verification/Reconcile.thy ===== *)
theory Reconcile
  imports Reconcile_CLI
begin

text \<open>
  \<^verbatim>\<open>rabbitmqcluster_controller.go\<close>: one reconciliation of a cluster, from the request to
  the result, and the index of the objects the controller owns.

  \<^verbatim>\<open>Reconcile\<close> leaves early from many places. A part that may leave early is a program of
  a \<open>requeue option\<close>: \<open>Some\<close> the result it leaves with, or \<open>None\<close> to go on. The
  resource is only marshalled to JSON for the operator's log, which is not modelled.
\<close>

section \<open>Parts of a reconciliation\<close>

definition pauseReconciliationLabel :: string where
  "pauseReconciliationLabel = ''rabbitmq.com/pauseReconciliation''"

definition getRabbitmqCluster :: "reconciler \<Rightarrow> nskey \<Rightarrow> unit prog" where
  "getRabbitmqCluster R k = bindM (getCluster (rec_Client R) k) (\<lambda>c. modifyRmq (\<lambda>_. c))"

definition markForQueueRebalance :: "reconciler \<Rightarrow> unit prog" where
  "markForQueueRebalance R =
     bindM (modifyMeta (\<lambda>m. m\<lparr>om_Annotations := mmake (om_Annotations m)\<rparr>)) (\<lambda>_.
     bindM getRmq (\<lambda>rmq.
     if length (mindex [] (om_Annotations (rc_Meta rmq)) queueRebalanceAnnotation) > 0 then ret ()
     else bindM (timeStamp R) (\<lambda>ts.
          bindM (modifyMeta (\<lambda>m. m\<lparr>om_Annotations := mput (om_Annotations m) queueRebalanceAnnotation ts\<rparr>)) (\<lambda>_.
          updateCluster (rec_Client R)))))"

text \<open>\<^verbatim>\<open>%T\<close> of an object, and its name.\<close>

fun typeName :: "object \<Rightarrow> string" where
  "typeName (OService s) = ''*v1.Service''"
| "typeName (OSecret s) = ''*v1.Secret''"
| "typeName (OConfigMap s) = ''*v1.ConfigMap''"
| "typeName (OServiceAccount s) = ''*v1.ServiceAccount''"
| "typeName (ORole s) = ''*v1.Role''"
| "typeName (ORoleBinding s) = ''*v1.RoleBinding''"
| "typeName (OStatefulSet s) = ''*v1.StatefulSet''"

text \<open>The operation and, as \<^verbatim>\<open>strings.Title\<close> makes it, its title.\<close>

fun operationName :: "operationResult \<Rightarrow> string \<times> string" where
  "operationName OperationResultCreated = (''create'', ''Create'')"
| "operationName OperationResultUpdated = (''update'', ''Update'')"
| "operationName OperationResultNone = ([], [])"

definition logAndRecordOperationResult :: "object \<Rightarrow> operationResult \<Rightarrow> error option \<Rightarrow> unit prog" where
  "logAndRecordOperationResult ob operationResult err =
     (if operationResult = OperationResultNone \<and> err = None then ret ()
      else let (operation, title) = operationName operationResult;
               what = '' resource '' @ om_Name (objMeta ob) @ '' of Type '' @ typeName ob
           in if err = None
              then record_event EventTypeNormal (''Successful'' @ title) (operation @ ''d'' @ what)
              else record_event EventTypeWarning (''Failed'' @ title) (''failed to '' @ operation @ what))"

text \<open>Growing the volumes, with its report.\<close>

definition scaleVolumes :: "reconciler \<Rightarrow> statefulSet \<Rightarrow> requeue option prog" where
  "scaleVolumes R sts =
     tryM (reconcilePVC R sts) (case_sum
       (\<lambda>err. bindM (setReconcileSuccess R ConditionFalse ''FailedReconcilePVC'' (errString err)) (\<lambda>_.
              ret (Some (0, Some err))))
       (\<lambda>_. ret None))"

text \<open>The part that only the StatefulSet goes through: refuse to scale down, grow the volumes.\<close>

definition recreateSts :: "reconciler \<Rightarrow> builder \<Rightarrow> requeue option prog" where
  "recreateSts R b =
     bindM getResource (\<lambda>ob. bindM (fromOutcome (asStatefulSet ob)) (\<lambda>sts.
     tryM (statefulSet R) (case_sum
       (\<lambda>err. if \<not> isNotFound err then ret (Some (0, Some err)) else scaleVolumes R sts)
       (\<lambda>current. bindM getRmq (\<lambda>c.
          tryM (fromOutcome (builder_Update (rec_env R) c b ob)) (case_sum
            (\<lambda>err. ret (Some (0, Some err)))
            (\<lambda>ob. bindM (setResource ob) (\<lambda>_. bindM (fromOutcome (asStatefulSet ob)) (\<lambda>sts.
                  bindM (scaleDown R current sts) (\<lambda>down.
                  if down then ret (Some (0, None)) else scaleVolumes R sts))))))))))"

definition applyBuilder :: "reconciler \<Rightarrow> builder \<Rightarrow> requeue option prog" where
  "applyBuilder R b = bindM getRmq (\<lambda>c.
     tryM (lib_onError (rec_Client R) isConflict
             (lib_createOrUpdate (rec_Client R) (builder_Update (rec_env R) c b))) (\<lambda>r.
     bindM getOperationResult (\<lambda>operationResult. bindM getResource (\<lambda>ob.
     bindM (logAndRecordOperationResult ob operationResult (case r of Inl err \<Rightarrow> Some err | Inr u \<Rightarrow> None)) (\<lambda>_.
     case_sum
       (\<lambda>err. bindM (setReconcileSuccess R ConditionFalse ''Error'' (errString err)) (\<lambda>_.
              ret (Some (0, Some err))))
       (\<lambda>_. tryM (annotateIfNeeded R b operationResult) (case_sum
              (\<lambda>err. ret (Some (0, Some err)))
              (\<lambda>_. ret None)))
       r)))))"

text \<open>Go on unless a part has left.\<close>

definition orElse :: "requeue option prog \<Rightarrow> requeue option prog \<Rightarrow> requeue option prog" where
  "orElse m rest = bindM m (\<lambda>res. case res of Some early \<Rightarrow> ret (Some early) | None \<Rightarrow> rest)"

definition reconcileBuilder :: "reconciler \<Rightarrow> builder \<Rightarrow> requeue option prog" where
  "reconcileBuilder R b = bindM getRmq (\<lambda>c.
     tryM (fromOutcome (builder_Build (rec_env R) c b)) (case_sum
       (\<lambda>err. ret (Some (0, Some err)))
       (\<lambda>ob. bindM (setResource ob) (\<lambda>_.
             orElse (if UpdateMayRequireStsRecreate b then recreateSts R b else ret None)
               (applyBuilder R b)))))"

fun reconcileBuilders :: "reconciler \<Rightarrow> builder list \<Rightarrow> requeue option prog" where
  "reconcileBuilders R [] = ret None"
| "reconcileBuilders R (b # bs) = orElse (reconcileBuilder R b) (reconcileBuilders R bs)"

text \<open>\<^verbatim>\<open>if requeueAfter, err := m(); err != nil || requeueAfter > 0 { return ... }\<close>.\<close>

definition unlessRequeued :: "requeue prog \<Rightarrow> requeue prog \<Rightarrow> requeue prog" where
  "unlessRequeued m rest =
     bindM m (\<lambda>p. case p of (requeueAfter, err) \<Rightarrow>
       if err \<noteq> None \<or> requeueAfter > 0 then ret (requeueAfter, err) else rest)"

section \<open>The reconciliation\<close>

definition finishReconcile :: "reconciler \<Rightarrow> requeue prog" where
  "finishReconcile R =
     bindM (runRabbitmqCLICommandsIfAnnotated R) (\<lambda>p. case p of (requeueAfter, err) \<Rightarrow>
       if err \<noteq> None \<or> requeueAfter > 0
       then bindM (case err of None \<Rightarrow> ret ()
                   | Some e \<Rightarrow> setReconcileSuccess R ConditionFalse ''FailedCLICommand'' (errString e)) (\<lambda>_.
            ret (requeueAfter, err))
       else bindM (modifyRmq (\<lambda>c. c\<lparr>rc_Status := (rc_Status c)\<lparr>cst_ObservedGeneration := om_Generation (rc_Meta c)\<rparr>\<rparr>)) (\<lambda>_.
            bindM (setReconcileSuccess R ConditionTrue ''Success'' ''Finish reconciling'') (\<lambda>_.
            ret (0, None))))"

definition reconcileChildren :: "reconciler \<Rightarrow> requeue prog" where
  "reconcileChildren R = bindM getRmq (\<lambda>c.
     bindM (reconcileBuilders R (ResourceBuilders c)) (\<lambda>res. case res of
       Some early \<Rightarrow> ret early
     | None \<Rightarrow> unlessRequeued (restartStatefulSetIfNeeded R)
         (checked 0 (reconcileStatus R) (\<lambda>_. finishReconcile R))))"

text \<open>A StatefulSet that was found may mark the cluster for a rebalancing of its queues.\<close>

definition markThenChildren :: "reconciler \<Rightarrow> requeue prog" where
  "markThenChildren R =
     tryM (statefulSet R) (case_sum
       (\<lambda>err. if \<not> isNotFound err then ret (0, Some err) else reconcileChildren R)
       (\<lambda>sts. bindM getRmq (\<lambda>c. bindM (fromOutcome (statefulSetNeedsQueueRebalance sts c)) (\<lambda>needs.
              checked 0 (whenM needs (markForQueueRebalance R)) (\<lambda>_. reconcileChildren R)))))"

definition reconcileActive :: "reconciler \<Rightarrow> requeue prog" where
  "reconcileActive R =
     unlessRequeued (reconcileOperatorDefaults R)
       (checked 0 (addFinalizerIfNeeded R) (\<lambda>_.
        unlessRequeued (updateStatusConditions R)
          (tryM (reconcileTLS R) (case_sum
             (\<lambda>tlsErr. if isDisableNonTLS tlsErr then ret (0, None) else ret (0, Some tlsErr))
             (\<lambda>_. markThenChildren R)))))"

definition reconcilePaused :: "reconciler \<Rightarrow> requeue prog" where
  "reconcilePaused R =
     bindM (record_event EventTypeWarning ''PausedReconciliation''
              (''label '' @ quoted pauseReconciliationLabel @ '' is set to true'')) (\<lambda>_.
     bindM (setCondition R NoWarnings ConditionFalse ''reconciliation paused'' []) (\<lambda>_.
     bindM (updateStatusOrLog R) (\<lambda>_. ret (0, None))))"

definition Reconcile :: "reconciler \<Rightarrow> nskey \<Rightarrow> requeue prog" where
  "Reconcile R key =
     tryM (getRabbitmqCluster R key) (case_sum
       (\<lambda>err. if \<not> isNotFound err then ret (0, Some err) else ret (0, None))
       (\<lambda>_. bindM getRmq (\<lambda>c.
          if \<not> isZeroTime (om_DeletionTimestamp (rc_Meta c))
          then checked 0 (prepareForDeletion R) (\<lambda>_. ret (0, None))
          else if mget (om_Labels (rc_Meta c)) pauseReconciliationLabel = Some ''true''
          then reconcilePaused R
          else reconcileActive R)))"

section \<open>Owned objects\<close>

definition apiGVStr :: string where "apiGVStr = ''rabbitmq.com/v1beta1''"
definition ownerKind :: string where "ownerKind = ''RabbitmqCluster''"

definition validateAndGetOwner :: "ownerReference option \<Rightarrow> string list" where
  "validateAndGetOwner owner = (case owner of
      None \<Rightarrow> []
    | Some ref \<Rightarrow> if or_APIVersion ref \<noteq> apiGVStr \<or> or_Kind ref \<noteq> ownerKind then [] else [or_Name ref])"

text \<open>Every kind of object in the model is one of those the switch lists.\<close>

definition addResourceToIndex :: "api \<Rightarrow> object \<Rightarrow> string list" where
  "addResourceToIndex S ob = validateAndGetOwner (lib_GetControllerOf S (objMeta ob))"

section \<open>Applying one builder\<close>

text \<open>A server that answers about the object it is asked about.\<close>

definition namesKept :: "api \<Rightarrow> bool" where
  "namesKept S \<longleftrightarrow> (\<forall>i l x. api_readObject S i l = Inr x \<longrightarrow> objectId x = i)
     \<and> (\<forall>ob l x. api_createObject S ob l = Inr x \<longrightarrow> objectId x = objectId ob)
     \<and> (\<forall>ob l x. api_updateObject S ob l = Inr x \<longrightarrow> objectId x = objectId ob)"

text \<open>
  The server has accepted an object that is the result of an update, or already holds one that
  the update does not change.
\<close>

definition appliedBy :: "(object \<Rightarrow> object outcome) \<Rightarrow> kind \<times> nskey \<Rightarrow> event list \<Rightarrow> bool" where
  "appliedBy f i es \<longleftrightarrow> (\<exists>x y. f x = Ok y \<and> objectId y = i
     \<and> ((\<exists>z. CreateObject y (Inr z) \<in> set es) \<or> (\<exists>z. UpdateObject y (Inr z) \<in> set es)
        \<or> y = x \<and> ReadObject i (Inr x) \<in> set es))"

lemma appliedBy_mono: "appliedBy f i es \<Longrightarrow> set es \<subseteq> set fs \<Longrightarrow> appliedBy f i fs"
  unfolding appliedBy_def by blast

text \<open>A run that leaves the cluster in memory alone and works on the object \<open>i\<close>.\<close>

definition worksOn :: "kind \<times> nskey \<Rightarrow> world \<Rightarrow> world \<Rightarrow> bool" where
  "worksOn i w w' \<longleftrightarrow> w_rmq w' = w_rmq w \<and> (objectId (w_resource w) = i \<longrightarrow> objectId (w_resource w') = i)"

lemma worksOn_refl [simp]: "worksOn i w w" by (simp add: worksOn_def)
lemma worksOn_trans: "worksOn i w w1 \<Longrightarrow> worksOn i w1 w2 \<Longrightarrow> worksOn i w w2" by (simp add: worksOn_def)
lemma worksOn_log: "worksOn i w (w\<lparr>w_log := l\<rparr>)" by (simp add: worksOn_def)

lemma run_mutate:
  "mutateResource f w = (case f (w_resource w) of Ok y \<Rightarrow> (Ok y, w\<lparr>w_resource := y\<rparr>)
     | Err e \<Rightarrow> (Err e, w) | Panic p \<Rightarrow> (Panic p, w))"
  by (simp add: mutateResource_def bindM_def run_simps split: outcome.splits)

lemma run_objectCalls:
  "readObject S i w = (fromResponse (api_readObject S i (w_log w)),
     w\<lparr>w_log := w_log w @ [ReadObject i (api_readObject S i (w_log w))]\<rparr>)"
  "createObject S ob w = (fromResponse (api_createObject S ob (w_log w)),
     w\<lparr>w_log := w_log w @ [CreateObject ob (api_createObject S ob (w_log w))]\<rparr>)"
  "updateObject S ob w = (fromResponse (api_updateObject S ob (w_log w)),
     w\<lparr>w_log := w_log w @ [UpdateObject ob (api_updateObject S ob (w_log w))]\<rparr>)"
  by (simp_all add: readObject_def createObject_def updateObject_def run_call)

definition keepsId :: "(object \<Rightarrow> object outcome) \<Rightarrow> bool" where
  "keepsId f \<longleftrightarrow> (\<forall>x y. f x = Ok y \<longrightarrow> objectId y = objectId x)"

text \<open>The three ways through \<open>CreateOrUpdate\<close>.\<close>

lemma createOrUpdate_paths:
  assumes "documented S" and "objectId (w_resource w) = i" and q: "q = api_readObject S i (w_log w)"
    and w1: "w1 = w\<lparr>w_operationResult := OperationResultNone, w_log := w_log w @ [ReadObject i q]\<rparr>"
  shows "q = Inr found \<Longrightarrow> v = w1\<lparr>w_resource := found\<rparr> \<Longrightarrow>
      lib_createOrUpdate S f w = (case f found of Err e \<Rightarrow> (Err e, v) | Panic p \<Rightarrow> (Panic p, v)
        | Ok y \<Rightarrow> if y = found then (Ok (), v)
            else (case api_updateObject S y (w_log v) of
              Inl q \<Rightarrow> (Err (ApiError (fst q) (snd q)), v\<lparr>w_resource := y, w_log := w_log v @ [UpdateObject y (Inl q)]\<rparr>)
            | Inr z \<Rightarrow> (Ok (), v\<lparr>w_resource := z, w_log := w_log v @ [UpdateObject y (Inr z)],
                  w_operationResult := OperationResultUpdated\<rparr>)))"
    and "q = Inl (ReasonNotFound, m) \<Longrightarrow>
      lib_createOrUpdate S f w = (case f (w_resource w) of Err e \<Rightarrow> (Err e, w1) | Panic p \<Rightarrow> (Panic p, w1)
        | Ok y \<Rightarrow> (case api_createObject S y (w_log w1) of
              Inl q \<Rightarrow> (Err (ApiError (fst q) (snd q)), w1\<lparr>w_resource := y, w_log := w_log w1 @ [CreateObject y (Inl q)]\<rparr>)
            | Inr z \<Rightarrow> (Ok (), w1\<lparr>w_resource := z, w_log := w_log w1 @ [CreateObject y (Inr z)],
                  w_operationResult := OperationResultCreated\<rparr>)))"
    and "q = Inl (a, m) \<Longrightarrow> a \<noteq> ReasonNotFound \<Longrightarrow> lib_createOrUpdate S f w = (Err (ApiError a m), w1)"
  using assms(2) unfolding q w1 documentedD(6) [OF assms(1)] documentedCreateOrUpdate_def
  by (auto simp: bindM_def tryM_def run_basic run_objectCalls run_mutate isNotFound_def
      split: outcome.splits sum.splits)

lemma createOrUpdate_run:
  assumes "documented S" and names: "namesKept S" and keep: "keepsId f"
    and run: "lib_createOrUpdate S f w = (r, w')" and i: "objectId (w_resource w) = i"
  shows "worksOn i w w' \<and> (\<exists>es. w_log w' = w_log w @ es \<and> (r = Ok () \<longrightarrow> appliedBy f i es))"
proof -
  let ?q = "api_readObject S i (w_log w)"
  let ?w = "w\<lparr>w_operationResult := OperationResultNone, w_log := w_log w @ [ReadObject i ?q]\<rparr>"
  note paths = createOrUpdate_paths [where f = f, OF assms(1) i refl refl]
  show ?thesis
  proof (cases ?q)
    case (Inr found)
    with names have found: "objectId found = i" unfolding namesKept_def by blast
    let ?v = "?w\<lparr>w_resource := found\<rparr>"
    note step = run [unfolded paths(1) [OF Inr refl], symmetric]
    show ?thesis
    proof (cases "f found")
      case (Ok y)
      with keep found have y: "objectId y = i" by (simp add: keepsId_def)
      show ?thesis
      proof (cases "y = found")
        case True
        with step Ok have w': "r = Ok ()" "w' = ?v" by simp_all
        have "appliedBy f i [ReadObject i (Inr found)]" unfolding appliedBy_def using Ok True y by auto
        with w' found Inr show ?thesis by (auto simp: worksOn_def)
      next
        case False
        show ?thesis
        proof (cases "api_updateObject S y (w_log ?v)")
          case (Inl q)
          with step Ok False y show ?thesis by (auto simp: worksOn_def)
        next
          case u: (Inr z)
          with names y have "objectId z = i" unfolding namesKept_def by metis
          moreover have "appliedBy f i [ReadObject i ?q, UpdateObject y (Inr z)]"
            unfolding appliedBy_def using Ok y by auto
          ultimately show ?thesis using step Ok False u y by (auto simp: worksOn_def)
        qed
      qed
    qed (use step found in \<open>auto simp: worksOn_def\<close>)
  next
    case (Inl q)
    obtain c m where q: "q = (c, m)" by (cases q)
    show ?thesis
    proof (cases "c = ReasonNotFound")
      case False
      with run paths(3) Inl q have "r = Err (ApiError c m)" "w' = ?w" by simp_all
      then show ?thesis by (simp add: worksOn_def)
    next
      case True
      with Inl q have "?q = Inl (ReasonNotFound, m)" by simp
      note step = run [unfolded paths(2) [OF this], symmetric]
      show ?thesis
      proof (cases "f (w_resource w)")
        case (Ok y)
        with keep i have y: "objectId y = i" by (simp add: keepsId_def)
        show ?thesis
        proof (cases "api_createObject S y (w_log ?w)")
          case (Inl q)
          with step Ok y show ?thesis by (auto simp: worksOn_def)
        next
          case u: (Inr z)
          with names y have "objectId z = i" unfolding namesKept_def by metis
          moreover have "appliedBy f i [ReadObject i ?q, CreateObject y (Inr z)]"
            unfolding appliedBy_def using Ok y by auto
          ultimately show ?thesis using step Ok u y by (auto simp: worksOn_def)
        qed
      qed (use step in \<open>auto simp: worksOn_def\<close>)
    qed
  qed
qed

definition applies :: "(object \<Rightarrow> object outcome) \<Rightarrow> kind \<times> nskey \<Rightarrow> world \<Rightarrow> bool \<Rightarrow> world \<Rightarrow> bool" where
  "applies f i w ok w' \<longleftrightarrow> worksOn i w w' \<and> (\<exists>es. w_log w' = w_log w @ es \<and> (ok \<longrightarrow> appliedBy f i es))"

lemma applies_log:
  assumes "applies f i w ok w1"
  shows "applies f i w ok (w1\<lparr>w_log := w_log w1 @ es\<rparr>)"
proof -
  from assms obtain fs where "w_log w1 = w_log w @ fs" "worksOn i w w1" "ok \<longrightarrow> appliedBy f i fs"
    unfolding applies_def by blast
  moreover from this have "ok \<longrightarrow> appliedBy f i (fs @ es)" using appliedBy_mono [of f i fs "fs @ es"] by auto
  ultimately show ?thesis unfolding applies_def
    by (intro conjI exI [of _ "fs @ es"]) (simp_all add: worksOn_def)
qed

lemma applies_after:
  assumes "worksOn i w w1" and "w_log w1 = w_log w @ es" and "applies f i w1 ok w2"
  shows "applies f i w ok w2"
proof -
  from assms(3) obtain fs where fs: "w_log w2 = w_log w1 @ fs" "worksOn i w1 w2" "ok \<longrightarrow> appliedBy f i fs"
    unfolding applies_def by blast
  then have "ok \<longrightarrow> appliedBy f i (es @ fs)" using appliedBy_mono [of f i fs "es @ fs"] by auto
  with fs assms(1,2) worksOn_trans show ?thesis unfolding applies_def
    by (intro conjI exI [of _ "es @ fs"]) auto
qed

lemma attempts_run:
  assumes "documented S" and "namesKept S" and "keepsId f" and "attempts n P (lib_createOrUpdate S f) w = (r, w')" and "objectId (w_resource w) = i"
  shows "applies f i w (r = Ok ()) w'"
  using assms(4,5)
proof (induction n arbitrary: w)
  case 0
  with createOrUpdate_run [of S f, OF assms(1,2,3)] show ?case by (simp add: applies_def)
next
  case (Suc n)
  note once = createOrUpdate_run [of S f, OF assms(1,2,3)]
  from Suc.prems(1) have "tryM (lib_createOrUpdate S f)
      (case_sum (\<lambda>e. if P e then attempts n P (lib_createOrUpdate S f) else throw e) ret) w = (r, w')" by simp
  then show ?case
  proof (cases rule: try_cases)
    case (val a w1)
    with once [OF val(1) Suc.prems(2)] show ?thesis by (simp add: applies_def run_simps)
  next
    case (err e w1)
    note o1 = once [OF err(1) Suc.prems(2)]
    show ?thesis
    proof (cases "P e")
      case True
      from o1 obtain es where o2: "worksOn i w w1" "w_log w1 = w_log w @ es" by blast
      with Suc.prems(2) have "objectId (w_resource w1) = i" by (simp add: worksOn_def)
      with Suc.IH [of w1] err(2) True have "applies f i w1 (r = Ok ()) w'" by simp
      with o2 show ?thesis by (rule applies_after)
    next
      case False
      with o1 err(2) show ?thesis by (auto simp: applies_def run_simps)
    qed
  next
    case (pan p)
    with once [OF pan(1) Suc.prems(2)] show ?thesis by (simp add: applies_def)
  qed
qed

lemma onError_run:
  assumes "documented S" and "namesKept S" and "keepsId f" and "lib_onError S P (lib_createOrUpdate S f) w = (r, w')" and "objectId (w_resource w) = i"
  shows "applies f i w (r = Ok ()) w'"
  using documentedD(5) [OF assms(1), of P "lib_createOrUpdate S f"] attempts_run [OF assms(1-3) _ assms(5)] assms(4)
  by auto

lemma loops_logsOnly:
  "logsOnly (getPVCLoop S c is pvcs)" "logsOnly f \<Longrightarrow> logsOnly (retryLoop n t f)"
proof -
  show "logsOnly (getPVCLoop S c is pvcs)"
    by (induction "is" arbitrary: pvcs) (auto intro!: frame_intros)
  show "logsOnly f \<Longrightarrow> logsOnly (retryLoop n t f)"
    by (induction n) (auto intro!: frame_intros)
qed

lemma reconcilePVC_logsOnly [frame_intros]: "logsOnly (reconcilePVC R sts)"
  unfolding reconcilePVC_def Scale_def existingCapacity_def growPVCs_def getClusterPVCs_def deleteSts_def
    deleteAndWait_def retryWithInterval_def stsGone_def scaleUpPVCs_def scaleUpPVC_def getSts_def Let_def
  by (intro frame_intros loops_logsOnly)

lemma record_logsOnly [frame_intros]: "logsOnly (logAndRecordOperationResult ob res err)"
  unfolding logAndRecordOperationResult_def Let_def by (intro frame_intros)

lemma setReconcileSuccess_Some:
  "bindM (setReconcileSuccess R st reason msg) (\<lambda>_. ret (Some x)) w = (Ok None, w') \<Longrightarrow> False"
  using run_setReconcileSuccess [of R st reason msg w] by (auto simp: run_simps)

text \<open>The ways through \<open>applyBuilder\<close>.\<close>

lemma record_Ok: "\<exists>w'. logAndRecordOperationResult ob res err w = (Ok (), w')"
  by (simp add: logAndRecordOperationResult_def record_event_def run_simps Let_def split_beta)

lemma applyBuilder_cases:
  assumes "applyBuilder R b w = (r, w')"
  obtains (applied) w1 w2 where
      "lib_onError (rec_Client R) isConflict (lib_createOrUpdate (rec_Client R) (builder_Update (rec_env R) (w_rmq w) b)) w = (Ok (), w1)"
      and "logAndRecordOperationResult (w_resource w1) (w_operationResult w1) None w1 = (Ok (), w2)"
      and "tryM (annotateIfNeeded R b (w_operationResult w1))
        (case_sum (\<lambda>err. ret (Some (0, Some err))) (\<lambda>_. ret None)) w2 = (r, w')"
  | (refused) e w1 w2 where
      "lib_onError (rec_Client R) isConflict (lib_createOrUpdate (rec_Client R) (builder_Update (rec_env R) (w_rmq w) b)) w = (Err e, w1)"
      and "logAndRecordOperationResult (w_resource w1) (w_operationResult w1) (Some e) w1 = (Ok (), w2)"
      and "bindM (setReconcileSuccess R ConditionFalse ''Error'' (errString e)) (\<lambda>_. ret (Some (0, Some e))) w2 = (r, w')"
  | (panicked) p where "r = Panic p"
proof -
  let ?put = "lib_onError (rec_Client R) isConflict (lib_createOrUpdate (rec_Client R) (builder_Update (rec_env R) (w_rmq w) b))"
  obtain q w1 where put: "?put w = (q, w1)" by (cases "?put w")
  show thesis
  proof (cases q)
    case (Ok a)
    obtain w2 where "logAndRecordOperationResult (w_resource w1) (w_operationResult w1) None w1 = (Ok (), w2)"
      using record_Ok by blast
    with assms put Ok show thesis
      by (intro applied) (simp_all add: applyBuilder_def bindM_def tryM_def run_simps)
  next
    case (Err e)
    obtain w2 where "logAndRecordOperationResult (w_resource w1) (w_operationResult w1) (Some e) w1 = (Ok (), w2)"
      using record_Ok by blast
    with assms put Err show thesis
      by (intro refused) (simp_all add: applyBuilder_def bindM_def tryM_def run_simps)
  next
    case (Panic p)
    with assms put show thesis
      by (intro panicked) (auto simp: applyBuilder_def bindM_def tryM_def run_simps)
  qed
qed

lemma applyBuilder_run:
  assumes "documented (rec_Client R)" and "namesKept (rec_Client R)" and "setsOwnerOnly (rec_env R)"
    and run: "applyBuilder R b w = (Ok None, w')" and i: "objectId (w_resource w) = i"
  shows "applies (builder_Update (rec_env R) (w_rmq w) b) i w True w'"
  using run
proof (cases rule: applyBuilder_cases)
  case (applied w1 w2)
  have keep: "keepsId (builder_Update (rec_env R) (w_rmq w) b)" using update_id [OF assms(3)] by (simp add: keepsId_def)
  from onError_run [OF assms(1,2) keep applied(1) i]
  have "applies (builder_Update (rec_env R) (w_rmq w) b) i w True w1" by simp
  moreover obtain es where "w2 = w1\<lparr>w_log := w_log w1 @ es\<rparr>" using logsOnly_run [OF record_logsOnly applied(2)] by blast
  moreover have "logsOnly (tryM (annotateIfNeeded R b (w_operationResult w1))
      (case_sum (\<lambda>err. ret (Some (0, Some err)) :: requeue option prog) (\<lambda>_. ret None)))"
    using assms(1) by (intro frame_intros)
  from logsOnly_run [OF this applied(3)] obtain fs where "w' = w2\<lparr>w_log := w_log w2 @ fs\<rparr>" by blast
  ultimately show ?thesis by (simp add: applies_log)
next
  case (refused e w1 w2)
  from refused(3) have False by (auto elim!: bind_OkD simp: run_simps)
  then show ?thesis ..
qed simp

lemma scaleVolumes_None:
  assumes "scaleVolumes R sts w = (Ok None, w')"
  shows "\<exists>es. w' = w\<lparr>w_log := w_log w @ es\<rparr>"
  using assms unfolding scaleVolumes_def
proof (cases rule: try_cases)
  case (val a w1)
  with logsOnly_run [OF reconcilePVC_logsOnly val(1)] show ?thesis by (simp add: run_simps)
qed (auto dest: setReconcileSuccess_Some)

section \<open>The StatefulSet\<close>

text \<open>The log of a run that has refused to scale the cluster \<open>c\<close> down.\<close>

definition refusedScaleDown :: "rabbitmqCluster \<Rightarrow> event list \<Rightarrow> bool" where
  "refusedScaleDown c es \<longleftrightarrow> (\<exists>current m n t resp fs. n < m \<and> st_Replicas current = Some m
     \<and> es = fs @ [GetSts (stsKey c) (Inr current), Recorded EventTypeWarning ''UnsupportedOperation'' (scaleDownMsg m n), Clock t,
         UpdateClusterStatus (withCondition t ReconcileSuccess ConditionFalse ''UnsupportedOperation'' (scaleDownMsg m n) c) resp])"

lemma refusedScaleDown_after: "refusedScaleDown c es \<Longrightarrow> refusedScaleDown c (fs @ es)"
  unfolding refusedScaleDown_def by (metis append.assoc)

text \<open>What follows a StatefulSet that was found.\<close>

definition checkScaleDown :: "reconciler \<Rightarrow> statefulSet \<Rightarrow> statefulSet \<Rightarrow> requeue option prog" where
  "checkScaleDown R current sts = bindM (scaleDown R current sts) (\<lambda>down.
     if down then ret (Some (0, None)) else scaleVolumes R sts)"

lemma scaleVolumes_early: "scaleVolumes R sts w = (Ok (Some (0, None)), w') \<Longrightarrow> False"
  unfolding scaleVolumes_def
  by (erule try_cases) (auto simp: run_simps elim!: bind_OkD)

lemma checkScaleDown_run:
  assumes "checkScaleDown R current sts w = (Ok res, w')"
  shows "(res = None \<longrightarrow> (\<exists>es. w' = w\<lparr>w_log := w_log w @ es\<rparr>))
    \<and> (res = Some (0, None) \<longrightarrow> (\<exists>m n t resp. n < m \<and> st_Replicas current = Some m \<and> st_Replicas sts = Some n
        \<and> w_log w' = w_log w @ [Recorded EventTypeWarning ''UnsupportedOperation'' (scaleDownMsg m n), Clock t,
            UpdateClusterStatus (withCondition t ReconcileSuccess ConditionFalse ''UnsupportedOperation''
              (scaleDownMsg m n) (w_rmq w)) resp]))"
proof -
  have "\<exists>m n. st_Replicas current = Some m \<and> st_Replicas sts = Some n"
    using assms unfolding checkScaleDown_def scaleDown_def
    by (cases "st_Replicas current"; cases "st_Replicas sts") (auto simp: bindM_def run_simps)
  then obtain m n where reps: "st_Replicas current = Some m" "st_Replicas sts = Some n" by blast
  note down = run_scaleDown [OF reps]
  show ?thesis
  proof (cases "m \<le> n")
    case True
    with down(1) [OF this] assms have "scaleVolumes R sts w = (Ok res, w')"
      by (simp add: checkScaleDown_def bindM_def)
    with scaleVolumes_None scaleVolumes_early show ?thesis by blast
  next
    case False
    with down(2) [of R w] obtain w1 t resp where "scaleDown R current sts w = (Ok True, w1)"
      and log: "w_log w1 = w_log w @ [Recorded EventTypeWarning ''UnsupportedOperation'' (scaleDownMsg m n), Clock t,
            UpdateClusterStatus (withCondition t ReconcileSuccess ConditionFalse ''UnsupportedOperation''
              (scaleDownMsg m n) (w_rmq w)) resp]" by auto
    with assms have "res = Some (0, None)" "w' = w1" by (simp_all add: checkScaleDown_def bindM_def ret_def)
    moreover have "n < m" using False by simp
    ultimately show ?thesis using reps log by blast
  qed
qed

lemma recreateSts_run:
  assumes keep: "keepsId (builder_Update (rec_env R) (w_rmq w) b)"
    and run: "recreateSts R b w = (Ok res, w')"
  shows "(res = None \<longrightarrow> worksOn i w w' \<and> (\<exists>es. w_log w' = w_log w @ es))
    \<and> (res = Some (0, None) \<longrightarrow> (\<exists>es. w_log w' = w_log w @ es \<and> refusedScaleDown (w_rmq w) es))"
proof -
  let ?c = "w_rmq w" let ?ob = "w_resource w"
  let ?f = "builder_Update (rec_env R) ?c b"
  let ?q = "api_getSts (rec_Client R) (stsKey ?c) (w_log w)"
  let ?w = "w\<lparr>w_log := w_log w @ [GetSts (stsKey ?c) ?q]\<rparr>"
  obtain sts where sts: "?ob = OStatefulSet sts"
    using run by (cases ?ob) (auto simp: recreateSts_def asStatefulSet_def bindM_def run_simps)
  show ?thesis
  proof (cases ?q)
    case (Inl x)
    obtain q m where "x = (q, m)" by (cases x)
    with Inl run sts have "res \<noteq> None \<and> res \<noteq> Some (0, None) \<or> scaleVolumes R sts ?w = (Ok res, w')"
      by (auto simp: recreateSts_def asStatefulSet_def bindM_def tryM_def run_simps split: if_splits)
    then show ?thesis
    proof
      assume "scaleVolumes R sts ?w = (Ok res, w')"
      with scaleVolumes_None scaleVolumes_early show ?thesis by (fastforce simp: worksOn_def)
    qed simp
  next
    case (Inr current)
    show ?thesis
    proof (cases "?f ?ob")
      case (Ok ob')
      let ?v = "?w\<lparr>w_resource := ob'\<rparr>"
      obtain sts' where sts': "ob' = OStatefulSet sts'" and check: "checkScaleDown R current sts' ?v = (Ok res, w')"
        using run sts Inr Ok
        by (cases ob') (auto simp: recreateSts_def checkScaleDown_def asStatefulSet_def bindM_def tryM_def run_simps)
      note res = checkScaleDown_run [OF check]
      have "objectId ob' = objectId ?ob" using keep Ok by (simp add: keepsId_def)
      then have "worksOn i w w' \<and> (\<exists>es. w_log w' = w_log w @ es)" if "res = None"
        using res that by (auto simp: worksOn_def)
      moreover have "\<exists>es. w_log w' = w_log w @ es \<and> refusedScaleDown ?c es" if early: "res = Some (0, None)"
      proof -
        from res early obtain m n t resp where "n < m" "st_Replicas current = Some m"
          and log: "w_log w' = w_log ?v @ [Recorded EventTypeWarning ''UnsupportedOperation'' (scaleDownMsg m n), Clock t,
            UpdateClusterStatus (withCondition t ReconcileSuccess ConditionFalse ''UnsupportedOperation''
              (scaleDownMsg m n) (w_rmq ?v)) resp]" by blast
        then have "refusedScaleDown ?c ([GetSts (stsKey ?c) (Inr current), Recorded EventTypeWarning ''UnsupportedOperation'' (scaleDownMsg m n), Clock t,
            UpdateClusterStatus (withCondition t ReconcileSuccess ConditionFalse ''UnsupportedOperation'' (scaleDownMsg m n) ?c) resp])"
          unfolding refusedScaleDown_def
          by (intro exI [of _ current] exI [of _ m] exI [of _ n] exI [of _ t] exI [of _ resp] exI [of _ "[]"]) simp
        with log Inr show ?thesis by (intro exI conjI) (simp, simp)
      qed
      ultimately show ?thesis by simp
    qed (use run sts Inr in \<open>auto simp: recreateSts_def asStatefulSet_def bindM_def tryM_def run_simps\<close>)
  qed
qed

text \<open>
  C17. Scaling a cluster down is refused: when the StatefulSet the server holds has more replicas
  than the resource asks for (and the user does not override the specification), the step of
  the StatefulSet's builder reads it, records the refusal, reports it in the status and ends the
  whole reconciliation without an error. Nothing else is called, so neither the volumes nor the
  StatefulSet nor any later object is touched.
\<close>

theorem scale_down_refused:
  assumes "plainSts (rec_env R) (w_rmq w)" and "StatefulSet_Build (rec_env R) (w_rmq w) = Ok new"
    and "StatefulSet_Update (rec_env R) (w_rmq w) new = Ok desired"
    and "api_getSts (rec_Client R) (stsKey (w_rmq w)) (w_log w) = Inr current"
    and "st_Replicas current = Some m" and "spec_Replicas (rc_Spec (w_rmq w)) = Some n" and "n < m"
  shows "\<exists>w' t resp. reconcileBuilders R (StatefulSetBuilder # bs) w = (Ok (Some (0, None)), w')
    \<and> w_log w' = w_log w @ [GetSts (stsKey (w_rmq w)) (Inr current),
        Recorded EventTypeWarning ''UnsupportedOperation'' (scaleDownMsg m n), Clock t,
        UpdateClusterStatus (withCondition t ReconcileSuccess ConditionFalse ''UnsupportedOperation''
          (scaleDownMsg m n) (w_rmq w)) resp]"
proof -
  let ?v = "w\<lparr>w_log := w_log w @ [GetSts (stsKey (w_rmq w)) (Inr current)], w_resource := OStatefulSet desired\<rparr>"
  from assms(3) have "st_Replicas desired = Some n"
    unfolding StatefulSet_Update_plain [OF assms(1)] by (auto simp: assms(6))
  from run_scaleDown(2) [OF assms(5) this assms(7), of R ?v] obtain w' t resp where
    down: "scaleDown R current desired ?v = (Ok True, w')"
    and log: "w_log w' = w_log ?v @ [Recorded EventTypeWarning ''UnsupportedOperation'' (scaleDownMsg m n), Clock t,
          UpdateClusterStatus (withCondition t ReconcileSuccess ConditionFalse ''UnsupportedOperation''
            (scaleDownMsg m n) (w_rmq ?v)) resp]" by blast
  have "recreateSts R StatefulSetBuilder (w\<lparr>w_resource := OStatefulSet new\<rparr>) = (Ok (Some (0, None)), w')"
    using assms(3,4) down by (simp add: recreateSts_def asStatefulSet_def bindM_def tryM_def run_simps)
  then have "reconcileBuilders R (StatefulSetBuilder # bs) w = (Ok (Some (0, None)), w')"
    using assms(2) by (simp add: reconcileBuilder_def orElse_def bindM_def tryM_def run_simps)
  with log show ?thesis by (intro exI [of _ w'] exI [of _ t] exI [of _ resp]) simp
qed

definition largeSts :: statefulSet where
  "largeSts = smallSts\<lparr>st_Replicas := Some 5\<rparr>"

theorem scale_down_refused_witness:
  "\<exists>w'. reconcileBuilders (sampleReconciler (sampleApi\<lparr>api_getSts := (\<lambda>k l. Inr largeSts)\<rparr>)) [StatefulSetBuilder] sampleWorld
     = (Ok (Some (0, None)), w') \<and> length (w_log w') = 4"
proof -
  let ?R = "sampleReconciler (sampleApi\<lparr>api_getSts := (\<lambda>k l. Inr largeSts)\<rparr>)"
  obtain new desired where new: "StatefulSet_Build sampleEnv sampleCluster = Ok new"
    and upd: "StatefulSet_Update sampleEnv sampleCluster new = Ok desired" using sample_statefulSet by blast
  have plain: "plainSts sampleEnv sampleCluster" by (simp add: plainSts_def sampleCluster_def sampleSpec_def)
  have three: "spec_Replicas (rc_Spec sampleCluster) = Some 3" by (simp add: sampleCluster_def sampleSpec_def)
  have "\<exists>w' t resp. reconcileBuilders ?R [StatefulSetBuilder] sampleWorld = (Ok (Some (0, None)), w')
    \<and> w_log w' = w_log sampleWorld @ [GetSts (stsKey (w_rmq sampleWorld)) (Inr largeSts),
        Recorded EventTypeWarning ''UnsupportedOperation'' (scaleDownMsg 5 3), Clock t,
        UpdateClusterStatus (withCondition t ReconcileSuccess ConditionFalse ''UnsupportedOperation''
          (scaleDownMsg 5 3) (w_rmq sampleWorld)) resp]"
    by (rule scale_down_refused [where new = new and desired = desired])
       (simp_all add: plain new upd three largeSts_def)
  then show ?thesis by auto
qed

section \<open>All builders\<close>

definition applied :: "reconciler \<Rightarrow> rabbitmqCluster \<Rightarrow> event list \<Rightarrow> builder \<Rightarrow> bool" where
  "applied R c es b \<longleftrightarrow> appliedBy (builder_Update (rec_env R) c b) (targetId c b) es"

lemma applyBuilder_early: "applyBuilder R b w = (Ok (Some (0, None)), w') \<Longrightarrow> False"
  unfolding applyBuilder_def
  by (elim bind_OkD try_cases) (auto simp: run_simps elim!: bind_OkD try_cases)

lemma reconcileBuilder_run:
  assumes "documented (rec_Client R)" and "namesKept (rec_Client R)" and own: "setsOwnerOnly (rec_env R)"
    and run: "reconcileBuilder R b w = (Ok res, w')"
  shows "(res = None \<longrightarrow> w_rmq w' = w_rmq w \<and> (\<exists>es. w_log w' = w_log w @ es \<and> applied R (w_rmq w) es b))
    \<and> (res = Some (0, None) \<longrightarrow> (\<exists>es. w_log w' = w_log w @ es \<and> refusedScaleDown (w_rmq w) es))"
proof -
  let ?c = "w_rmq w"
  have keep: "keepsId (builder_Update (rec_env R) ?c b)" using update_id [OF own] by (simp add: keepsId_def)
  show ?thesis
  proof (cases "builder_Build (rec_env R) ?c b")
    case (Ok ob)
    let ?w = "w\<lparr>w_resource := ob\<rparr>"
    have i: "objectId (w_resource ?w) = targetId ?c b" using build_id [OF Ok] by simp
    have "orElse (if UpdateMayRequireStsRecreate b then recreateSts R b else ret None) (applyBuilder R b) ?w = (Ok res, w')"
      using run Ok by (simp add: reconcileBuilder_def bindM_def tryM_def run_simps)
    then obtain pre w1 where pre: "(if UpdateMayRequireStsRecreate b then recreateSts R b else ret None) ?w = (Ok pre, w1)"
      and rest: "(case pre of Some early \<Rightarrow> ret (Some early) | None \<Rightarrow> applyBuilder R b) w1 = (Ok res, w')"
      unfolding orElse_def by (elim bind_OkD)
    have sts: "(pre = None \<longrightarrow> worksOn (targetId ?c b) ?w w1 \<and> (\<exists>es. w_log w1 = w_log ?w @ es))
        \<and> (pre = Some (0, None) \<longrightarrow> (\<exists>es. w_log w1 = w_log ?w @ es \<and> refusedScaleDown (w_rmq ?w) es))"
    proof (cases "UpdateMayRequireStsRecreate b")
      case True
      with pre keep show ?thesis by (intro recreateSts_run) simp_all
    next
      case False
      with pre show ?thesis by (simp add: run_simps)
    qed
    show ?thesis
    proof (cases pre)
      case None
      with sts obtain es where w1: "worksOn (targetId ?c b) ?w w1" "w_log w1 = w_log ?w @ es" by blast
      then have same: "w_rmq w1 = ?c" and i1: "objectId (w_resource w1) = targetId ?c b"
        using i by (simp_all add: worksOn_def)
      from rest None have ap: "applyBuilder R b w1 = (Ok res, w')" by simp
      have "w_rmq w' = ?c \<and> (\<exists>es. w_log w' = w_log w @ es \<and> applied R ?c es b)" if "res = None"
      proof -
        from applyBuilder_run [OF assms(1,2) own ap [unfolded that] i1] same obtain fs where
          "w_rmq w' = ?c" "w_log w' = w_log w1 @ fs" "appliedBy (builder_Update (rec_env R) ?c b) (targetId ?c b) fs"
          by (auto simp: applies_def worksOn_def)
        moreover from this(3) have "applied R ?c (es @ fs) b" unfolding applied_def by (rule appliedBy_mono) simp
        ultimately show ?thesis using w1(2) by (intro conjI exI [of _ "es @ fs"]) simp_all
      qed
      with ap applyBuilder_early show ?thesis by blast
    next
      case (Some early)
      with rest sts show ?thesis by (auto simp: run_simps)
    qed
  qed (use run in \<open>auto simp: reconcileBuilder_def bindM_def tryM_def run_simps\<close>)
qed

lemma applied_mono: "applied R c es b \<Longrightarrow> set es \<subseteq> set fs \<Longrightarrow> applied R c fs b"
  unfolding applied_def by (rule appliedBy_mono)

lemma reconcileBuilders_run:
  assumes "documented (rec_Client R)" and "namesKept (rec_Client R)" and "setsOwnerOnly (rec_env R)"
    and "reconcileBuilders R bs w = (Ok res, w')"
  shows "(res = None \<longrightarrow> w_rmq w' = w_rmq w \<and> (\<exists>es. w_log w' = w_log w @ es \<and> list_all (applied R (w_rmq w) es) bs))
    \<and> (res = Some (0, None) \<longrightarrow> (\<exists>es. w_log w' = w_log w @ es \<and> refusedScaleDown (w_rmq w) es))"
  using assms(4)
proof (induction bs arbitrary: w)
  case Nil
  then show ?case by (simp add: run_simps)
next
  case (Cons b bs)
  from Cons.prems obtain pre w1 where pre: "reconcileBuilder R b w = (Ok pre, w1)"
    and rest: "(case pre of Some early \<Rightarrow> ret (Some early) | None \<Rightarrow> reconcileBuilders R bs) w1 = (Ok res, w')"
    unfolding reconcileBuilders.simps orElse_def by (elim bind_OkD)
  note one = reconcileBuilder_run [OF assms(1-3) pre]
  show ?case
  proof (cases pre)
    case None
    with one obtain es where w1: "w_rmq w1 = w_rmq w" "w_log w1 = w_log w @ es" "applied R (w_rmq w) es b" by blast
    from rest None have "reconcileBuilders R bs w1 = (Ok res, w')" by simp
    note IH = Cons.IH [OF this]
    have "w_rmq w' = w_rmq w \<and> (\<exists>es. w_log w' = w_log w @ es \<and> list_all (applied R (w_rmq w) es) (b # bs))" if "res = None"
    proof -
      from IH that w1(1) obtain fs where fs: "w_rmq w' = w_rmq w" "w_log w' = w_log w1 @ fs" "list_all (applied R (w_rmq w) fs) bs"
        by auto
      then have "list_all (applied R (w_rmq w) (es @ fs)) (b # bs)"
        using w1(3) applied_mono [of R "w_rmq w" es b "es @ fs"] applied_mono [of R "w_rmq w" fs _ "es @ fs"]
        by (auto simp: list_all_iff)
      with fs w1 show ?thesis by (intro conjI exI [of _ "es @ fs"]) simp_all
    qed
    moreover have "\<exists>es. w_log w' = w_log w @ es \<and> refusedScaleDown (w_rmq w) es" if "res = Some (0, None)"
      using IH that w1 refusedScaleDown_after by fastforce
    ultimately show ?thesis by blast
  next
    case (Some early)
    with rest one show ?thesis by (auto simp: run_simps)
  qed
qed

section \<open>Reporting success\<close>

lemma unlessRequeued_done:
  assumes "unlessRequeued m rest w = (Ok (0, None), w')"
  obtains d w1 where "m w = (Ok (d, None), w1)" and "rest w1 = (Ok (0, None), w')"
  using assms unfolding unlessRequeued_def by (auto elim!: bind_OkD simp: run_simps split: if_splits)

lemma finish_run:
  assumes "finishReconcile R w = (Ok (0, None), w')"
  shows "\<exists>sts es t c1 resp. w_log w' = w_log w @ GetSts (stsKey (w_rmq w)) (Inr sts) # es
        @ [Clock t, UpdateClusterStatus (withCondition t ReconcileSuccess ConditionTrue ''Success'' ''Finish reconciling'' c1) resp]
    \<and> allReplicasReadyAndUpdated sts = Ok True \<and> cst_ObservedGeneration (rc_Status c1) = om_Generation (rc_Meta c1)"
proof -
  from assms obtain p w1 where cli: "runRabbitmqCLICommandsIfAnnotated R w = (Ok p, w1)"
    and rest: "(case p of (requeueAfter, err) \<Rightarrow>
       if err \<noteq> None \<or> requeueAfter > 0
       then bindM (case err of None \<Rightarrow> ret ()
                   | Some e \<Rightarrow> setReconcileSuccess R ConditionFalse ''FailedCLICommand'' (errString e)) (\<lambda>_.
            ret (requeueAfter, err))
       else bindM (modifyRmq (\<lambda>c. c\<lparr>rc_Status := (rc_Status c)\<lparr>cst_ObservedGeneration := om_Generation (rc_Meta c)\<rparr>\<rparr>)) (\<lambda>_.
            bindM (setReconcileSuccess R ConditionTrue ''Success'' ''Finish reconciling'') (\<lambda>_.
            ret (0, None)))) w1 = (Ok (0, None), w')"
    unfolding finishReconcile_def by (elim bind_OkD)
  obtain d err where p: "p = (d, err)" by (cases p)
  have go: "\<not> (err \<noteq> None \<or> d > 0)"
  proof
    assume leave: "err \<noteq> None \<or> d > 0"
    with rest p have "d = 0 \<and> err = None"
      by (auto simp: run_simps elim!: bind_OkD split: option.splits)
    with leave show False by simp
  qed
  obtain sts where sts: "api_getSts (rec_Client R) (stsKey (w_rmq w)) (w_log w) = Inr sts"
    and ready: "allReplicasReadyAndUpdated sts = Ok True"
    and run: "runReady R sts (w\<lparr>w_log := w_log w @ [GetSts (stsKey (w_rmq w)) (Inr sts)]\<rparr>) = (Ok p, w1)"
    using cli go p unfolding run_cli Let_def by (auto split: sum.splits outcome.splits if_splits)
  from runReady_extends [OF run] obtain es where
    es: "w_log w1 = w_log w @ GetSts (stsKey (w_rmq w)) (Inr sts) # es" by auto
  let ?c1 = "(w_rmq w1)\<lparr>rc_Status := (rc_Status (w_rmq w1))\<lparr>cst_ObservedGeneration := om_Generation (rc_Meta (w_rmq w1))\<rparr>\<rparr>"
  from run_setReconcileSuccess [of R ConditionTrue "''Success''" "''Finish reconciling''" "w1\<lparr>w_rmq := ?c1\<rparr>"]
  obtain t resp c' where set: "setReconcileSuccess R ConditionTrue ''Success'' ''Finish reconciling'' (w1\<lparr>w_rmq := ?c1\<rparr>)
      = (Ok (), w1\<lparr>w_rmq := c', w_log := w_log w1 @ [Clock t, UpdateClusterStatus (withCondition t ReconcileSuccess
          ConditionTrue ''Success'' ''Finish reconciling'' ?c1) resp]\<rparr>)"
    by auto
  with rest p go have "w' = w1\<lparr>w_rmq := c', w_log := w_log w1 @ [Clock t, UpdateClusterStatus (withCondition t ReconcileSuccess
          ConditionTrue ''Success'' ''Finish reconciling'' ?c1) resp]\<rparr>"
    by (simp add: bindM_def run_simps)
  with es ready show ?thesis
    by (intro exI [of _ sts] exI [of _ es] exI [of _ t] exI [of _ ?c1] exI [of _ resp]) simp
qed

text \<open>The end of a log that reports success after the events \<open>es\<close>.\<close>

definition reportsSuccess :: "event list \<Rightarrow> event list \<Rightarrow> bool" where
  "reportsSuccess es fs \<longleftrightarrow> (\<exists>t c1 resp. fs = es @ [Clock t,
       UpdateClusterStatus (withCondition t ReconcileSuccess ConditionTrue ''Success'' ''Finish reconciling'' c1) resp]
     \<and> cst_ObservedGeneration (rc_Status c1) = om_Generation (rc_Meta c1))"

lemma restart_then:
  assumes "documented (rec_Client R)"
    and "unlessRequeued (restartStatefulSetIfNeeded R)
         (checked 0 (reconcileStatus R) (\<lambda>_. finishReconcile R)) w = (Ok (0, None), w')"
  shows "\<exists>es w2. w_log w2 = w_log w @ es \<and> finishReconcile R w2 = (Ok (0, None), w')"
proof -
  from assms(2) obtain d w1 where w1: "restartStatefulSetIfNeeded R w = (Ok (d, None), w1)"
    and rest: "checked 0 (reconcileStatus R) (\<lambda>_. finishReconcile R) w1 = (Ok (0, None), w')"
    by (rule unlessRequeued_done)
  from rest obtain w2 where w2: "reconcileStatus R w1 = (Ok (), w2)" and fin: "finishReconcile R w2 = (Ok (0, None), w')"
    by (cases rule: checked_cases) auto
  obtain es where es: "w1 = w\<lparr>w_log := w_log w @ es\<rparr>"
    using logsOnly_run [OF restart_logsOnly [OF assms(1)] w1] by blast
  have "only (\<lambda>_. True) (reconcileStatus R)" by (intro only_intros; simp)
  from only_runD [OF this w2] obtain fs where "w_log w2 = w_log w1 @ fs" by blast
  with es fin show ?thesis by auto
qed

text \<open>
  C1. A reconciliation of the child objects that ends without an error and without asking to be
  run again has either refused to scale the cluster down, and then reported that, or every
  builder of the cluster has been applied: the server has accepted, under the builder's kind
  and name, the result of its update, or held an object the update does not change. In that
  case a StatefulSet whose replicas are all ready and up to date was read afterwards, and the
  last thing sent is a status that reports success for the current generation of the resource.
\<close>

theorem success_means_applied:
  assumes "documented (rec_Client R)" and "namesKept (rec_Client R)" and "setsOwnerOnly (rec_env R)"
    and "reconcileChildren R w = (Ok (0, None), w')"
  shows "(\<exists>es. w_log w' = w_log w @ es \<and> refusedScaleDown (w_rmq w) es)
    \<or> (\<exists>es k sts fs gs. w_log w' = w_log w @ gs \<and> reportsSuccess (es @ GetSts k (Inr sts) # fs) gs
        \<and> list_all (applied R (w_rmq w) es) (ResourceBuilders (w_rmq w))
        \<and> allReplicasReadyAndUpdated sts = Ok True)"
proof -
  let ?c = "w_rmq w"
  from assms(4) obtain res w1 where loop: "reconcileBuilders R (ResourceBuilders ?c) w = (Ok res, w1)"
    and rest: "(case res of Some early \<Rightarrow> ret early
     | None \<Rightarrow> unlessRequeued (restartStatefulSetIfNeeded R)
         (checked 0 (reconcileStatus R) (\<lambda>_. finishReconcile R))) w1 = (Ok (0, None), w')"
    unfolding reconcileChildren_def by (auto elim!: bind_OkD simp: run_simps)
  note run = reconcileBuilders_run [OF assms(1-3) loop]
  show ?thesis
  proof (cases res)
    case (Some early)
    with rest run show ?thesis by (auto simp: run_simps)
  next
    case None
    with run obtain es where es: "w_log w1 = w_log w @ es" "list_all (applied R ?c es) (ResourceBuilders ?c)" by blast
    from rest None have "unlessRequeued (restartStatefulSetIfNeeded R)
         (checked 0 (reconcileStatus R) (\<lambda>_. finishReconcile R)) w1 = (Ok (0, None), w')" by simp
    from restart_then [OF assms(1) this] obtain w2 fs where
      w2: "w_log w2 = w_log w1 @ fs" and fin: "finishReconcile R w2 = (Ok (0, None), w')" by blast
    from finish_run [OF fin] obtain sts gs t c1 resp where
      log: "w_log w' = w_log w2 @ GetSts (stsKey (w_rmq w2)) (Inr sts) # gs
        @ [Clock t, UpdateClusterStatus (withCondition t ReconcileSuccess ConditionTrue ''Success'' ''Finish reconciling'' c1) resp]"
      and ready: "allReplicasReadyAndUpdated sts = Ok True"
      and gen: "cst_ObservedGeneration (rc_Status c1) = om_Generation (rc_Meta c1)" by blast
    have "list_all (applied R ?c (es @ fs)) (ResourceBuilders ?c)"
      using es(2) applied_mono [of R ?c es _ "es @ fs"] by (auto simp: list_all_iff)
    moreover have "reportsSuccess ((es @ fs) @ GetSts (stsKey (w_rmq w2)) (Inr sts) # gs)
       (es @ fs @ GetSts (stsKey (w_rmq w2)) (Inr sts) # gs
        @ [Clock t, UpdateClusterStatus (withCondition t ReconcileSuccess ConditionTrue ''Success'' ''Finish reconciling'' c1) resp])"
      unfolding reportsSuccess_def using gen
      by (intro exI [of _ t] exI [of _ c1] exI [of _ resp]) simp
    moreover have "w_log w' = w_log w @ (es @ fs @ GetSts (stsKey (w_rmq w2)) (Inr sts) # gs
        @ [Clock t, UpdateClusterStatus (withCondition t ReconcileSuccess ConditionTrue ''Success'' ''Finish reconciling'' c1) resp])"
      using log w2 es(1) by simp
    ultimately show ?thesis using ready by blast
  qed
qed

end
