(* ===== verification/Reconcile_Settled.thy ===== *)
theory Reconcile_Settled
  imports Reconcile
begin

text \<open>
  The steady state: what a reconciliation does when the server already holds what the builders
  make, and that it then comes to its end.
\<close>

section \<open>The steady state\<close>

definition reading :: "event \<Rightarrow> bool" where
  "reading e = (case e of
      Clock t \<Rightarrow> True | GetSts k r \<Rightarrow> True | GetConfigMap k r \<Rightarrow> True | GetPVC k r \<Rightarrow> True
    | ReadObject i r \<Rightarrow> True | _ \<Rightarrow> False)"

lemma reading_simps [simp]:
  "reading (Clock t)" "reading (GetSts k r1)" "reading (GetConfigMap k r2)" "reading (GetPVC k r3)" "reading (ReadObject i r4)"
  by (simp_all add: reading_def)

text \<open>A run that reads, and leaves the cluster in memory alone.\<close>

definition readsOnly :: "world \<Rightarrow> world \<Rightarrow> bool" where
  "readsOnly w w' \<longleftrightarrow> w_rmq w' = w_rmq w \<and> (\<exists>es. w_log w' = w_log w @ es \<and> list_all reading es)"

lemma readsOnly_refl [simp]: "readsOnly w w"
  by (simp add: readsOnly_def)

lemma readsOnly_trans:
  assumes "readsOnly w w1" and "readsOnly w1 w2"
  shows "readsOnly w w2"
proof -
  from assms obtain es fs where "w_log w1 = w_log w @ es" "list_all reading es" "w_log w2 = w_log w1 @ fs" "list_all reading fs"
    unfolding readsOnly_def by blast
  with assms show ?thesis unfolding readsOnly_def by (intro conjI exI [of _ "es @ fs"]) simp_all
qed

lemma readsOnly_step:
  "w_rmq w' = w_rmq w \<Longrightarrow> w_log w' = w_log w @ [e] \<Longrightarrow> reading e \<Longrightarrow> readsOnly w w'"
  unfolding readsOnly_def by simp

text \<open>The logs in which nothing but reading has followed \<open>l0\<close>: the server still answers as it did.\<close>

definition quiet :: "event list \<Rightarrow> event list \<Rightarrow> bool" where
  "quiet l0 l \<longleftrightarrow> (\<exists>es. l = l0 @ es \<and> list_all reading es)"

lemma quiet_refl [simp]: "quiet l l"
  by (simp add: quiet_def)

lemma quiet_read: "quiet l0 l \<Longrightarrow> reading e \<Longrightarrow> quiet l0 (l @ [e])"
  unfolding quiet_def by fastforce

lemma readsOnly_quiet: "readsOnly w w' \<Longrightarrow> quiet l0 (w_log w) \<Longrightarrow> quiet l0 (w_log w')"
  unfolding readsOnly_def quiet_def by fastforce

text \<open>
  The server holds for every builder an object its update does not change, the StatefulSet
  among them is ready and has the replicas and the volumes asked for, and no annotation asks
  for a restart or a command.
\<close>

definition heldObjects :: "reconciler \<Rightarrow> rabbitmqCluster \<Rightarrow> event list \<Rightarrow> (builder \<Rightarrow> object) \<Rightarrow> bool" where
  "heldObjects R c l0 held \<longleftrightarrow> (\<forall>b. b \<in> set (ResourceBuilders c) \<longrightarrow>
     (\<exists>ob. builder_Build (rec_env R) c b = Ok ob)
   \<and> builder_Update (rec_env R) c b (held b) = Ok (held b)
   \<and> (\<forall>l. quiet l0 l \<longrightarrow> api_readObject (rec_Client R) (targetId c b) l = Inr (held b)))"

definition volumesFit :: "api \<Rightarrow> event list \<Rightarrow> quantity \<Rightarrow> bool" where
  "volumesFit S l0 d \<longleftrightarrow> (\<forall>k l. quiet l0 l \<longrightarrow> (case api_getPVC S k l of
     Inl q \<Rightarrow> fst q = ReasonNotFound | Inr p \<Rightarrow> qCmp (storage p) d \<noteq> -1))"

definition matchingSts :: "reconciler \<Rightarrow> rabbitmqCluster \<Rightarrow> event list \<Rightarrow> statefulSet \<Rightarrow> bool" where
  "matchingSts R c l0 sts \<longleftrightarrow> (\<exists>new desired. builder_Build (rec_env R) c StatefulSetBuilder = Ok new
     \<and> builder_Update (rec_env R) c StatefulSetBuilder new = Ok (OStatefulSet desired)
     \<and> st_Replicas desired = st_Replicas sts
     \<and> capacityLoop (st_VolumeClaimTemplates desired) = capacityLoop (st_VolumeClaimTemplates sts))
   \<and> volumesFit (rec_Client R) l0 (capacityLoop (st_VolumeClaimTemplates sts))
   \<and> (\<forall>l. quiet l0 l \<longrightarrow> api_getSts (rec_Client R) (stsKey c) l = Inr sts)
   \<and> allReplicasReadyAndUpdated sts = Ok True"

definition nothingAsked :: "reconciler \<Rightarrow> rabbitmqCluster \<Rightarrow> event list \<Rightarrow> statefulSet \<Rightarrow> bool" where
  "nothingAsked R c l0 sts \<longleftrightarrow>
     (\<forall>name \<in> {ChildResourceName c ServerConfigMapName, ChildResourceName c PluginsConfigName}.
      \<forall>l. quiet l0 l \<longrightarrow> (\<exists>cm. api_getConfigMap (rec_Client R) (rc_Namespace c, name) l = Inr cm
       \<and> \<not> needsRestart cm sts \<and> mget (om_Annotations (cm_Meta cm)) pluginsUpdateAnnotation = None))
   \<and> \<not> pending (st_Meta sts) stsCreateAnnotation \<and> \<not> pending (rc_Meta c) queueRebalanceAnnotation"

definition settled :: "reconciler \<Rightarrow> rabbitmqCluster \<Rightarrow> event list \<Rightarrow> (builder \<Rightarrow> object) \<Rightarrow> statefulSet \<Rightarrow> bool" where
  "settled R c l0 held sts \<longleftrightarrow> documented (rec_Client R) \<and> heldObjects R c l0 held \<and> matchingSts R c l0 sts
     \<and> nothingAsked R c l0 sts \<and> statusSettled c"

section \<open>One builder in the steady state\<close>

lemma createOrUpdate_unchanged:
  assumes "documented S" and "api_readObject S (objectId (w_resource w)) (w_log w) = Inr x" and "f x = Ok x"
  shows "lib_createOrUpdate S f w = (Ok (), w\<lparr>w_operationResult := OperationResultNone, w_resource := x,
    w_log := w_log w @ [ReadObject (objectId (w_resource w)) (Inr x)]\<rparr>)"
  using assms(2,3)
  by (simp add: documentedD(6) [OF assms(1)] documentedCreateOrUpdate_def bindM_def tryM_def run_basic run_objectCalls
      run_mutate)

lemma attempts_Ok: "f w = (Ok (), w') \<Longrightarrow> attempts n P f w = (Ok (), w')"
  by (cases n) (simp_all add: tryM_def ret_def)

lemma onError_Ok: "documented S \<Longrightarrow> f w = (Ok (), w') \<Longrightarrow> lib_onError S P f w = (Ok (), w')"
  using documentedD(5) [of S P f] attempts_Ok by auto

lemma annotate_unchanged: "annotateIfNeeded R b OperationResultNone w = (Ok (), w)"
  by (cases b) (simp_all add: annotateIfNeeded_def bindM_def run_simps)

lemma applyBuilder_unchanged:
  assumes "documented (rec_Client R)"
    and "api_readObject (rec_Client R) (objectId (w_resource w)) (w_log w) = Inr x"
    and "builder_Update (rec_env R) (w_rmq w) b x = Ok x"
  shows "\<exists>w'. applyBuilder R b w = (Ok None, w') \<and> readsOnly w w'"
proof -
  let ?f = "builder_Update (rec_env R) (w_rmq w) b"
  let ?w = "w\<lparr>w_operationResult := OperationResultNone, w_resource := x,
    w_log := w_log w @ [ReadObject (objectId (w_resource w)) (Inr x)]\<rparr>"
  have "lib_onError (rec_Client R) isConflict (lib_createOrUpdate (rec_Client R) ?f) w = (Ok (), ?w)"
    by (rule onError_Ok [OF assms(1)]) (rule createOrUpdate_unchanged [of _ w x, OF assms(1,2)], rule assms(3))
  then have "applyBuilder R b w = (Ok None, ?w)"
    by (simp add: applyBuilder_def bindM_def tryM_def run_simps logAndRecordOperationResult_def annotate_unchanged)
  moreover have "readsOnly w ?w" by (rule readsOnly_step) (simp, simp, simp)
  ultimately show ?thesis by blast
qed

lemma getPVCLoop_fits:
  assumes "volumesFit S l0 d" and "list_all (\<lambda>p. qCmp (storage p) d \<noteq> -1) pvcs" and "quiet l0 (w_log w)"
  shows "\<exists>ps w'. getPVCLoop S c is pvcs w = (Ok ps, w') \<and> readsOnly w w' \<and> list_all (\<lambda>p. qCmp (storage p) d \<noteq> -1) ps"
  using assms(2,3)
proof (induction "is" arbitrary: pvcs w)
  case Nil
  then show ?case by (simp add: run_simps)
next
  case (Cons i "is")
  let ?k = "(rc_Namespace c, PVCName c i)"
  let ?q = "api_getPVC S ?k (w_log w)"
  let ?w = "w\<lparr>w_log := w_log w @ [GetPVC ?k ?q]\<rparr>"
  have fit: "case ?q of Inl q \<Rightarrow> fst q = ReasonNotFound | Inr p \<Rightarrow> qCmp (storage p) d \<noteq> -1"
    using assms(1) Cons.prems(2) unfolding volumesFit_def by blast
  have one: "readsOnly w ?w" by (rule readsOnly_step) (simp, simp, simp)
  note q1 = readsOnly_quiet [OF one Cons.prems(2)]
  show ?case
  proof (cases ?q)
    case (Inl q)
    obtain m where "q = (ReasonNotFound, m)" using fit Inl by (cases q) simp
    with Inl have "getPVCLoop S c (i # is) pvcs w = getPVCLoop S c is pvcs ?w"
      by (simp add: tryM_def run_simps isNotFound_def)
    with Cons.IH [OF Cons.prems(1) q1] readsOnly_trans [OF one] show ?thesis by metis
  next
    case (Inr p)
    then have "getPVCLoop S c (i # is) pvcs w = getPVCLoop S c is (pvcs @ [p]) ?w"
      by (simp add: tryM_def run_simps)
    moreover have "list_all (\<lambda>p. qCmp (storage p) d \<noteq> -1) (pvcs @ [p])" using Cons.prems fit Inr by simp
    ultimately show ?thesis using Cons.IH [of "pvcs @ [p]", OF _ q1] readsOnly_trans [OF one] by metis
  qed
qed

lemma scaleVolumes_fits:
  assumes "volumesFit (rec_Client R) l0 d" and q: "quiet l0 (w_log w)" and "api_getSts (rec_Client R) (stsKey (w_rmq w)) (w_log w) = Inr cur"
    and "capacityLoop (st_VolumeClaimTemplates cur) = d" and "capacityLoop (st_VolumeClaimTemplates desired) = d"
  shows "\<exists>w'. scaleVolumes R desired w = (Ok None, w') \<and> readsOnly w w'"
proof -
  let ?w = "w\<lparr>w_log := w_log w @ [GetSts (stsKey (w_rmq w)) (Inr cur)]\<rparr>"
  let ?is = "map int [0..<nat (replicasOrOne (w_rmq w))]"
  have "quiet l0 (w_log ?w)" using q quiet_read by simp
  from getPVCLoop_fits [OF assms(1) _ this, of "[]" "w_rmq w" ?is] obtain ps w' where
    loop: "getPVCLoop (rec_Client R) (w_rmq w) ?is [] ?w = (Ok ps, w')" and ro: "readsOnly ?w w'"
    and ps: "list_all (\<lambda>p. qCmp (storage p) d \<noteq> -1) ps" by auto
  from ps have none: "pvcsNeedingScaling ps d = []" by (simp add: pvcsNeedingScaling_def filter_empty_conv list_all_iff)
  have "existingCapacity (rec_Client R) (w_rmq w) w = (Ok d, ?w)"
    using assms(3,4) by (simp add: existingCapacity_def getSts_def bindM_def run_simps stsKey_def)
  moreover have "growPVCs (rec_Client R) (w_rmq w) d ?w = (Ok (), w')"
    using loop none by (simp add: growPVCs_def getClusterPVCs_def bindM_def run_simps)
  ultimately have "Scale (rec_Client R) (w_rmq w) d w = (Ok (), w')"
    by (simp add: Scale_def tryM_def)
  then have "scaleVolumes R desired w = (Ok None, w')"
    by (simp add: scaleVolumes_def reconcilePVC_def persistenceStorageCapacity_def assms(5) bindM_def tryM_def run_simps)
  moreover have "readsOnly w ?w" by (rule readsOnly_step) (simp, simp, simp)
  ultimately show ?thesis using readsOnly_trans [OF _ ro] by blast
qed

lemma matching_replicas: "matchingSts R c l0 sts \<Longrightarrow> \<exists>n. st_Replicas sts = Some n"
  by (cases "st_Replicas sts") (auto simp: matchingSts_def allReplicasReadyAndUpdated_def)

lemma recreateSts_unchanged:
  assumes own: "setsOwnerOnly (rec_env R)" and m: "matchingSts R (w_rmq w) l0 sts" and q: "quiet l0 (w_log w)"
    and new: "builder_Build (rec_env R) (w_rmq w) StatefulSetBuilder = Ok (w_resource w)"
  shows "\<exists>w'. recreateSts R StatefulSetBuilder w = (Ok None, w') \<and> readsOnly w w'
     \<and> objectId (w_resource w') = objectId (w_resource w)"
proof -
  let ?c = "w_rmq w"
  from m new obtain desired where
    upd: "builder_Update (rec_env R) ?c StatefulSetBuilder (w_resource w) = Ok (OStatefulSet desired)"
    and same: "st_Replicas desired = st_Replicas sts"
      "capacityLoop (st_VolumeClaimTemplates desired) = capacityLoop (st_VolumeClaimTemplates sts)"
    and fit: "volumesFit (rec_Client R) l0 (capacityLoop (st_VolumeClaimTemplates sts))"
    and get: "\<And>l. quiet l0 l \<Longrightarrow> api_getSts (rec_Client R) (stsKey ?c) l = Inr sts"
    unfolding matchingSts_def new by blast
  from matching_replicas [OF m] obtain n where n: "st_Replicas sts = Some n" by blast
  from upd obtain new' where new': "w_resource w = OStatefulSet new'" by auto
  let ?w = "w\<lparr>w_log := w_log w @ [GetSts (stsKey ?c) (Inr sts)]\<rparr>"
  let ?v = "?w\<lparr>w_resource := OStatefulSet desired\<rparr>"
  have down: "scaleDown R sts desired ?v = (Ok False, ?v)"
    by (rule run_scaleDown(1) [of _ n _ n]) (simp_all add: n same)
  have "quiet l0 (w_log ?v)" using q quiet_read by simp
  from scaleVolumes_fits [OF fit this, of sts desired] get [OF this] same obtain w' where
    vol: "scaleVolumes R desired ?v = (Ok None, w')" and ro: "readsOnly ?v w'" by auto
  have "recreateSts R StatefulSetBuilder w = scaleVolumes R desired ?v"
    using new' upd get [OF q] down by (simp add: recreateSts_def asStatefulSet_def bindM_def tryM_def run_simps)
  moreover have "readsOnly w ?v" by (rule readsOnly_step) (simp, simp, simp)
  moreover have "objectId (w_resource w') = objectId (w_resource w)"
  proof -
    have "worksOn (objectId (OStatefulSet desired)) ?v w'"
      using scaleVolumes_None [OF vol] by (auto simp: worksOn_def)
    then show ?thesis using update_id [OF own upd] by (simp add: worksOn_def)
  qed
  ultimately show ?thesis using vol readsOnly_trans [OF _ ro] by auto
qed

lemma reconcileBuilder_unchanged:
  assumes own: "setsOwnerOnly (rec_env R)" and "documented (rec_Client R)" and held: "heldObjects R (w_rmq w) l0 held"
    and m: "matchingSts R (w_rmq w) l0 sts" and q: "quiet l0 (w_log w)" and b: "b \<in> set (ResourceBuilders (w_rmq w))"
  shows "\<exists>w'. reconcileBuilder R b w = (Ok None, w') \<and> readsOnly w w'"
proof -
  let ?c = "w_rmq w"
  from held b obtain ob where ob: "builder_Build (rec_env R) ?c b = Ok ob"
    and upd: "builder_Update (rec_env R) ?c b (held b) = Ok (held b)"
    and read: "\<And>l. quiet l0 l \<Longrightarrow> api_readObject (rec_Client R) (targetId ?c b) l = Inr (held b)"
    unfolding heldObjects_def by blast
  let ?w = "w\<lparr>w_resource := ob\<rparr>"
  have "\<exists>w1. (if UpdateMayRequireStsRecreate b then recreateSts R b else ret None) ?w = (Ok None, w1) \<and> readsOnly ?w w1
     \<and> objectId (w_resource w1) = objectId ob"
  proof (cases "b = StatefulSetBuilder")
    case True
    with recreateSts_unchanged [OF own, of ?w l0 sts] m q ob show ?thesis by simp
  next
    case False
    then have "\<not> UpdateMayRequireStsRecreate b" by (cases b) simp_all
    then show ?thesis by (simp add: run_simps)
  qed
  then obtain w1 where w1: "(if UpdateMayRequireStsRecreate b then recreateSts R b else ret None) ?w = (Ok None, w1)"
    and ro: "readsOnly ?w w1" and i: "objectId (w_resource w1) = targetId ?c b"
    using build_id [OF ob] by auto
  from ro have c: "w_rmq w1 = ?c" by (simp add: readsOnly_def)
  from readsOnly_quiet [OF ro] q have "quiet l0 (w_log w1)" by simp
  from applyBuilder_unchanged [OF assms(2), of w1 "held b" b] read [OF this] upd i c obtain w' where
    w': "applyBuilder R b w1 = (Ok None, w')" and ro': "readsOnly w1 w'" by auto
  have "reconcileBuilder R b w = (Ok None, w')"
    using ob w1 w' by (simp add: reconcileBuilder_def orElse_def bindM_def tryM_def run_simps)
  moreover have "readsOnly w ?w" by (simp add: readsOnly_def)
  ultimately show ?thesis using ro ro' readsOnly_trans by blast
qed

lemma reconcileBuilders_unchanged:
  assumes "setsOwnerOnly (rec_env R)" and "documented (rec_Client R)" and "heldObjects R (w_rmq w) l0 held"
    and "matchingSts R (w_rmq w) l0 sts" and "quiet l0 (w_log w)" and "set bs \<subseteq> set (ResourceBuilders (w_rmq w))"
  shows "\<exists>w'. reconcileBuilders R bs w = (Ok None, w') \<and> readsOnly w w'"
  using assms(3-6)
proof (induction bs arbitrary: w)
  case Nil
  then show ?case by (simp add: run_simps)
next
  case (Cons b bs)
  from reconcileBuilder_unchanged [OF assms(1,2) Cons.prems(1-3)] Cons.prems(4) obtain w1 where
    w1: "reconcileBuilder R b w = (Ok None, w1)" and ro: "readsOnly w w1" by auto
  then have "w_rmq w1 = w_rmq w" by (simp add: readsOnly_def)
  with Cons.IH [of w1] Cons.prems readsOnly_quiet [OF ro] obtain w' where
    "reconcileBuilders R bs w1 = (Ok None, w')" "readsOnly w1 w'" by auto
  with w1 ro readsOnly_trans show ?case by (auto simp: orElse_def bindM_def)
qed

section \<open>The rest of the reconciliation\<close>

lemma restart_unneeded:
  assumes "nothingAsked R (w_rmq w) l0 sts" and "matchingSts R (w_rmq w) l0 sts" and q: "quiet l0 (w_log w)"
  shows "\<exists>w'. restartStatefulSetIfNeeded R w = (Ok (0, None), w') \<and> readsOnly w w'"
proof -
  let ?k = "(rc_Namespace (w_rmq w), ChildResourceName (w_rmq w) ServerConfigMapName)"
  from assms obtain cm where cm: "api_getConfigMap (rec_Client R) ?k (w_log w) = Inr cm" and no: "\<not> needsRestart cm sts"
    and get: "\<And>l. quiet l0 l \<Longrightarrow> api_getSts (rec_Client R) (stsKey (w_rmq w)) l = Inr sts"
    unfolding nothingAsked_def matchingSts_def by blast
  let ?w = "w\<lparr>w_log := w_log w @ [GetConfigMap ?k (Inr cm)]\<rparr>"
  let ?v = "?w\<lparr>w_log := w_log ?w @ [GetSts (stsKey (w_rmq w)) (Inr sts)]\<rparr>"
  have w: "readsOnly w ?w" by (rule readsOnly_step) (simp, simp, simp)
  moreover have "readsOnly ?w ?v" by (rule readsOnly_step) (simp, simp, simp)
  ultimately have v: "readsOnly w ?v" by (rule readsOnly_trans)
  show ?thesis
  proof (cases "mget (om_Annotations (cm_Meta cm)) serverConfAnnotation")
    case None
    with cm have "restartStatefulSetIfNeeded R w = (Ok (0, None), ?w)"
      by (simp add: restartStatefulSetIfNeeded_def bindM_def tryM_def run_simps Let_def)
    with w show ?thesis by blast
  next
    case (Some up)
    with no obtain at' where at': "mget (om_Annotations (pt_Meta (st_Template sts))) stsRestartAnnotation = Some at'"
      and less: "strLess up at'" by (auto simp: needsRestart_def split: option.splits)
    from cm get [OF readsOnly_quiet [OF w q]] Some at' less have "restartStatefulSetIfNeeded R w = (Ok (0, None), ?v)"
      by (simp add: restartStatefulSetIfNeeded_def bindM_def tryM_def run_simps Let_def)
    with v show ?thesis by blast
  qed
qed

lemma status_settled: "statusSettled (w_rmq w) \<Longrightarrow> reconcileStatus R w = (Ok (), w)"
  by (simp add: reconcileStatus_def statusSettled_def bindM_def run_simps)

lemma cli_idle:
  assumes "nothingAsked R (w_rmq w) l0 sts" and "matchingSts R (w_rmq w) l0 sts" and q: "quiet l0 (w_log w)"
  shows "\<exists>w'. runRabbitmqCLICommandsIfAnnotated R w = (Ok (0, None), w') \<and> readsOnly w w'"
proof -
  let ?k = "(rc_Namespace (w_rmq w), ChildResourceName (w_rmq w) PluginsConfigName)"
  from assms(2) have get: "\<And>l. quiet l0 l \<Longrightarrow> api_getSts (rec_Client R) (stsKey (w_rmq w)) l = Inr sts"
    and ready: "allReplicasReadyAndUpdated sts = Ok True" unfolding matchingSts_def by blast+
  let ?w = "w\<lparr>w_log := w_log w @ [GetSts (stsKey (w_rmq w)) (Inr sts)]\<rparr>"
  have "quiet l0 (w_log ?w)" using q quiet_read by simp
  with assms(1) obtain cm where cm: "api_getConfigMap (rec_Client R) ?k (w_log ?w) = Inr cm"
    and no: "mget (om_Annotations (cm_Meta cm)) pluginsUpdateAnnotation = None"
      "\<not> pending (st_Meta sts) stsCreateAnnotation" "\<not> pending (rc_Meta (w_rmq w)) queueRebalanceAnnotation"
    unfolding nothingAsked_def by blast
  let ?v = "?w\<lparr>w_log := w_log ?w @ [GetConfigMap ?k (Inr cm)]\<rparr>"
  have "readsOnly w ?w" by (rule readsOnly_step) (simp, simp, simp)
  moreover have "readsOnly ?w ?v" by (rule readsOnly_step) (simp, simp, simp)
  ultimately have ro: "readsOnly w ?v" by (rule readsOnly_trans)
  have "\<not> pending (cm_Meta cm) pluginsUpdateAnnotation" using no(1) by (simp add: pending_def mindex_def)
  with no have "runPendingCommands R sts (Some cm) ?v = (Ok (0, None), ?v)"
    by (simp add: runPendingCommands_def checked_def pluginsConfigUpdatedRecently_def whenM_def bindM_def tryM_def run_simps)
  then have "runRabbitmqCLICommandsIfAnnotated R w = (Ok (0, None), ?v)"
    using get [OF q] ready cm by (simp add: run_cli runReady_def bindM_def tryM_def run_simps Let_def)
  with ro show ?thesis by blast
qed

text \<open>The status sent at the end of a reconciliation of \<open>c\<close>.\<close>

definition successStatus :: "gotime \<Rightarrow> rabbitmqCluster \<Rightarrow> rabbitmqCluster" where
  "successStatus t c = withCondition t ReconcileSuccess ConditionTrue ''Success'' ''Finish reconciling''
     (c\<lparr>rc_Status := (rc_Status c)\<lparr>cst_ObservedGeneration := om_Generation (rc_Meta c)\<rparr>\<rparr>)"

lemma finish_idle:
  assumes "nothingAsked R (w_rmq w) l0 sts" and "matchingSts R (w_rmq w) l0 sts" and q: "quiet l0 (w_log w)"
  shows "\<exists>w' es t resp. finishReconcile R w = (Ok (0, None), w') \<and> list_all reading es
     \<and> w_log w' = w_log w @ es @ [UpdateClusterStatus (successStatus t (w_rmq w)) resp]"
proof -
  from cli_idle [OF assms] obtain w1 es where cli: "runRabbitmqCLICommandsIfAnnotated R w = (Ok (0, None), w1)"
    and w1: "w_rmq w1 = w_rmq w" "w_log w1 = w_log w @ es" "list_all reading es"
    unfolding readsOnly_def by blast
  let ?c1 = "(w_rmq w)\<lparr>rc_Status := (rc_Status (w_rmq w))\<lparr>cst_ObservedGeneration := om_Generation (rc_Meta (w_rmq w))\<rparr>\<rparr>"
  from run_setReconcileSuccess [of R ConditionTrue "''Success''" "''Finish reconciling''" "w1\<lparr>w_rmq := ?c1\<rparr>"]
  obtain t resp c' where set: "setReconcileSuccess R ConditionTrue ''Success'' ''Finish reconciling'' (w1\<lparr>w_rmq := ?c1\<rparr>)
      = (Ok (), w1\<lparr>w_rmq := c', w_log := w_log w1 @ [Clock t, UpdateClusterStatus (successStatus t (w_rmq w)) resp]\<rparr>)"
    unfolding successStatus_def by auto
  with cli w1(1) have "finishReconcile R w = (Ok (0, None), w1\<lparr>w_rmq := c',
      w_log := w_log w1 @ [Clock t, UpdateClusterStatus (successStatus t (w_rmq w)) resp]\<rparr>)"
    by (simp add: finishReconcile_def bindM_def run_simps)
  with w1 show ?thesis
    by (intro exI [of _ "w1\<lparr>w_rmq := c', w_log := w_log w1 @ [Clock t, UpdateClusterStatus (successStatus t (w_rmq w)) resp]\<rparr>"]
        exI [of _ "es @ [Clock t]"] exI [of _ t] exI [of _ resp]) simp
qed

lemma settled_run:
  assumes own: "setsOwnerOnly (rec_env R)" and s: "settled R (w_rmq w) (w_log w) held sts"
  shows "\<exists>w' es t resp. reconcileChildren R w = (Ok (0, None), w') \<and> list_all reading es
     \<and> w_log w' = w_log w @ es @ [UpdateClusterStatus (successStatus t (w_rmq w)) resp]"
proof -
  from s have parts: "documented (rec_Client R)" "heldObjects R (w_rmq w) (w_log w) held" "matchingSts R (w_rmq w) (w_log w) sts"
    "nothingAsked R (w_rmq w) (w_log w) sts" "statusSettled (w_rmq w)" by (simp_all add: settled_def)
  from reconcileBuilders_unchanged [OF own parts(1-3) quiet_refl order_refl] obtain w1 where
    w1: "reconcileBuilders R (ResourceBuilders (w_rmq w)) w = (Ok None, w1)" and ro1: "readsOnly w w1" by blast
  from ro1 have c1: "w_rmq w1 = w_rmq w" by (simp add: readsOnly_def)
  from readsOnly_quiet [OF ro1] have q1: "quiet (w_log w) (w_log w1)" by simp
  from restart_unneeded [of R w1 "w_log w" sts] parts c1 q1 obtain w2 where
    w2: "restartStatefulSetIfNeeded R w1 = (Ok (0, None), w2)" and ro2: "readsOnly w1 w2" by auto
  from readsOnly_trans [OF ro1 ro2] obtain es where es: "w_rmq w2 = w_rmq w" "w_log w2 = w_log w @ es" "list_all reading es"
    unfolding readsOnly_def by blast
  with finish_idle [of R w2 "w_log w" sts] parts readsOnly_quiet [OF ro2 q1] obtain w' fs t resp where
    w': "finishReconcile R w2 = (Ok (0, None), w')" "list_all reading fs"
      "w_log w' = w_log w2 @ fs @ [UpdateClusterStatus (successStatus t (w_rmq w)) resp]" by auto
  have "checked 0 (reconcileStatus R) (\<lambda>_. finishReconcile R) w2 = (Ok (0, None), w')"
    using status_settled [of w2 R] parts(5) es(1) w'(1) by (simp add: checked_def tryM_def)
  then have "reconcileChildren R w = (Ok (0, None), w')"
    using w1 w2 by (simp add: reconcileChildren_def unlessRequeued_def bindM_def run_simps)
  with es w' show ?thesis
    by (intro exI [of _ w'] exI [of _ "es @ fs"] exI [of _ t] exI [of _ resp]) simp
qed

text \<open>
  C10. In the steady state a reconciliation comes to its end: when the server holds, as long as
  nothing is written, for every builder of a cluster, an object its update does not change, the StatefulSet is ready with the
  replicas and volumes asked for and no annotation asks for a restart or a command, then
  reconciling the child objects ends without an error and without a requeue. It has written
  nothing but one status, which reports success for the current generation.
\<close>

theorem steady_state:
  assumes "setsOwnerOnly (rec_env R)" and "settled R (w_rmq w) (w_log w) held sts"
  shows "\<exists>w' es t resp. reconcileChildren R w = (Ok (0, None), w') \<and> list_all reading es
     \<and> w_log w' = w_log w @ es @ [UpdateClusterStatus (successStatus t (w_rmq w)) resp]"
  using assms by (rule settled_run)

section \<open>A settled cluster\<close>

text \<open>What the server holds for the sample cluster: every object as its builder makes it, and ready.\<close>

fun ready :: "object \<Rightarrow> object" where
  "ready (OStatefulSet s) = OStatefulSet (s\<lparr>st_ReadyReplicas := 3\<rparr>)"
| "ready ob = ob"

definition stored :: "builder \<Rightarrow> object" where
  "stored b = (case obind (builder_Build sampleEnv sampleCluster b) (builder_Update sampleEnv sampleCluster b) of
     Ok ob \<Rightarrow> ready ob | _ \<Rightarrow> OService (HeadlessService_Build sampleCluster))"

definition settledSts :: statefulSet where
  "settledSts = (case stored StatefulSetBuilder of OStatefulSet s \<Rightarrow> s | _ \<Rightarrow> smallSts)"

definition plainConf :: configMap where
  "plainConf = PluginsConfigMap_Build sampleCluster"

definition settledApi :: api where
  "settledApi = withLibraries (sampleBase\<lparr>
     api_readObject := (\<lambda>i l. case List.find (\<lambda>b. targetId sampleCluster b = i) (ResourceBuilders sampleCluster) of
        None \<Rightarrow> absent i l | Some b \<Rightarrow> Inr (stored b)),
     api_getSts := (\<lambda>k l. Inr settledSts), api_getConfigMap := (\<lambda>k l. Inr plainConf)\<rparr>)"

lemma find_target:
  "b \<in> set bs \<Longrightarrow> List.find (\<lambda>b'. targetId c b' = targetId c b) bs = Some b"
  by (induction bs) (auto dest: targetId_inj)

lemma settledApi_answers:
  "b \<in> set (ResourceBuilders sampleCluster) \<Longrightarrow> api_readObject settledApi (targetId sampleCluster b) l = Inr (stored b)"
  "api_getSts settledApi k l = Inr settledSts" "api_getConfigMap settledApi k l = Inr plainConf"
  "api_getPVC settledApi k l = absent k l"
  by (simp_all add: settledApi_def withLibraries_def sampleBase_def find_target)

lemma sample_plain: "plainService sampleEnv sampleCluster" "plainSts sampleEnv sampleCluster"
  by (simp_all add: plainService_def plainSts_def sample_visits sampleCluster_def sampleSpec_def)

text \<open>An object a builder has updated is one its next update does not change.\<close>

lemma builder_fix:
  assumes "setsOwnerOnly E" and "plainService E c" and "plainSts E c" and "builder_Update E c b ob = Ok y"
  shows "builder_Update E c b y = Ok y"
  using assms(4)
  by (cases b)
     (auto dest: headless.upd_fix [OF assms(1) TrueI] clientService.upd_fix [OF assms(1,2)]
       erlangCookie.upd_fix [OF assms(1) TrueI] defaultUser.upd_fix [OF assms(1) TrueI]
       pluginsConfig.upd_fix [OF assms(1) TrueI] serverConfig.upd_fix [OF assms(1) TrueI]
       serviceAccount.upd_fix [OF assms(1) TrueI] role.upd_fix [OF assms(1) TrueI]
       roleBinding.upd_fix [OF assms(1) TrueI] statefulSet.upd_fix [OF assms(1,3)])

lemma sample_secret_built: "\<exists>s s'. DefaultUserSecret_Build sampleEnv sampleCluster = Ok s
    \<and> DefaultUserSecret_Update sampleEnv sampleCluster s = Ok s'"
proof -
  from sample_secret [of sampleCluster sampleCluster] obtain s where
    s: "DefaultUserSecret_Build sampleEnv sampleCluster = Ok s"
    and upd: "\<exists>s'. secretUpdates DefaultUserSecret_Update sampleEnv [sampleCluster, sampleCluster] s = Ok s'" by blast
  from upd have "\<exists>s'. DefaultUserSecret_Update sampleEnv sampleCluster s = Ok s'"
    by (cases "DefaultUserSecret_Update sampleEnv sampleCluster s") simp_all
  with s show ?thesis by blast
qed

lemma sample_conf_built: "\<exists>cm. ServerConfigMap_Update sampleEnv sampleCluster (ServerConfigMap_Build sampleCluster) = Ok cm"
proof -
  have ops: "runOps sampleEnv f ops = Ok (foldl applyOp f ops)" for f ops
    by (induction ops arbitrary: f) simp_all
  show ?thesis by (simp add: ServerConfigMap_Update_def operatorConf_def ops Let_def)
qed

lemma sample_built:
  "\<exists>ob y. builder_Build sampleEnv sampleCluster b = Ok ob \<and> builder_Update sampleEnv sampleCluster b ob = Ok y"
proof (cases b)
  case HeadlessServiceBuilder
  then show ?thesis by (simp add: HeadlessService_Update_def asService_def)
next
  case ServiceBuilder
  then show ?thesis by (simp add: Service_Update_plain [OF sample_plain(1)] asService_def)
next
  case ErlangCookieBuilder
  then show ?thesis by (simp add: ErlangCookie_Build_def ErlangCookie_Update_def sample_random asSecret_def)
next
  case DefaultUserSecretBuilder
  with sample_secret_built show ?thesis by (auto simp: asSecret_def)
next
  case RabbitmqPluginsConfigMapBuilder
  then show ?thesis by (simp add: PluginsConfigMap_Update_def asConfigMap_def)
next
  case ServerConfigMapBuilder
  with sample_conf_built show ?thesis by (auto simp: asConfigMap_def)
next
  case ServiceAccountBuilder
  then show ?thesis by (simp add: ServiceAccount_Update_def asServiceAccount_def)
next
  case RoleBuilder
  then show ?thesis by (simp add: Role_Update_def asRole_def)
next
  case RoleBindingBuilder
  then show ?thesis by (simp add: RoleBinding_Update_def asRoleBinding_def)
next
  case StatefulSetBuilder
  with sample_statefulSet show ?thesis by (auto simp: asStatefulSet_def)
qed


text \<open>An update neither reads nor writes the status of a StatefulSet.\<close>

lemma update_ready:
  assumes "plainSts E c" and "StatefulSet_Update E c s = Ok s'"
  shows "StatefulSet_Update E c (s\<lparr>st_ReadyReplicas := n\<rparr>) = Ok (s'\<lparr>st_ReadyReplicas := n\<rparr>)"
proof -
  let ?upd = "\<lambda>s m claims pt. s\<lparr>st_Meta := m, st_Replicas := spec_Replicas (rc_Spec c), st_VolumeClaimTemplates := claims,
      st_UpdateStrategy := \<lparr>us_Type = ''RollingUpdate'', us_Partition = Some 0\<rparr>, st_Template := pt\<rparr>"
  from assms obtain claims pt m where parts:
    "updatePersistenceStorageCapacity (st_VolumeClaimTemplates s) (pe_Storage (spec_Persistence (rc_Spec c))) = Ok claims"
    "podTemplateSpec c (om_Annotations (pt_Meta (st_Template s))) = Ok pt"
    "setOwner E c (overrideMeta (stsMetaOverride c) (inheritMeta c (st_Meta s))) = Ok m"
    and s': "s' = ?upd s m claims pt"
    unfolding StatefulSet_Update_plain [OF assms(1)] by blast
  have "s'\<lparr>st_ReadyReplicas := n\<rparr> = ?upd (s\<lparr>st_ReadyReplicas := n\<rparr>) m claims pt" unfolding s' by simp
  with parts show ?thesis
    unfolding StatefulSet_Update_plain [OF assms(1)]
    by (intro exI [of _ claims] exI [of _ pt] exI [of _ m] conjI) simp_all
qed

lemma ready_fix:
  assumes "builder_Update sampleEnv sampleCluster b y = Ok y"
  shows "builder_Update sampleEnv sampleCluster b (ready y) = Ok (ready y)"
proof (cases y)
  case (OStatefulSet s)
  with assms have b: "b = StatefulSetBuilder" by (cases b) auto
  with assms OStatefulSet have "StatefulSet_Update sampleEnv sampleCluster s = Ok s" by simp
  from update_ready [OF sample_plain(2) this] b OStatefulSet show ?thesis by simp
qed (use assms in simp_all)

lemma sample_held:
  assumes "\<And>b l. b \<in> set (ResourceBuilders sampleCluster) \<Longrightarrow> quiet l0 l
     \<Longrightarrow> api_readObject S (targetId sampleCluster b) l = Inr (stored b)"
  shows "heldObjects (sampleReconciler S) sampleCluster l0 stored"
proof -
  have "(\<exists>ob. builder_Build sampleEnv sampleCluster b = Ok ob)
      \<and> builder_Update sampleEnv sampleCluster b (stored b) = Ok (stored b)" for b
  proof -
    obtain ob y where ob: "builder_Build sampleEnv sampleCluster b = Ok ob" and y: "builder_Update sampleEnv sampleCluster b ob = Ok y"
      using sample_built by blast
    from ready_fix [OF builder_fix [OF sampleEnv_owner sample_plain y]] ob y
    show ?thesis by (simp add: stored_def)
  qed
  then show ?thesis unfolding heldObjects_def by (simp add: assms)
qed

lemma Build_status:
  "StatefulSet_Build sampleEnv sampleCluster = Ok s \<Longrightarrow> st_CurrentRevision s = st_UpdateRevision s"
  by (auto simp: StatefulSet_Build_def sampleCluster_def sampleSpec_def Let_def)

lemma sample_matching:
  assumes "\<And>l. quiet l0 l \<Longrightarrow> api_getSts S (stsKey sampleCluster) l = Inr settledSts" and "\<And>d. volumesFit S l0 d"
  shows "matchingSts (sampleReconciler S) sampleCluster l0 settledSts"
proof -
  obtain s s' where s: "StatefulSet_Build sampleEnv sampleCluster = Ok s"
    and s': "StatefulSet_Update sampleEnv sampleCluster s = Ok s'" using sample_statefulSet by blast
  have settled: "settledSts = s'\<lparr>st_ReadyReplicas := 3\<rparr>"
    using s s' by (simp add: settledSts_def stored_def asStatefulSet_def)
  from s' have fields: "st_Replicas s' = Some 3" "st_CurrentRevision s' = st_CurrentRevision s" "st_UpdateRevision s' = st_UpdateRevision s"
    unfolding StatefulSet_Update_plain [OF sample_plain(2)] by (auto simp: sampleCluster_def sampleSpec_def)
  have "\<exists>new desired. builder_Build sampleEnv sampleCluster StatefulSetBuilder = Ok new
     \<and> builder_Update sampleEnv sampleCluster StatefulSetBuilder new = Ok (OStatefulSet desired)
     \<and> st_Replicas desired = st_Replicas settledSts
     \<and> capacityLoop (st_VolumeClaimTemplates desired) = capacityLoop (st_VolumeClaimTemplates settledSts)"
    by (intro exI [of _ "OStatefulSet s"] exI [of _ s']) (simp add: s s' settled asStatefulSet_def)
  moreover have "allReplicasReadyAndUpdated settledSts = Ok True"
    using Build_status [OF s] by (simp add: settled fields allReplicasReadyAndUpdated_def statefulSetBeingUpdated_def)
  ultimately show ?thesis using assms by (simp add: matchingSts_def)
qed

lemma sample_nothingAsked:
  assumes "\<And>name l. name \<in> {''rmq-server-conf'', ''rmq-plugins-conf''} \<Longrightarrow> quiet l0 l
     \<Longrightarrow> \<exists>cm. api_getConfigMap S (''ns'', name) l = Inr cm \<and> (\<forall>k. mget (om_Annotations (cm_Meta cm)) k = None)"
  shows "nothingAsked (sampleReconciler S) sampleCluster l0 settledSts"
proof -
  obtain s s' where s: "StatefulSet_Build sampleEnv sampleCluster = Ok s"
    and s': "StatefulSet_Update sampleEnv sampleCluster s = Ok s'" using sample_statefulSet by blast
  have settled: "settledSts = s'\<lparr>st_ReadyReplicas := 3\<rparr>"
    using s s' by (simp add: settledSts_def stored_def asStatefulSet_def)
  have "om_Annotations (st_Meta s) = None"
    using s by (auto simp: StatefulSet_Build_def namedMeta_def emptyMeta_def sampleCluster_def sampleSpec_def Let_def)
  moreover have "om_Annotations (st_Meta settledSts) = ReconcileAndFilterAnnotations (om_Annotations (st_Meta s)) [om_Annotations (rc_Meta sampleCluster)]"
    using s' unfolding StatefulSet_Update_plain [OF sample_plain(2)] settled
    by (auto simp: overrideMeta_def inheritMeta_def sampleCluster_def sampleSpec_def)
  ultimately have "mget (om_Annotations (st_Meta settledSts)) k = None" for k
    using filtered.merge_one [of None None k] by (simp add: sampleCluster_def emptyMeta_def)
  then have "\<not> pending (st_Meta settledSts) stsCreateAnnotation" "\<not> pending (rc_Meta sampleCluster) queueRebalanceAnnotation"
    by (simp_all add: pending_def mindex_def sampleCluster_def emptyMeta_def)
  moreover have "\<exists>cm. api_getConfigMap S (rc_Namespace sampleCluster, name) l = Inr cm
      \<and> \<not> needsRestart cm settledSts \<and> mget (om_Annotations (cm_Meta cm)) pluginsUpdateAnnotation = None"
    if "name \<in> {ChildResourceName sampleCluster ServerConfigMapName, ChildResourceName sampleCluster PluginsConfigName}"
      and "quiet l0 l" for name l
  proof -
    have "name \<in> {''rmq-server-conf'', ''rmq-plugins-conf''}"
      using that(1) by (simp add: child_names ServerConfigMapName_def PluginsConfigName_def)
    from assms [OF this that(2)] show ?thesis by (auto simp: needsRestart_def)
  qed
  ultimately show ?thesis by (simp add: nothingAsked_def)
qed

lemma sample_status: "statusSettled sampleCluster"
  by (simp add: statusSettled_def defaultUserStatusOf_def bindingOf_def child_names DefaultUserSecretName_def)
     (simp add: sampleCluster_def)

lemma sample_settled: "settled (sampleReconciler settledApi) sampleCluster l0 stored settledSts"
proof -
  have "documented settledApi" unfolding settledApi_def by (rule documented_withLibraries)
  moreover have "volumesFit settledApi l0 d" for d
    by (simp add: volumesFit_def settledApi_answers absent_def)
  moreover have "mget (om_Annotations (cm_Meta plainConf)) k = None" for k
    using filtered.merge_one [of None None k]
    by (simp add: plainConf_def PluginsConfigMap_Build_def namedMeta_def sampleCluster_def emptyMeta_def)
  ultimately show ?thesis
    using sample_held [of l0 settledApi] sample_matching [of l0 settledApi] sample_nothingAsked [of l0 settledApi]
      sample_status by (simp add: settled_def settledApi_answers)
qed

theorem steady_state_witness:
  "\<exists>w' es t resp. reconcileChildren (sampleReconciler settledApi) sampleWorld = (Ok (0, None), w')
     \<and> list_all reading es \<and> w_log w' = es @ [UpdateClusterStatus (successStatus t sampleCluster) resp]"
  using steady_state [of "sampleReconciler settledApi" sampleWorld stored settledSts] sample_settled sampleEnv_owner
  by simp

lemma stored_id: "objectId (stored b) = targetId sampleCluster b"
proof -
  have ready: "objectId (ready y) = objectId y" for y by (cases y) (simp_all add: objectId_def)
  obtain ob y where ob: "builder_Build sampleEnv sampleCluster b = Ok ob" and y: "builder_Update sampleEnv sampleCluster b ob = Ok y"
    using sample_built by blast
  from build_id [OF ob] update_id [OF sampleEnv_owner y] show ?thesis by (simp add: stored_def ob y ready)
qed

lemma settled_names: "namesKept settledApi"
proof -
  have "objectId x = i" if read: "api_readObject settledApi i l = Inr x" for i l x
  proof (cases "List.find (\<lambda>b. targetId sampleCluster b = i) (ResourceBuilders sampleCluster)")
    case None
    with read show ?thesis by (simp add: settledApi_def withLibraries_def absent_def)
  next
    case (Some b)
    with read have "x = stored b" by (simp add: settledApi_def withLibraries_def)
    with Some stored_id show ?thesis by (auto simp: find_Some_iff)
  qed
  moreover have "objectId x = objectId ob" if "api_createObject settledApi ob l = Inr x \<or> api_updateObject settledApi ob l = Inr x" for ob l x
    using that by (simp add: settledApi_def withLibraries_def sampleBase_def)
  ultimately show ?thesis unfolding namesKept_def by blast
qed

theorem success_means_applied_witness:
  "\<exists>w' es k sts fs. reconcileChildren (sampleReconciler settledApi) sampleWorld = (Ok (0, None), w')
     \<and> reportsSuccess (es @ GetSts k (Inr sts) # fs) (w_log w')
     \<and> list_all (applied (sampleReconciler settledApi) sampleCluster es) (ResourceBuilders sampleCluster)"
proof -
  have docs: "documented settledApi" unfolding settledApi_def by (rule documented_withLibraries)
  from settled_run [of "sampleReconciler settledApi" sampleWorld stored settledSts] sample_settled sampleEnv_owner
  obtain w' es t resp where run: "reconcileChildren (sampleReconciler settledApi) sampleWorld = (Ok (0, None), w')"
    and es: "list_all reading es" "w_log w' = es @ [UpdateClusterStatus (successStatus t sampleCluster) resp]" by auto
  have "\<not> refusedScaleDown sampleCluster (w_log w')"
  proof
    assume "refusedScaleDown sampleCluster (w_log w')"
    with es show False by (auto simp: refusedScaleDown_def reading_def)
  qed
  with success_means_applied [OF _ _ _ run] docs settled_names sampleEnv_owner
  have "\<exists>es k sts fs gs. w_log w' = gs \<and> reportsSuccess (es @ GetSts k (Inr sts) # fs) gs
        \<and> list_all (applied (sampleReconciler settledApi) sampleCluster es) (ResourceBuilders sampleCluster)
        \<and> allReplicasReadyAndUpdated sts = Ok True" by simp
  with run show ?thesis by blast
qed

end
