(* ===== verification/Reconcile_Store.thy ===== *)
theory Reconcile_Store
  imports Reconcile_Settled
begin

text \<open>
  The API server as a store of objects: a server that keeps what it accepts and reads it back,
  the effect of each call on the store, programs that change the store once or not at all, and
  objects that stay as their builder wants them when the operator annotates them.
\<close>

section \<open>The store\<close>

type_synonym objectStore = "kind \<times> nskey \<Rightarrow> object option"

definition afterEvent :: "event \<Rightarrow> objectStore \<Rightarrow> objectStore" where
  "afterEvent e s = (case e of
      CreateObject ob (Inr x) \<Rightarrow> s(objectId ob \<mapsto> x)
    | UpdateObject ob (Inr x) \<Rightarrow> s(objectId ob \<mapsto> x)
    | UpdateSts sts (Inr x) \<Rightarrow> s((KStatefulSet, metaKey (st_Meta sts)) \<mapsto> OStatefulSet x)
    | UpdateConfigMap cm (Inr x) \<Rightarrow> s((KConfigMap, metaKey (cm_Meta cm)) \<mapsto> OConfigMap x)
    | DeleteSts k opts (Inr u) \<Rightarrow> s((KStatefulSet, k) := None)
    | _ \<Rightarrow> s)"

definition heldAfter :: "objectStore \<Rightarrow> event list \<Rightarrow> objectStore" where
  "heldAfter s l = foldl (\<lambda>s e. afterEvent e s) s l"

lemma heldAfter_simps [simp]:
  "heldAfter s [] = s" "heldAfter s (l @ l') = heldAfter (heldAfter s l) l'"
  "heldAfter s (e # l) = heldAfter (afterEvent e s) l"
  by (simp_all add: heldAfter_def)

lemma afterEvent_writes [simp]:
  "afterEvent (CreateObject ob (Inr x)) s = s(objectId ob \<mapsto> x)"
  "afterEvent (UpdateObject ob (Inr x)) s = s(objectId ob \<mapsto> x)"
  "afterEvent (UpdateSts sts (Inr y)) s = s((KStatefulSet, metaKey (st_Meta sts)) \<mapsto> OStatefulSet y)"
  "afterEvent (UpdateConfigMap cm (Inr z)) s = s((KConfigMap, metaKey (cm_Meta cm)) \<mapsto> OConfigMap z)"
  by (simp_all add: afterEvent_def)

lemma afterEvent_fails [simp]:
  "afterEvent (CreateObject ob (Inl q)) s = s" "afterEvent (UpdateObject ob (Inl q)) s = s"
  "afterEvent (UpdateSts sts (Inl q)) s = s" "afterEvent (UpdateConfigMap cm (Inl q)) s = s"
  by (simp_all add: afterEvent_def)

lemma afterEvent_refused:
  "\<forall>x. r \<noteq> Inr x \<Longrightarrow> afterEvent (UpdateSts sts r) s = s"
  "\<forall>x. q \<noteq> Inr x \<Longrightarrow> afterEvent (UpdateConfigMap cm q) s = s"
  by (cases r; simp) (cases q; simp)

lemma afterEvent_reads [simp]:
  "afterEvent (ReadObject i r1) s = s" "afterEvent (GetSts k r2) s = s" "afterEvent (GetConfigMap k r3) s = s"
  "afterEvent (GetPVC k r4) s = s" "afterEvent (Clock t) s = s" "afterEvent (Sleep d) s = s"
  "afterEvent (Recorded ty q m) s = s" "afterEvent (UpdatePVC ns p r5) s = s"
  by (simp_all add: afterEvent_def)

lemma heldAfter_reading: "list_all reading es \<Longrightarrow> heldAfter s es = s"
  by (induction es) (auto simp: reading_def split: event.splits)

text \<open>
  A server that is backed by a store. It may refuse any call, but what it reads is what the
  store holds, and what it accepts it stores as sent, under its own kind and name. A deletion
  shows at the next read.
\<close>

definition readsStore :: "api \<Rightarrow> objectStore \<Rightarrow> bool" where
  "readsStore S s0 \<longleftrightarrow> (\<forall>l.
     (\<forall>i x. api_readObject S i l = Inr x \<longrightarrow> heldAfter s0 l i = Some x)
   \<and> (\<forall>k x. api_getSts S k l = Inr x \<longrightarrow> heldAfter s0 l (KStatefulSet, k) = Some (OStatefulSet x))
   \<and> (\<forall>k x. api_getConfigMap S k l = Inr x \<longrightarrow> heldAfter s0 l (KConfigMap, k) = Some (OConfigMap x)))"

definition storesAsSent :: "api \<Rightarrow> bool" where
  "storesAsSent S \<longleftrightarrow> (\<forall>l.
     (\<forall>ob x. api_createObject S ob l = Inr x \<longrightarrow> x = ob) \<and> (\<forall>ob x. api_updateObject S ob l = Inr x \<longrightarrow> x = ob)
   \<and> (\<forall>s x. api_updateSts S s l = Inr x \<longrightarrow> x = s) \<and> (\<forall>c x. api_updateConfigMap S c l = Inr x \<longrightarrow> x = c))"

definition storeBacked :: "api \<Rightarrow> objectStore \<Rightarrow> bool" where
  "storeBacked S s0 \<longleftrightarrow> documented S \<and> readsStore S s0 \<and> storesAsSent S \<and> namesKept S"

lemma storeBackedD:
  assumes "storeBacked S s0"
  shows "api_readObject S i l = Inr x \<Longrightarrow> heldAfter s0 l i = Some x"
    and "api_getSts S k l = Inr sts \<Longrightarrow> heldAfter s0 l (KStatefulSet, k) = Some (OStatefulSet sts)"
    and "api_getConfigMap S k l = Inr cm \<Longrightarrow> heldAfter s0 l (KConfigMap, k) = Some (OConfigMap cm)"
    and "api_createObject S ob l = Inr x \<Longrightarrow> x = ob" and "api_updateObject S ob l = Inr x \<Longrightarrow> x = ob"
    and "api_updateSts S sts l = Inr sts' \<Longrightarrow> sts' = sts" and "api_updateConfigMap S cm l = Inr cm' \<Longrightarrow> cm' = cm"
  using assms unfolding storeBacked_def readsStore_def storesAsSent_def by blast+

section \<open>Programs that commit to the store or leave it\<close>

text \<open>
  Started with \<open>Q\<close>, the program keeps \<open>Q\<close>; when it succeeds it changes the store by \<open>T\<close>,
  and when it fails it leaves the store alone.
\<close>

definition commits :: "objectStore \<Rightarrow> (world \<Rightarrow> bool) \<Rightarrow> (objectStore \<Rightarrow> objectStore \<Rightarrow> bool) \<Rightarrow> unit prog \<Rightarrow> bool" where
  "commits s0 Q T g \<longleftrightarrow> (\<forall>w r w'. Q w \<longrightarrow> g w = (r, w') \<longrightarrow> Q w'
     \<and> (if r = Ok () then T (heldAfter s0 (w_log w)) (heldAfter s0 (w_log w'))
        else heldAfter s0 (w_log w') = heldAfter s0 (w_log w)))"

lemma commitsD:
  assumes "commits s0 Q T g" and "Q w" and "g w = (r, w')"
  shows "Q w'" and "r = Ok () \<Longrightarrow> T (heldAfter s0 (w_log w)) (heldAfter s0 (w_log w'))"
    and "r \<noteq> Ok () \<Longrightarrow> heldAfter s0 (w_log w') = heldAfter s0 (w_log w)"
  using assms unfolding commits_def by (metis (full_types))+

text \<open>Retrying a program that commits commits once.\<close>

lemma commits_attempts: "commits s0 Q T g \<Longrightarrow> commits s0 Q T (attempts n P g)"
proof (induction n)
  case (Suc n)
  note IH = Suc.IH [OF Suc.prems] and once = commitsD [OF Suc.prems]
  show ?case unfolding commits_def
  proof (intro allI impI)
    fix w r w'
    assume Q: "Q w" and "attempts (Suc n) P g w = (r, w')"
    then have "tryM g (case_sum (\<lambda>e. if P e then attempts n P g else throw e) ret) w = (r, w')" by simp
    then show "Q w' \<and> (if r = Ok () then T (heldAfter s0 (w_log w)) (heldAfter s0 (w_log w'))
        else heldAfter s0 (w_log w') = heldAfter s0 (w_log w))"
    proof (cases rule: try_cases)
      case (val a w1)
      with once [OF Q val(1)] show ?thesis by (simp add: run_simps)
    next
      case (err e w1)
      from once(1,3) [OF Q err(1)] have w1: "Q w1" "heldAfter s0 (w_log w1) = heldAfter s0 (w_log w)" by simp_all
      show ?thesis
      proof (cases "P e")
        case True
        with err(2) have "attempts n P g w1 = (r, w')" by simp
        with commitsD [OF IH w1(1) this] w1(2) show ?thesis by simp
      next
        case False
        with err(2) w1 show ?thesis by (auto simp: run_simps)
      qed
    next
      case (pan p)
      with once [OF Q pan(1)] show ?thesis by simp
    qed
  qed
qed simp

lemma commits_onError: "documented S \<Longrightarrow> commits s0 Q T g \<Longrightarrow> commits s0 Q T (lib_onError S P g)"
  using documentedD(5) [of S P g] commits_attempts [of s0 Q T g] by auto

text \<open>\<open>CreateOrUpdate\<close> stores an object of its own update.\<close>

definition stores :: "kind \<times> nskey \<Rightarrow> (object \<Rightarrow> bool) \<Rightarrow> objectStore \<Rightarrow> objectStore \<Rightarrow> bool" where
  "stores i G s s' \<longleftrightarrow> (\<exists>y. G y \<and> objectId y = i \<and> s' = s(i \<mapsto> y))"

definition workingOn :: "rabbitmqCluster \<Rightarrow> kind \<times> nskey \<Rightarrow> world \<Rightarrow> bool" where
  "workingOn c i w \<longleftrightarrow> w_rmq w = c \<and> objectId (w_resource w) = i"

definition fixedBy :: "(object \<Rightarrow> object outcome) \<Rightarrow> object \<Rightarrow> bool" where
  "fixedBy f y \<longleftrightarrow> f y = Ok y"

lemma createOrUpdate_commits:
  assumes S: "storeBacked S s0" and keep: "keepsId f" and fixed: "\<And>x y. f x = Ok y \<Longrightarrow> f y = Ok y"
  shows "commits s0 (workingOn c i) (stores i (fixedBy f)) (lib_createOrUpdate S f)"
  unfolding commits_def
proof (intro allI impI)
  fix w r w'
  assume "workingOn c i w" and run: "lib_createOrUpdate S f w = (r, w')"
  then have c: "w_rmq w = c" and i: "objectId (w_resource w) = i" by (simp_all add: workingOn_def)
  from S have docs: "documented S" and names: "namesKept S" by (simp_all add: storeBacked_def)
  note paths = createOrUpdate_paths [where f = f, OF docs i refl refl] and stored = storeBackedD [OF S]
  from createOrUpdate_run [of S f, OF docs names keep run i] c i have frame: "workingOn c i w'"
    by (auto simp: worksOn_def workingOn_def)
  let ?q = "api_readObject S i (w_log w)"
  let ?w = "w\<lparr>w_operationResult := OperationResultNone, w_log := w_log w @ [ReadObject i ?q]\<rparr>"
  let ?s = "heldAfter s0 (w_log w)" and ?s' = "heldAfter s0 (w_log w')"
  have "if r = Ok () then stores i (fixedBy f) ?s ?s' else ?s' = ?s"
  proof (cases ?q)
    case (Inr found)
    then have held: "?s i = Some found" by (rule stored(1))
    let ?v = "?w\<lparr>w_resource := found\<rparr>"
    note step = run [unfolded paths(1) [OF Inr refl], symmetric]
    show ?thesis
    proof (cases "f found")
      case (Ok y)
      have id: "objectId y = i" using keep Ok Inr names unfolding keepsId_def namesKept_def by metis
      note fy = fixed [OF Ok]
      show ?thesis
      proof (cases "y = found")
        case True
        with step Ok held have "r = Ok ()" "?s' = ?s(i \<mapsto> y)" by (auto simp: fun_eq_iff)
        with id fy show ?thesis unfolding stores_def fixedBy_def by auto
      next
        case False
        show ?thesis
        proof (cases "api_updateObject S y (w_log ?v)")
          case (Inl q)
          with step Ok False show ?thesis by simp
        next
          case u: (Inr z)
          from stored(5) [OF u] step Ok False u id have "r = Ok ()" "?s' = ?s(i \<mapsto> y)" by simp_all
          with id fy show ?thesis unfolding stores_def fixedBy_def by auto
        qed
      qed
    qed (use step in simp_all)
  next
    case (Inl q)
    obtain a m where q: "q = (a, m)" by (cases q)
    show ?thesis
    proof (cases "a = ReasonNotFound")
      case False
      with run paths(3) Inl q have "w' = ?w" "r \<noteq> Ok ()" by auto
      then show ?thesis by simp
    next
      case True
      with Inl q have "?q = Inl (ReasonNotFound, m)" by simp
      note step = run [unfolded paths(2) [OF this], symmetric]
      show ?thesis
      proof (cases "f (w_resource w)")
        case (Ok y)
        with keep i have id: "objectId y = i" by (simp add: keepsId_def)
        show ?thesis
        proof (cases "api_createObject S y (w_log ?w)")
          case (Inl q)
          with step Ok show ?thesis by simp
        next
          case u: (Inr z)
          from stored(4) [OF u] step Ok u id have "r = Ok ()" "?s' = ?s(i \<mapsto> y)" by simp_all
          with id fixed [OF Ok] show ?thesis unfolding stores_def fixedBy_def by auto
        qed
      qed (use step in simp_all)
    qed
  qed
  with frame show "workingOn c i w' \<and> (if r = Ok () then stores i (fixedBy f) ?s ?s' else ?s' = ?s)" by simp
qed

section \<open>Annotated objects\<close>

text \<open>\<^verbatim>\<open>SetControllerReference\<close> does not look at the annotations.\<close>

definition ignoresAnnotations :: "env \<Rightarrow> bool" where
  "ignoresAnnotations E \<longleftrightarrow> (\<forall>c m m' a. env_setControllerReference E c m = Inr m' \<longrightarrow>
     env_setControllerReference E c (m\<lparr>om_Annotations := a\<rparr>) = Inr (m'\<lparr>om_Annotations := a\<rparr>))"

text \<open>No annotation of the user has the key the operator stamps the StatefulSet with.\<close>

definition unstamped :: "rabbitmqCluster \<Rightarrow> bool" where
  "unstamped c \<longleftrightarrow> mget (om_Annotations (rc_Meta c)) stsCreateAnnotation = None
     \<and> (case stsMetaOverride c of None \<Rightarrow> True | Some el \<Rightarrow> mget (el_Annotations el) stsCreateAnnotation = None)"

lemma annotated_key [simp]: "metaKey (annotated k v m) = metaKey m"
  by (simp add: annotated_def metaKey_def)

lemma setOwner_annotated:
  assumes "ignoresAnnotations E" and "setOwner E c m = Ok m"
  shows "setOwner E c (annotated k v m) = Ok (annotated k v m)"
proof -
  from assms(2) have "env_setControllerReference E c m = Inr m" by (simp add: setOwner_def)
  with assms(1) have "env_setControllerReference E c (annotated k v m)
      = Inr (m\<lparr>om_Annotations := om_Annotations (annotated k v m)\<rparr>)"
    unfolding ignoresAnnotations_def annotated_def by simp
  then show ?thesis by (simp add: setOwner_def annotated_def)
qed

lemma plugins_annotated:
  assumes "ignoresAnnotations E" and "PluginsConfigMap_Update E c cm = Ok cm"
  shows "PluginsConfigMap_Update E c (cm\<lparr>cm_Meta := annotated k v (cm_Meta cm)\<rparr>)
    = Ok (cm\<lparr>cm_Meta := annotated k v (cm_Meta cm)\<rparr>)"
proof -
  from assms(2) obtain m where m: "setOwner E c (cm_Meta cm) = Ok m" and cm: "putPlugins c m cm = cm"
    by (auto simp: PluginsConfigMap_Update_def)
  from arg_cong [OF cm, of cm_Meta] arg_cong [OF cm, of cm_Data] have same: "m = cm_Meta cm"
    "cm_Data cm = mput (mmake (cm_Data cm)) ''enabled_plugins''
      (desiredPluginsAsString (cf_AdditionalPlugins (spec_Rabbitmq (rc_Spec c))))"
    by (simp_all add: putPlugins_def)
  from setOwner_annotated [OF assms(1)] m same(1) show ?thesis
    by (simp add: PluginsConfigMap_Update_def putPlugins_def same(2) [symmetric])
qed

lemma serverConf_annotated:
  assumes "ignoresAnnotations E" and "ServerConfigMap_Update E c cm = Ok cm"
  shows "ServerConfigMap_Update E c (cm\<lparr>cm_Meta := annotated k v (cm_Meta cm)\<rparr>)
    = Ok (cm\<lparr>cm_Meta := annotated k v (cm_Meta cm)\<rparr>)"
proof -
  from assms(2) obtain t u m where parts: "obind (operatorConf E c) (\<lambda>f. lift (env_iniWrite E f)) = Ok t"
      "obind (runOps E IniEmpty (userConfigOps c)) (\<lambda>f. iniStep E (IniAppend f
              (cf_AdditionalConfig (spec_Rabbitmq (rc_Spec c))))) = Ok (userConf c)"
      "env_iniWrite E (userConf c) = Inr u"
    and m: "setOwner E c (cm_Meta cm) = Ok m"
    and cm: "cm = cm\<lparr>cm_Meta := m, cm_Data := configData c t u (cm_Data cm)\<rparr>"
    unfolding ServerConfigMap_Update_Ok by blast
  from arg_cong [OF cm, of cm_Meta] arg_cong [OF cm, of cm_Data]
  have same: "m = cm_Meta cm" "configData c t u (cm_Data cm) = cm_Data cm" by simp_all
  with m have "setOwner E c (annotated k v (cm_Meta cm)) = Ok (annotated k v (cm_Meta cm))"
    by (intro setOwner_annotated [OF assms(1)]) simp
  with parts same(2) show ?thesis
    unfolding ServerConfigMap_Update_Ok
    by (intro exI [of _ t] exI [of _ u] exI [of _ "annotated k v (cm_Meta cm)"] conjI) simp_all
qed

text \<open>A key that no overlay has stays as it is when the metadata is merged again.\<close>

lemma inherit_override_annotated:
  assumes "overrideMeta el (inheritMeta c m) = m" and "mget (om_Annotations (rc_Meta c)) k = None"
    and "case el of None \<Rightarrow> True | Some e \<Rightarrow> mget (el_Annotations e) k = None"
  shows "overrideMeta el (inheritMeta c (annotated k v m)) = annotated k v m"
proof -
  let ?put = "\<lambda>a. mput (mmake a) k v" and ?ann = "\<lambda>a. om_Annotations (overrideMeta el (inheritMeta c (m\<lparr>om_Annotations := a\<rparr>)))"
  have get: "mget (?ann a) k' = (case (case el of None \<Rightarrow> None | Some e \<Rightarrow> mget (el_Annotations e) k') of
        Some x \<Rightarrow> Some x
      | None \<Rightarrow> if isNotKubernetesAnnotation k' \<and> mget (om_Annotations (rc_Meta c)) k' \<noteq> None
          then mget (om_Annotations (rc_Meta c)) k' else mget a k')" for a k'
    by (auto simp: overrideMeta_def inheritMeta_def copyLabelsAnnotations_def Let_def mergeMap_def filtered.merge_one
        split: option.split)
  have "m\<lparr>om_Annotations := om_Annotations m\<rparr> = m" by simp
  with assms(1) have old: "?ann (om_Annotations m) = om_Annotations m" by metis
  have "?ann (?put (om_Annotations m)) = ?put (om_Annotations m)"
  proof (rule gomap_eqI)
    fix k'
    have "mget (?put (om_Annotations m)) k' = (if k' = k then Some v else mget (om_Annotations m) k')"
      by (simp add: mget_mput)
    with get [of "om_Annotations m" k', unfolded old] get [of "?put (om_Annotations m)" k'] assms(2,3)
    show "mget (?ann (?put (om_Annotations m))) k' = mget (?put (om_Annotations m)) k'"
      by (auto split: option.splits if_splits)
  next
    show "?ann (?put (om_Annotations m)) \<noteq> None"
      by (simp add: overrideMeta_def inheritMeta_def copyLabelsAnnotations_def Let_def mergeMap_def
          ReconcileAndFilterAnnotations_def split: option.split)
    show "?put (om_Annotations m) \<noteq> None" by (cases "om_Annotations m") simp_all
  qed
  moreover have "(overrideMeta el (inheritMeta c (m\<lparr>om_Annotations := a\<rparr>)))\<lparr>om_Annotations := b\<rparr>
      = (overrideMeta el (inheritMeta c m))\<lparr>om_Annotations := b\<rparr>" for a b
    by (simp add: overrideMeta_def inheritMeta_def copyLabelsAnnotations_def Let_def split: option.split)
  ultimately show ?thesis using assms(1)
    unfolding annotated_def by (metis (no_types, lifting) objectMeta.surjective objectMeta.update_convs(6))
qed

lemma setOwner_same:
  assumes "setsOwnerOnly E" and "setOwner E c m' = Ok m" and "om_OwnerReferences m' = om_OwnerReferences m"
  shows "m' = m"
proof -
  from assms(1,2) have "m\<lparr>om_OwnerReferences := om_OwnerReferences m'\<rparr> = m'"
    by (auto simp: setsOwnerOnly_def setOwner_def)
  with assms(3) show ?thesis by simp
qed

lemma sts_annotated:
  assumes own: "setsOwnerOnly E" and "ignoresAnnotations E" and plain: "plainSts E c" and "unstamped c"
    and fixed: "StatefulSet_Update E c sts = Ok sts"
  shows "StatefulSet_Update E c (sts\<lparr>st_Meta := annotated stsCreateAnnotation v (st_Meta sts)\<rparr>)
    = Ok (sts\<lparr>st_Meta := annotated stsCreateAnnotation v (st_Meta sts)\<rparr>)"
proof -
  let ?inh = "\<lambda>m. overrideMeta (stsMetaOverride c) (inheritMeta c m)"
  from fixed obtain claims pt m where
    parts: "updatePersistenceStorageCapacity (st_VolumeClaimTemplates sts) (pe_Storage (spec_Persistence (rc_Spec c))) = Ok claims"
      "podTemplateSpec c (om_Annotations (pt_Meta (st_Template sts))) = Ok pt"
    and m: "setOwner E c (?inh (st_Meta sts)) = Ok m"
    and sts: "sts = sts\<lparr>st_Meta := m, st_Replicas := spec_Replicas (rc_Spec c), st_VolumeClaimTemplates := claims,
            st_UpdateStrategy := \<lparr>us_Type = ''RollingUpdate'', us_Partition = Some 0\<rparr>, st_Template := pt\<rparr>"
    unfolding StatefulSet_Update_plain [OF plain] by blast
  from arg_cong [OF sts, of st_Meta] have same: "st_Meta sts = m" by simp
  have "om_OwnerReferences (?inh m) = om_OwnerReferences m"
    by (simp add: overrideMeta_def inheritMeta_def copyLabelsAnnotations_def Let_def split: option.split)
  with setOwner_same [OF own m] same have inh: "?inh m = m" by simp
  with m same have "setOwner E c m = Ok m" by simp
  define x where "x = annotated stsCreateAnnotation v m"
  define sts' where "sts' = sts\<lparr>st_Meta := x\<rparr>"
  from \<open>setOwner E c m = Ok m\<close> have "setOwner E c x = Ok x"
    unfolding x_def by (rule setOwner_annotated [OF assms(2)])
  moreover have "?inh x = x"
    unfolding x_def using assms(4) by (intro inherit_override_annotated inh) (auto simp: unstamped_def)
  moreover have fields: "st_VolumeClaimTemplates sts' = st_VolumeClaimTemplates sts" "st_Template sts' = st_Template sts"
    "st_Meta sts' = x" by (simp_all add: sts'_def)
  ultimately have owner: "setOwner E c (?inh (st_Meta sts')) = Ok x" by simp
  let ?upd = "\<lambda>s y. s\<lparr>st_Meta := y, st_Replicas := spec_Replicas (rc_Spec c), st_VolumeClaimTemplates := claims,
      st_UpdateStrategy := \<lparr>us_Type = ''RollingUpdate'', us_Partition = Some 0\<rparr>, st_Template := pt\<rparr>"
  have "sts\<lparr>st_Meta := x\<rparr> = (?upd sts m)\<lparr>st_Meta := x\<rparr>" by (rule arg_cong [OF sts])
  also have "\<dots> = ?upd (sts\<lparr>st_Meta := x\<rparr>) x" by simp
  finally have "sts' = ?upd sts' x" unfolding sts'_def .
  then have "StatefulSet_Update E c sts' = Ok sts'"
    unfolding StatefulSet_Update_plain [OF plain] fields(1,2)
    by (intro exI conjI) (rule parts(1), rule parts(2), rule owner, assumption)
  then show ?thesis unfolding sts'_def x_def same .
qed

text \<open>
  What reading and writing an object through the client mean for the store; setting an
  annotation then replaces the stored object by the annotated one, or leaves the store alone.
\<close>

locale stored_object =
  fixes C :: "api \<Rightarrow> 'o clientObject" and kd :: kind and wrap :: "'o \<Rightarrow> object"
  assumes get_store: "storeBacked S s0 \<Longrightarrow> cl_get (C S) k w = (r, w') \<Longrightarrow> w_rmq w' = w_rmq w
      \<and> heldAfter s0 (w_log w') = heldAfter s0 (w_log w)
      \<and> (\<forall>ob. r = Ok ob \<longrightarrow> heldAfter s0 (w_log w) (kd, k) = Some (wrap ob))"
    and upd_store: "storeBacked S s0 \<Longrightarrow> cl_update (C S) ob w = (r, w') \<Longrightarrow> w_rmq w' = w_rmq w
      \<and> heldAfter s0 (w_log w') = (if \<exists>x. r = Ok x
          then (heldAfter s0 (w_log w))((kd, metaKey (cl_meta (C S) ob)) \<mapsto> wrap ob)
          else heldAfter s0 (w_log w))"
begin

definition stamps :: "api \<Rightarrow> nskey \<Rightarrow> string \<Rightarrow> string \<Rightarrow> objectStore \<Rightarrow> objectStore \<Rightarrow> bool" where
  "stamps S k key val s s' \<longleftrightarrow> (\<exists>ob ob'. s (kd, k) = Some (wrap ob)
     \<and> ob' = cl_setMeta (C S) ob (annotated key val (cl_meta (C S) ob))
     \<and> s' = s((kd, metaKey (cl_meta (C S) ob')) \<mapsto> wrap ob'))"

lemma updateAnnotation_commits:
  assumes S: "storeBacked S s0"
  shows "commits s0 (\<lambda>w. w_rmq w = c) (stamps S (ns, name) key val) (updateAnnotation S (C S) ns name key val)"
proof -
  have docs: "documented S" using S by (simp add: storeBacked_def)
  have "commits s0 (\<lambda>w. w_rmq w = c) (stamps S (ns, name) key val)
      (bindM (cl_get (C S) (ns, name)) (\<lambda>obj.
        bindM (cl_update (C S) (cl_setMeta (C S) obj (annotated key val (cl_meta (C S) obj)))) (\<lambda>_. ret ())))"
    unfolding commits_def
  proof (intro allI impI)
    fix w r w'
    assume c: "w_rmq w = c" and run: "bindM (cl_get (C S) (ns, name)) (\<lambda>obj.
        bindM (cl_update (C S) (cl_setMeta (C S) obj (annotated key val (cl_meta (C S) obj)))) (\<lambda>_. ret ())) w = (r, w')"
    from run show "w_rmq w' = c \<and> (if r = Ok () then stamps S (ns, name) key val (heldAfter s0 (w_log w)) (heldAfter s0 (w_log w'))
        else heldAfter s0 (w_log w') = heldAfter s0 (w_log w))"
    proof (cases rule: bind_cases)
      case (val ob w1)
      from get_store [OF S val(1)] c have g: "w_rmq w1 = c" "heldAfter s0 (w_log w1) = heldAfter s0 (w_log w)"
        "heldAfter s0 (w_log w) (kd, (ns, name)) = Some (wrap ob)" by simp_all
      let ?ob = "cl_setMeta (C S) ob (annotated key val (cl_meta (C S) ob))"
      from val(2) show ?thesis
      proof (cases rule: bind_cases)
        case (val x w2)
        with upd_store [OF S val(1)] g have "r = Ok ()" "w_rmq w' = c"
          "heldAfter s0 (w_log w') = (heldAfter s0 (w_log w))((kd, metaKey (cl_meta (C S) ?ob)) \<mapsto> wrap ?ob)"
          by (simp_all add: run_simps)
        with g(3) show ?thesis unfolding stamps_def by auto
      next
        case (err e)
        with upd_store [OF S err(1)] g show ?thesis by simp
      next
        case (pan p)
        with upd_store [OF S pan(1)] g show ?thesis by simp
      qed
    next
      case (err e)
      with get_store [OF S err(1)] c show ?thesis by simp
    next
      case (pan p)
      with get_store [OF S pan(1)] c show ?thesis by simp
    qed
  qed
  then show ?thesis unfolding updateAnnotation_def by (rule commits_onError [OF docs])
qed

lemma annotateWith_stamps:
  assumes S: "storeBacked (rec_Client R) s0"
    and run: "annotateWith R (C (rec_Client R)) name key w = (Ok (), w')"
  shows "\<exists>val. stamps (rec_Client R) (rc_Namespace (w_rmq w), name) key val
    (heldAfter s0 (w_log w)) (heldAfter s0 (w_log w'))"
proof -
  let ?t = "api_now (rec_Client R) (w_log w)"
  let ?w = "w\<lparr>w_log := w_log w @ [Clock ?t]\<rparr>" and ?ts = "lib_formatTime (rec_Client R) (api_now (rec_Client R) (w_log w))"
  let ?upd = "updateAnnotation (rec_Client R) (C (rec_Client R)) (rc_Namespace (w_rmq w)) name key ?ts"
  from run have "tryM ?upd (case_sum
       (\<lambda>err. bindM (record_event EventTypeWarning ''FailedUpdate'' (''failed to annotate '' @ name)) (\<lambda>_.
              throw err)) ret) ?w = (Ok (), w')"
    by (simp add: annotateWith_def timeStamp_def bindM_def run_simps)
  then have "?upd ?w = (Ok (), w')"
    by (cases rule: try_cases) (auto simp: run_simps bindM_def record_event_def)
  from commitsD(2) [OF updateAnnotation_commits [OF S, of "w_rmq w"] _ this] show ?thesis by auto
qed

lemma annotateWith_leaves:
  assumes S: "storeBacked (rec_Client R) s0"
    and run: "annotateWith R (C (rec_Client R)) name key w = (Err e, w')"
  shows "heldAfter s0 (w_log w') = heldAfter s0 (w_log w)"
proof -
  let ?t = "api_now (rec_Client R) (w_log w)"
  let ?w = "w\<lparr>w_log := w_log w @ [Clock ?t]\<rparr>" and ?ts = "lib_formatTime (rec_Client R) (api_now (rec_Client R) (w_log w))"
  let ?upd = "updateAnnotation (rec_Client R) (C (rec_Client R)) (rc_Namespace (w_rmq w)) name key ?ts"
  from run have "tryM ?upd (case_sum
       (\<lambda>err. bindM (record_event EventTypeWarning ''FailedUpdate'' (''failed to annotate '' @ name)) (\<lambda>_.
              throw err)) ret) ?w = (Err e, w')"
    by (simp add: annotateWith_def timeStamp_def bindM_def run_simps)
  then obtain e1 w1 ev where w1: "?upd ?w = (Err e1, w1)" and ev: "w_log w' = w_log w1 @ [Recorded EventTypeWarning ''FailedUpdate'' ev]"
    by (cases rule: try_cases) (auto simp: run_simps bindM_def record_event_def)
  from commitsD(3) [OF updateAnnotation_commits [OF S, of "w_rmq w"] _ w1] ev show ?thesis by simp
qed

end

interpretation storedConfigMap: stored_object cmObject KConfigMap OConfigMap
  by unfold_locales
     (auto simp: cmObject_def run_simps afterEvent_refused dest: storeBackedD(3,7))

interpretation storedSts: stored_object stsObject KStatefulSet OStatefulSet
  by unfold_locales
     (auto simp: stsObject_def run_simps afterEvent_refused dest: storeBackedD(2,6))

end
