(* ===== verification/Reconcile_Converge.thy ===== *)
theory Reconcile_Converge
  imports Reconcile_Store
begin

text \<open>
  What a pass over the builders leaves in the store, and why the next pass has nothing to do.
\<close>

section \<open>A pass over the builders\<close>

text \<open>
  Events that leave every object alone that is no StatefulSet. (The scaler deletes whatever
  StatefulSet the server has answered with.)
\<close>

definition sparesOthers :: "event \<Rightarrow> bool" where
  "sparesOthers e \<longleftrightarrow> (\<forall>s j. fst j \<noteq> KStatefulSet \<longrightarrow> afterEvent e s j = s j)"

lemma spares_simps [simp]:
  "sparesOthers (DeleteSts k opts r1)" "sparesOthers (GetSts k' r2)" "sparesOthers (GetPVC k' r3)"
  "sparesOthers (UpdatePVC ns p r4)" "sparesOthers (Sleep d)" "sparesOthers (Recorded ty q m)"
  by (auto simp: sparesOthers_def afterEvent_def split: sum.split)

lemma heldAfter_spared:
  "list_all sparesOthers es \<Longrightarrow> fst j \<noteq> KStatefulSet \<Longrightarrow> heldAfter s es j = s j"
proof (induction es arbitrary: s)
  case (Cons e es)
  then have "sparesOthers e" by simp
  with Cons.prems(2) have "afterEvent e s j = s j" unfolding sparesOthers_def by blast
  with Cons show ?case by simp
qed simp

lemma scaleVolumes_spares:
  assumes "scaleVolumes R sts w = (Ok None, w')" and "fst j \<noteq> KStatefulSet"
  shows "heldAfter s0 (w_log w') j = heldAfter s0 (w_log w) j"
  using assms(1) unfolding scaleVolumes_def
proof (cases rule: try_cases)
  case (val a w1)
  have "only sparesOthers (reconcilePVC R sts)"
    unfolding reconcilePVC_def Let_def by (intro only_intros; simp)
  with val(1) obtain es where "w_log w1 = w_log w @ es" "list_all sparesOthers es" by (blast dest: only_runD)
  with val(2) heldAfter_spared [OF _ assms(2)] show ?thesis by (simp add: run_simps)
qed (auto dest: setReconcileSuccess_Some)

text \<open>
  A pass of the StatefulSet that goes on has asked for the current one and has grown the volumes
  to those of the StatefulSet that was built, or to those of its update.
\<close>

lemma recreateSts_scales:
  assumes run: "recreateSts R b w = (Ok None, w')"
  shows "\<exists>sts v q. scaleVolumes R sts v = (Ok None, w') \<and> w_rmq v = w_rmq w
     \<and> w_log v = w_log w @ [GetSts (stsKey (w_rmq w)) q]
     \<and> (w_resource w = OStatefulSet sts \<or> builder_Update (rec_env R) (w_rmq w) b (w_resource w) = Ok (OStatefulSet sts))"
proof -
  let ?ob = "w_resource w" and ?f = "builder_Update (rec_env R) (w_rmq w) b"
  let ?q = "api_getSts (rec_Client R) (stsKey (w_rmq w)) (w_log w)"
  let ?w = "w\<lparr>w_log := w_log w @ [GetSts (stsKey (w_rmq w)) ?q]\<rparr>"
  obtain sts where sts: "?ob = OStatefulSet sts"
    using run by (cases ?ob) (auto simp: recreateSts_def asStatefulSet_def bindM_def run_simps)
  show ?thesis
  proof (cases ?q)
    case (Inl x)
    obtain q m where "x = (q, m)" by (cases x)
    with Inl run sts have "scaleVolumes R sts ?w = (Ok None, w')"
      by (auto simp: recreateSts_def asStatefulSet_def bindM_def tryM_def run_simps split: if_splits)
    with sts show ?thesis by (intro exI [of _ sts] exI [of _ ?w] exI [of _ ?q]) simp
  next
    case (Inr current)
    show ?thesis
    proof (cases "?f ?ob")
      case (Ok ob')
      let ?v = "?w\<lparr>w_resource := ob'\<rparr>"
      obtain sts' where sts': "ob' = OStatefulSet sts'" and check: "checkScaleDown R current sts' ?v = (Ok None, w')"
        using run sts Inr Ok
        by (cases ob') (auto simp: recreateSts_def checkScaleDown_def asStatefulSet_def bindM_def tryM_def run_simps)
      obtain m n where reps: "st_Replicas current = Some m" "st_Replicas sts' = Some n"
        using check unfolding checkScaleDown_def scaleDown_def
        by (cases "st_Replicas current"; cases "st_Replicas sts'") (auto simp: bindM_def run_simps)
      note down = run_scaleDown [OF reps]
      have "m \<le> n"
        using check down(2) [of R ?v] by (force simp: checkScaleDown_def bindM_def ret_def not_le)
      with check down(1) have "scaleVolumes R sts' ?v = (Ok None, w')"
        by (simp add: checkScaleDown_def bindM_def)
      with sts' Ok show ?thesis by (intro exI [of _ sts'] exI [of _ ?v] exI [of _ ?q]) simp
    qed (use run sts Inr in \<open>auto simp: recreateSts_def asStatefulSet_def bindM_def tryM_def run_simps\<close>)
  qed
qed

lemma recreateSts_spares:
  assumes run: "recreateSts R b w = (Ok None, w')" and j: "fst j \<noteq> KStatefulSet"
  shows "heldAfter s0 (w_log w') j = heldAfter s0 (w_log w) j"
proof -
  from recreateSts_scales [OF run] obtain sts v q where
    v: "scaleVolumes R sts v = (Ok None, w')" "w_log v = w_log w @ [GetSts (stsKey (w_rmq w)) q]" by blast
  from scaleVolumes_spares [OF v(1) j, of s0] v(2) show ?thesis by simp
qed

text \<open>What the pass of one builder does to the store.\<close>

definition storesFixed :: "reconciler \<Rightarrow> rabbitmqCluster \<Rightarrow> builder \<Rightarrow> objectStore \<Rightarrow> objectStore \<Rightarrow> bool" where
  "storesFixed R c b = stores (targetId c b) (fixedBy (builder_Update (rec_env R) c b))"

text \<open>What a pass relies on: the server, the libraries, and no user settings the builders fight with.\<close>

definition plainPass :: "reconciler \<Rightarrow> rabbitmqCluster \<Rightarrow> objectStore \<Rightarrow> bool" where
  "plainPass R c s0 \<longleftrightarrow> storeBacked (rec_Client R) s0 \<and> setsOwnerOnly (rec_env R)
     \<and> ignoresAnnotations (rec_env R) \<and> plainService (rec_env R) c \<and> plainSts (rec_env R) c \<and> unstamped c"

lemma annotated_fixed:
  assumes pass: "plainPass R c s0"
  shows "fixedBy (builder_Update (rec_env R) c RabbitmqPluginsConfigMapBuilder) (OConfigMap cm)
      \<Longrightarrow> fixedBy (builder_Update (rec_env R) c RabbitmqPluginsConfigMapBuilder)
        (OConfigMap (cm\<lparr>cm_Meta := annotated k v (cm_Meta cm)\<rparr>))"
    and "fixedBy (builder_Update (rec_env R) c ServerConfigMapBuilder) (OConfigMap cm)
      \<Longrightarrow> fixedBy (builder_Update (rec_env R) c ServerConfigMapBuilder)
        (OConfigMap (cm\<lparr>cm_Meta := annotated k v (cm_Meta cm)\<rparr>))"
    and "fixedBy (builder_Update (rec_env R) c StatefulSetBuilder) (OStatefulSet sts)
      \<Longrightarrow> fixedBy (builder_Update (rec_env R) c StatefulSetBuilder)
        (OStatefulSet (sts\<lparr>st_Meta := annotated stsCreateAnnotation v (st_Meta sts)\<rparr>))"
proof -
  from pass have E: "ignoresAnnotations (rec_env R)" "setsOwnerOnly (rec_env R)" "plainSts (rec_env R) c" "unstamped c"
    by (simp_all add: plainPass_def)
  show "fixedBy (builder_Update (rec_env R) c RabbitmqPluginsConfigMapBuilder) (OConfigMap cm)
      \<Longrightarrow> fixedBy (builder_Update (rec_env R) c RabbitmqPluginsConfigMapBuilder)
        (OConfigMap (cm\<lparr>cm_Meta := annotated k v (cm_Meta cm)\<rparr>))"
    using plugins_annotated [OF E(1)] by (simp add: fixedBy_def asConfigMap_def)
  show "fixedBy (builder_Update (rec_env R) c ServerConfigMapBuilder) (OConfigMap cm)
      \<Longrightarrow> fixedBy (builder_Update (rec_env R) c ServerConfigMapBuilder)
        (OConfigMap (cm\<lparr>cm_Meta := annotated k v (cm_Meta cm)\<rparr>))"
    using serverConf_annotated [OF E(1)] by (simp add: fixedBy_def asConfigMap_def)
  show "fixedBy (builder_Update (rec_env R) c StatefulSetBuilder) (OStatefulSet sts)
      \<Longrightarrow> fixedBy (builder_Update (rec_env R) c StatefulSetBuilder)
        (OStatefulSet (sts\<lparr>st_Meta := annotated stsCreateAnnotation v (st_Meta sts)\<rparr>))"
    using sts_annotated [OF E(2,1,3,4)] by (simp add: fixedBy_def asStatefulSet_def)
qed

lemma annotateIfNeeded_stores:
  assumes pass: "plainPass R c s0" and c: "w_rmq w = c"
    and held: "heldAfter s0 (w_log w) (targetId c b) = Some y"
    and y: "objectId y = targetId c b" "fixedBy (builder_Update (rec_env R) c b) y"
    and run: "annotateIfNeeded R b res w = (Ok (), w')"
  shows "storesFixed R c b (heldAfter s0 (w_log w)) (heldAfter s0 (w_log w'))"
proof -
  let ?s = "heldAfter s0 (w_log w)" and ?s' = "heldAfter s0 (w_log w')"
  from pass have S: "storeBacked (rec_Client R) s0" by (simp add: plainPass_def)
  have idle: "storesFixed R c b ?s ?s'" if "w' = w"
    using held y that unfolding storesFixed_def stores_def by (auto intro!: exI [of _ y])
  have conf: "storesFixed R c b ?s ?s'"
    if b: "targetId c b = (KConfigMap, (rc_Namespace c, name))"
      and run: "annotateWith R (cmObject (rec_Client R)) name key w = (Ok (), w')"
      and fixed: "\<And>cm k v. fixedBy (builder_Update (rec_env R) c b) (OConfigMap cm)
         \<Longrightarrow> fixedBy (builder_Update (rec_env R) c b) (OConfigMap (cm\<lparr>cm_Meta := annotated k v (cm_Meta cm)\<rparr>))" for name key
  proof -
    from storedConfigMap.annotateWith_stamps [OF S run] c obtain val cm where
      cm: "?s (KConfigMap, (rc_Namespace c, name)) = Some (OConfigMap cm)"
      and s': "?s' = ?s((KConfigMap, metaKey (cm_Meta cm)) \<mapsto> OConfigMap (cm\<lparr>cm_Meta := annotated key val (cm_Meta cm)\<rparr>))"
      by (auto simp: storedConfigMap.stamps_def cmObject_def)
    from cm held b have "y = OConfigMap cm" by simp
    with y b fixed s' show ?thesis unfolding storesFixed_def stores_def
      by (intro exI [of _ "OConfigMap (cm\<lparr>cm_Meta := annotated key val (cm_Meta cm)\<rparr>)"]) (auto simp: objectId_def)
  qed
  have sts: "storesFixed R c b ?s ?s'"
    if b: "b = StatefulSetBuilder"
      and run: "annotateWith R (stsObject (rec_Client R)) (ChildResourceName c ''server'') stsCreateAnnotation w = (Ok (), w')"
  proof -
    have tgt: "targetId c b = (KStatefulSet, (rc_Namespace c, ChildResourceName c ''server''))"
      using b by (simp add: targetId_def)
    from storedSts.annotateWith_stamps [OF S run] c obtain val x where
      x: "?s (KStatefulSet, (rc_Namespace c, ChildResourceName c ''server'')) = Some (OStatefulSet x)"
      and s': "?s' = ?s((KStatefulSet, metaKey (st_Meta x))
          \<mapsto> OStatefulSet (x\<lparr>st_Meta := annotated stsCreateAnnotation val (st_Meta x)\<rparr>))"
      by (auto simp: storedSts.stamps_def stsObject_def)
    from x held tgt have "y = OStatefulSet x" by simp
    with y tgt s' annotated_fixed(3) [OF pass] b show ?thesis unfolding storesFixed_def stores_def
      by (intro exI [of _ "OStatefulSet (x\<lparr>st_Meta := annotated stsCreateAnnotation val (st_Meta x)\<rparr>)"])
         (auto simp: objectId_def)
  qed
  show ?thesis
  proof (cases b)
    case RabbitmqPluginsConfigMapBuilder
    then show ?thesis
      using run c idle conf [OF _ _ annotated_fixed(1) [OF pass, folded RabbitmqPluginsConfigMapBuilder]]
      by (auto simp: annotateIfNeeded_def run_simps targetId_def PluginsConfigName_def split: if_splits)
  next
    case ServerConfigMapBuilder
    then show ?thesis
      using run c idle conf [OF _ _ annotated_fixed(2) [OF pass, folded ServerConfigMapBuilder]]
      by (auto simp: annotateIfNeeded_def run_simps targetId_def ServerConfigMapName_def split: if_splits)
  next
    case StatefulSetBuilder
    then show ?thesis using run c idle sts by (auto simp: annotateIfNeeded_def run_simps split: if_splits)
  qed (use run idle in \<open>auto simp: annotateIfNeeded_def run_simps\<close>)
qed

lemma storesFixed_again:
  assumes "storesFixed R c b s s1" and "storesFixed R c b s1 s2"
  shows "storesFixed R c b s s2"
  using assms unfolding storesFixed_def stores_def by (auto simp: fun_upd_upd)

lemma record_store:
  assumes "logAndRecordOperationResult ob res err w = (r, w')"
  shows "heldAfter s0 (w_log w') = heldAfter s0 (w_log w)"
proof -
  have "only (\<lambda>e. \<forall>s. afterEvent e s = s) (logAndRecordOperationResult ob res err)"
    unfolding logAndRecordOperationResult_def Let_def record_event_def by (intro only_intros; simp)
  from only_runD [OF this assms] obtain es where
    es: "w_log w' = w_log w @ es" "list_all (\<lambda>e. \<forall>s. afterEvent e s = s) es" by blast
  from es(2) have "heldAfter s es = s" for s by (induction es arbitrary: s) simp_all
  with es(1) show ?thesis by simp
qed

lemma applyBuilder_stores:
  assumes pass: "plainPass R c s0" and c: "w_rmq w = c" and i: "objectId (w_resource w) = targetId c b"
    and run: "applyBuilder R b w = (Ok None, w')"
  shows "storesFixed R c b (heldAfter s0 (w_log w)) (heldAfter s0 (w_log w'))"
proof -
  from pass have S: "storeBacked (rec_Client R) s0" and own: "setsOwnerOnly (rec_env R)"
    and plain: "plainService (rec_env R) c" "plainSts (rec_env R) c" by (simp_all add: plainPass_def)
  from S have docs: "documented (rec_Client R)" by (simp add: storeBacked_def)
  let ?f = "builder_Update (rec_env R) c b"
  have keep: "keepsId ?f" using update_id [OF own] by (simp add: keepsId_def)
  note commit = commits_onError [OF docs createOrUpdate_commits [OF S keep builder_fix [OF own plain]]]
  from run [unfolded c [symmetric]] show ?thesis
  proof (cases rule: applyBuilder_cases)
    case (applied w1 w2)
    have "workingOn c (targetId c b) w" using c i by (simp add: workingOn_def)
    from commitsD [OF commit this] applied(1) c have w1: "workingOn c (targetId c b) w1"
      and st: "storesFixed R c b (heldAfter s0 (w_log w)) (heldAfter s0 (w_log w1))"
      by (simp_all add: storesFixed_def)
    have same: "heldAfter s0 (w_log w2) = heldAfter s0 (w_log w1)" by (rule record_store [OF applied(2)])
    have c2: "w_rmq w2 = c" using logsOnly_rmq [OF record_logsOnly applied(2)] w1 by (simp add: workingOn_def)
    from applied(3) have "annotateIfNeeded R b (w_operationResult w1) w2 = (Ok (), w')"
      by (cases rule: try_cases) (auto simp: run_simps)
    moreover from st obtain y where y: "objectId y = targetId c b" "fixedBy ?f y"
      "heldAfter s0 (w_log w1) = (heldAfter s0 (w_log w))(targetId c b \<mapsto> y)"
      unfolding storesFixed_def stores_def by blast
    ultimately have "storesFixed R c b (heldAfter s0 (w_log w2)) (heldAfter s0 (w_log w'))"
      using annotateIfNeeded_stores [OF pass c2, of b y] same by simp
    with st same show ?thesis by (auto intro: storesFixed_again)
  next
    case (refused e w1 w2)
    from refused(3) have False by (auto elim!: bind_OkD simp: run_simps)
    then show ?thesis ..
  qed simp
qed

lemma targetId_kind: "fst (targetId c b) = KStatefulSet \<longleftrightarrow> b = StatefulSetBuilder"
  by (cases b) (simp_all add: targetId_def)

lemma reconcileBuilder_parts:
  assumes run: "reconcileBuilder R b w = (Ok None, w')"
  obtains ob w1 where "builder_Build (rec_env R) (w_rmq w) b = Ok ob"
    and "(if UpdateMayRequireStsRecreate b then recreateSts R b else ret None) (w\<lparr>w_resource := ob\<rparr>) = (Ok None, w1)"
    and "applyBuilder R b w1 = (Ok None, w')"
proof -
  obtain ob where ob: "builder_Build (rec_env R) (w_rmq w) b = Ok ob"
    using run by (cases "builder_Build (rec_env R) (w_rmq w) b") (auto simp: reconcileBuilder_def bindM_def tryM_def run_simps)
  have "orElse (if UpdateMayRequireStsRecreate b then recreateSts R b else ret None) (applyBuilder R b) (w\<lparr>w_resource := ob\<rparr>)
      = (Ok None, w')"
    using run ob by (simp add: reconcileBuilder_def bindM_def tryM_def run_simps)
  then obtain pre w1 where
    pre: "(if UpdateMayRequireStsRecreate b then recreateSts R b else ret None) (w\<lparr>w_resource := ob\<rparr>) = (Ok pre, w1)"
    and rest: "(case pre of Some early \<Rightarrow> ret (Some early) | None \<Rightarrow> applyBuilder R b) w1 = (Ok None, w')"
    unfolding orElse_def by (elim bind_OkD)
  from rest have "pre = None" and "applyBuilder R b w1 = (Ok None, w')" by (cases pre; simp add: run_simps)+
  with that [OF ob] pre show thesis by simp
qed

lemma reconcileBuilder_stores:
  assumes pass: "plainPass R c s0" and c: "w_rmq w = c" and run: "reconcileBuilder R b w = (Ok None, w')"
  shows "w_rmq w' = c \<and> (\<exists>ob. builder_Build (rec_env R) c b = Ok ob)
     \<and> (\<exists>y. heldAfter s0 (w_log w') (targetId c b) = Some y \<and> objectId y = targetId c b
          \<and> fixedBy (builder_Update (rec_env R) c b) y)
     \<and> (\<forall>b'. b' \<noteq> b \<longrightarrow> heldAfter s0 (w_log w') (targetId c b') = heldAfter s0 (w_log w) (targetId c b'))"
proof -
  from pass have S: "storeBacked (rec_Client R) s0" and own: "setsOwnerOnly (rec_env R)" by (simp_all add: plainPass_def)
  from S have docs: "documented (rec_Client R)" and names: "namesKept (rec_Client R)" by (simp_all add: storeBacked_def)
  have keep: "keepsId (builder_Update (rec_env R) c b)" using update_id [OF own] by (simp add: keepsId_def)
  from reconcileBuilder_run [OF docs names own run] c have c': "w_rmq w' = c" by simp
  obtain ob w1 where ob: "builder_Build (rec_env R) c b = Ok ob"
    and pre: "(if UpdateMayRequireStsRecreate b then recreateSts R b else ret None) (w\<lparr>w_resource := ob\<rparr>) = (Ok None, w1)"
    and ap: "applyBuilder R b w1 = (Ok None, w')" using reconcileBuilder_parts [OF run] c by metis
  let ?w = "w\<lparr>w_resource := ob\<rparr>"
  have i: "objectId (w_resource ?w) = targetId c b" using build_id [OF ob] by simp
  have w1: "w_rmq w1 = c \<and> objectId (w_resource w1) = targetId c b
     \<and> (\<forall>b'. b' \<noteq> b \<longrightarrow> heldAfter s0 (w_log w1) (targetId c b') = heldAfter s0 (w_log w) (targetId c b'))"
  proof (cases "b = StatefulSetBuilder")
    case True
    with pre have sts: "recreateSts R b ?w = (Ok None, w1)" by simp
    have "worksOn (targetId c b) ?w w1" using recreateSts_run [of R ?w b None w1] keep c sts by auto
    moreover have "heldAfter s0 (w_log w1) (targetId c b') = heldAfter s0 (w_log w) (targetId c b')" if "b' \<noteq> b" for b'
      using recreateSts_spares [OF sts, of "targetId c b'" s0] that True targetId_kind by simp
    ultimately show ?thesis using c i by (simp add: worksOn_def)
  next
    case False
    then have "\<not> UpdateMayRequireStsRecreate b" by (cases b) simp_all
    with pre c i show ?thesis by (auto simp: run_simps)
  qed
  with applyBuilder_stores [OF pass _ _ ap] have "storesFixed R c b (heldAfter s0 (w_log w1)) (heldAfter s0 (w_log w'))"
    by blast
  then obtain y where y: "objectId y = targetId c b" "fixedBy (builder_Update (rec_env R) c b) y"
    "heldAfter s0 (w_log w') = (heldAfter s0 (w_log w1))(targetId c b \<mapsto> y)"
    unfolding storesFixed_def stores_def by blast
  moreover have "targetId c b' \<noteq> targetId c b" if "b' \<noteq> b" for b' using targetId_inj that by blast
  ultimately show ?thesis using c' ob w1 by simp
qed

text \<open>
  Every builder of the cluster is satisfied with the store: it can build its object, and the
  object that is held is one its update does not change.
\<close>

definition satisfied :: "reconciler \<Rightarrow> rabbitmqCluster \<Rightarrow> objectStore \<Rightarrow> builder \<Rightarrow> bool" where
  "satisfied R c s b \<longleftrightarrow> (\<exists>ob. builder_Build (rec_env R) c b = Ok ob)
     \<and> (\<exists>y. s (targetId c b) = Some y \<and> builder_Update (rec_env R) c b y = Ok y)"

lemma reconcileBuilders_stores:
  assumes pass: "plainPass R c s0" and "w_rmq w = c" and "reconcileBuilders R bs w = (Ok None, w')"
  shows "w_rmq w' = c \<and> (\<forall>b. b \<in> set bs \<or> satisfied R c (heldAfter s0 (w_log w)) b
     \<longrightarrow> satisfied R c (heldAfter s0 (w_log w')) b)"
  using assms(2,3)
proof (induction bs arbitrary: w)
  case Nil
  then show ?case by (simp add: run_simps)
next
  case (Cons b bs)
  from Cons.prems(2) obtain pre w1 where pre: "reconcileBuilder R b w = (Ok pre, w1)"
    and rest: "(case pre of Some early \<Rightarrow> ret (Some early) | None \<Rightarrow> reconcileBuilders R bs) w1 = (Ok None, w')"
    unfolding reconcileBuilders.simps orElse_def by (elim bind_OkD)
  from rest have none: "pre = None" and bs: "reconcileBuilders R bs w1 = (Ok None, w')"
    by (cases pre; simp add: run_simps)+
  from reconcileBuilder_stores [OF pass Cons.prems(1) pre [unfolded none]]
  have w1: "w_rmq w1 = c" and own: "satisfied R c (heldAfter s0 (w_log w1)) b"
    and others: "\<And>b'. b' \<noteq> b \<Longrightarrow> satisfied R c (heldAfter s0 (w_log w)) b' \<Longrightarrow> satisfied R c (heldAfter s0 (w_log w1)) b'"
    by (auto simp: satisfied_def fixedBy_def)
  from Cons.IH [OF w1 bs] own others show ?case by (metis set_ConsD)
qed

text \<open>
  C4. A pass over the builders establishes what they are for. Against any server that is backed
  by a store, whatever the store held before and however many calls the server has refused on
  the way, a pass that comes to its end leaves a store that satisfies every builder of the
  cluster: the object is held under its name, and its builder's update would not change it.
  No builder undoes the work of another, and the annotations the operator stamps on the objects
  it has changed do not disturb them.
\<close>

theorem pass_converges:
  assumes "plainPass R (w_rmq w) s0"
    and "reconcileBuilders R (ResourceBuilders (w_rmq w)) w = (Ok None, w')"
  shows "list_all (satisfied R (w_rmq w) (heldAfter s0 (w_log w'))) (ResourceBuilders (w_rmq w))"
  using reconcileBuilders_stores [OF assms(1) refl assms(2)] by (simp add: list_all_iff)

section \<open>The pass after\<close>

text \<open>As long as nothing is written, the server finds what it holds.\<close>

definition answersFrom :: "api \<Rightarrow> objectStore \<Rightarrow> event list \<Rightarrow> bool" where
  "answersFrom S s l0 \<longleftrightarrow> (\<forall>i x l. s i = Some x \<longrightarrow> quiet l0 l \<longrightarrow> api_readObject S i l = Inr x)"

lemma satisfied_held:
  assumes "list_all (satisfied R c s) (ResourceBuilders c)" and "answersFrom (rec_Client R) s l0"
  shows "heldObjects R c l0 (\<lambda>b. the (s (targetId c b)))"
  unfolding heldObjects_def
proof (intro allI impI)
  fix b
  assume "b \<in> set (ResourceBuilders c)"
  with assms(1) have "satisfied R c s b" by (simp add: list_all_iff)
  then obtain ob y where parts: "builder_Build (rec_env R) c b = Ok ob" "s (targetId c b) = Some y"
    "builder_Update (rec_env R) c b y = Ok y" unfolding satisfied_def by blast
  with assms(2) have "\<forall>l. quiet l0 l \<longrightarrow> api_readObject (rec_Client R) (targetId c b) l = Inr y"
    unfolding answersFrom_def by blast
  with parts show "(\<exists>ob. builder_Build (rec_env R) c b = Ok ob)
     \<and> builder_Update (rec_env R) c b (the (s (targetId c b))) = Ok (the (s (targetId c b)))
     \<and> (\<forall>l. quiet l0 l \<longrightarrow> api_readObject (rec_Client R) (targetId c b) l = Inr (the (s (targetId c b))))"
    by simp
qed


section \<open>A cluster that has lost an object\<close>

definition backedApi :: "objectStore \<Rightarrow> api" where
  "backedApi s0 = withLibraries (sampleBase\<lparr>
     api_readObject := (\<lambda>i l. case heldAfter s0 l i of
        Some x \<Rightarrow> if objectId x = i then Inr x else absent i l | None \<Rightarrow> absent i l),
     api_getSts := (\<lambda>k l. case heldAfter s0 l (KStatefulSet, k) of
        Some (OStatefulSet x) \<Rightarrow> Inr x | _ \<Rightarrow> absent k l),
     api_getConfigMap := (\<lambda>k l. case heldAfter s0 l (KConfigMap, k) of
        Some (OConfigMap x) \<Rightarrow> Inr x | _ \<Rightarrow> absent k l)\<rparr>)"

lemma backedApi_backed: "storeBacked (backedApi s0) s0"
proof -
  have "documented (backedApi s0)" unfolding backedApi_def by (rule documented_withLibraries)
  moreover have "readsStore (backedApi s0) s0"
    by (auto simp: readsStore_def backedApi_def withLibraries_def absent_def
        split: option.splits object.splits if_splits)
  moreover have "storesAsSent (backedApi s0)"
    by (simp add: storesAsSent_def backedApi_def withLibraries_def sampleBase_def)
  moreover have "namesKept (backedApi s0)"
    by (auto simp: namesKept_def backedApi_def withLibraries_def sampleBase_def absent_def
        split: option.splits if_splits)
  ultimately show ?thesis by (simp add: storeBacked_def)
qed

text \<open>The store of the sample cluster, and the one in which the headless service is missing.\<close>

definition sampleStore :: objectStore where
  "sampleStore i = map_option stored (List.find (\<lambda>b. targetId sampleCluster b = i) (ResourceBuilders sampleCluster))"

definition lostStore :: objectStore where
  "lostStore = sampleStore(targetId sampleCluster HeadlessServiceBuilder := None)"

lemma sampleStore_target:
  "b \<in> set (ResourceBuilders sampleCluster) \<Longrightarrow> sampleStore (targetId sampleCluster b) = Some (stored b)"
  by (simp add: sampleStore_def find_target)

lemma sample_pass: "plainPass (sampleReconciler (backedApi s0)) sampleCluster s0"
proof -
  have "ignoresAnnotations sampleEnv" by (simp add: ignoresAnnotations_def sampleEnv_def)
  moreover have "unstamped sampleCluster"
    by (simp add: unstamped_def sampleCluster_def sampleSpec_def emptyMeta_def)
  ultimately show ?thesis
    using backedApi_backed sampleEnv_owner sample_plain by (simp add: plainPass_def)
qed

lemma applyBuilder_created:
  assumes "documented (rec_Client R)" and b: "b = HeadlessServiceBuilder"
    and "api_readObject (rec_Client R) (objectId (w_resource w)) (w_log w) = Inl (ReasonNotFound, m)"
    and "builder_Update (rec_env R) (w_rmq w) b (w_resource w) = Ok y"
    and "\<And>l. api_createObject (rec_Client R) y l = Inr y"
  shows "\<exists>w' ty rsn msg. applyBuilder R b w = (Ok None, w') \<and> w_rmq w' = w_rmq w
    \<and> w_log w' = w_log w @ [ReadObject (objectId (w_resource w)) (Inl (ReasonNotFound, m)),
        CreateObject y (Inr y), Recorded ty rsn msg]"
proof -
  let ?f = "builder_Update (rec_env R) (w_rmq w) b"
  let ?w1 = "w\<lparr>w_operationResult := OperationResultNone,
     w_log := w_log w @ [ReadObject (objectId (w_resource w)) (Inl (ReasonNotFound, m))]\<rparr>"
  let ?w2 = "?w1\<lparr>w_resource := y, w_log := w_log ?w1 @ [CreateObject y (Inr y)], w_operationResult := OperationResultCreated\<rparr>"
  from createOrUpdate_paths(2) [where f = ?f, OF assms(1) refl refl refl assms(3)] assms(3-5)
  have "lib_createOrUpdate (rec_Client R) ?f w = (Ok (), ?w2)" by simp
  then have "lib_onError (rec_Client R) isConflict (lib_createOrUpdate (rec_Client R) ?f) w = (Ok (), ?w2)"
    by (rule onError_Ok [OF assms(1)])
  then have "\<exists>w'. applyBuilder R b w = (Ok None, w') \<and> w_rmq w' = w_rmq w
      \<and> (\<exists>ty rsn msg. w_log w' = w_log ?w2 @ [Recorded ty rsn msg])"
    by (simp add: applyBuilder_def bindM_def tryM_def run_simps logAndRecordOperationResult_def b
        annotateIfNeeded_def record_event_def Let_def)
  then show ?thesis by auto
qed

lemma headless_stored: "\<exists>ob. builder_Build sampleEnv sampleCluster HeadlessServiceBuilder = Ok ob
    \<and> builder_Update sampleEnv sampleCluster HeadlessServiceBuilder ob = Ok (stored HeadlessServiceBuilder)"
  by (simp add: stored_def HeadlessService_Update_def asService_def)

lemma lost_created:
  "\<exists>w1. reconcileBuilder (sampleReconciler (backedApi lostStore)) HeadlessServiceBuilder sampleWorld = (Ok None, w1)
     \<and> w_rmq w1 = sampleCluster \<and> heldAfter lostStore (w_log w1) = sampleStore"
proof -
  let ?R = "sampleReconciler (backedApi lostStore)" and ?t = "targetId sampleCluster HeadlessServiceBuilder"
  obtain ob where ob: "builder_Build sampleEnv sampleCluster HeadlessServiceBuilder = Ok ob"
    and y: "builder_Update sampleEnv sampleCluster HeadlessServiceBuilder ob = Ok (stored HeadlessServiceBuilder)"
    using headless_stored by blast
  let ?w = "sampleWorld\<lparr>w_resource := ob\<rparr>"
  have read: "api_readObject (backedApi lostStore) (objectId ob) [] = Inl (ReasonNotFound, ''not found'')"
    by (simp add: build_id [OF ob] backedApi_def withLibraries_def lostStore_def absent_def)
  have create: "\<And>l. api_createObject (backedApi lostStore) x l = Inr x" for x
    by (simp add: backedApi_def withLibraries_def sampleBase_def)
  have docs: "documented (backedApi lostStore)" unfolding backedApi_def by (rule documented_withLibraries)
  obtain w1 ty rsn msg where w1: "applyBuilder ?R HeadlessServiceBuilder ?w = (Ok None, w1)" "w_rmq w1 = sampleCluster"
    "w_log w1 = [ReadObject ?t (Inl (ReasonNotFound, ''not found'')),
       CreateObject (stored HeadlessServiceBuilder) (Inr (stored HeadlessServiceBuilder)), Recorded ty rsn msg]"
    using applyBuilder_created [of ?R HeadlessServiceBuilder ?w "''not found''" "stored HeadlessServiceBuilder"]
      docs read y create build_id [OF ob] by auto
  have "reconcileBuilder ?R HeadlessServiceBuilder sampleWorld = (Ok None, w1)"
    using ob w1(1) by (simp add: reconcileBuilder_def orElse_def bindM_def tryM_def run_simps)
  moreover have "sampleStore ?t = Some (stored HeadlessServiceBuilder)"
    by (rule sampleStore_target) (simp add: ResourceBuilders_list)
  then have "heldAfter lostStore (w_log w1) = sampleStore"
    by (auto simp: w1(3) stored_id lostStore_def)
  ultimately show ?thesis using w1(2) by blast
qed

text \<open>A server that holds the whole sample cluster answers as the steady state asks.\<close>

lemma backed_settled:
  assumes held: "heldAfter s0 l0 = sampleStore"
  shows "heldObjects (sampleReconciler (backedApi s0)) sampleCluster l0 stored"
    and "matchingSts (sampleReconciler (backedApi s0)) sampleCluster l0 settledSts"
    and "nothingAsked (sampleReconciler (backedApi s0)) sampleCluster l0 settledSts"
    and "answersFrom (backedApi s0) sampleStore l0"
proof -
  have now: "heldAfter s0 l = sampleStore" if "quiet l0 l" for l
    using that held heldAfter_reading unfolding quiet_def by auto
  have filed: "sampleStore i = Some x \<Longrightarrow> objectId x = i" for i x
    by (auto simp: sampleStore_def stored_id find_Some_iff)
  have read: "sampleStore i = Some x \<Longrightarrow> quiet l0 l \<Longrightarrow> api_readObject (backedApi s0) i l = Inr x" for i x l
    using now [of l] filed by (simp add: backedApi_def withLibraries_def)
  then show "answersFrom (backedApi s0) sampleStore l0" unfolding answersFrom_def by blast
  from read sampleStore_target show "heldObjects (sampleReconciler (backedApi s0)) sampleCluster l0 stored"
    by (intro sample_held) blast
  obtain x where x: "stored StatefulSetBuilder = OStatefulSet x"
    using stored_id [of StatefulSetBuilder] by (cases "stored StatefulSetBuilder") (auto simp: objectId_def targetId_def)
  then have "stored StatefulSetBuilder = OStatefulSet settledSts" by (simp add: settledSts_def)
  with sampleStore_target [of StatefulSetBuilder]
  have sts: "sampleStore (KStatefulSet, stsKey sampleCluster) = Some (OStatefulSet settledSts)"
    by (simp add: targetId_def stsKey_def ResourceBuilders_list)
  have "volumesFit (backedApi s0) l0 d" for d
    by (simp add: volumesFit_def backedApi_def withLibraries_def sampleBase_def absent_def)
  with sts now show "matchingSts (sampleReconciler (backedApi s0)) sampleCluster l0 settledSts"
    by (intro sample_matching) (simp_all add: backedApi_def withLibraries_def)
  have conf: "\<exists>cm. sampleStore (KConfigMap, (''ns'', name)) = Some (OConfigMap cm) \<and> (\<forall>k. mget (om_Annotations (cm_Meta cm)) k = None)"
    if name: "name \<in> {''rmq-server-conf'', ''rmq-plugins-conf''}" for name
  proof -
    from name obtain b where b: "b \<in> {ServerConfigMapBuilder, RabbitmqPluginsConfigMapBuilder}"
      and t: "targetId sampleCluster b = (KConfigMap, (''ns'', name))"
      by (force simp: targetId_def child_names)
    obtain ob y where ob: "builder_Build sampleEnv sampleCluster b = Ok ob" and y: "builder_Update sampleEnv sampleCluster b ob = Ok y"
      using sample_built by blast
    have "\<exists>cm. y = OConfigMap cm \<and> (\<forall>k. mget (om_Annotations (cm_Meta cm)) k = None)"
      using b ob y filtered.merge_one [of None None]
      by (auto simp: PluginsConfigMap_Update_def putPlugins_def ServerConfigMap_Update_Ok PluginsConfigMap_Build_def
          ServerConfigMap_Build_def namedMeta_def sampleCluster_def emptyMeta_def)
    moreover have "sampleStore (targetId sampleCluster b) = Some (stored b)"
      by (rule sampleStore_target) (use b in \<open>auto simp: ResourceBuilders_list\<close>)
    ultimately show ?thesis using t ob y by (auto simp: stored_def)
  qed
  show "nothingAsked (sampleReconciler (backedApi s0)) sampleCluster l0 settledSts"
  proof (rule sample_nothingAsked)
    fix name l
    assume "name \<in> {''rmq-server-conf'', ''rmq-plugins-conf''}" and "quiet l0 l"
    from conf [OF this(1)] now [OF this(2)] show "\<exists>cm. api_getConfigMap (backedApi s0) (''ns'', name) l = Inr cm
        \<and> (\<forall>k. mget (om_Annotations (cm_Meta cm)) k = None)"
      by (auto simp: backedApi_def withLibraries_def)
  qed
qed

lemma lost_pass:
  "\<exists>w1. reconcileBuilders (sampleReconciler (backedApi lostStore)) (ResourceBuilders sampleCluster) sampleWorld = (Ok None, w1)
     \<and> w_rmq w1 = sampleCluster \<and> heldAfter lostStore (w_log w1) = sampleStore"
proof -
  let ?R = "sampleReconciler (backedApi lostStore)"
  obtain bs where bs: "ResourceBuilders sampleCluster = HeadlessServiceBuilder # bs" by (simp add: ResourceBuilders_list)
  obtain w1 where w1: "reconcileBuilder ?R HeadlessServiceBuilder sampleWorld = (Ok None, w1)"
    "w_rmq w1 = sampleCluster" "heldAfter lostStore (w_log w1) = sampleStore" using lost_created by blast
  have "setsOwnerOnly (rec_env ?R)" "documented (rec_Client ?R)"
    using sampleEnv_owner backedApi_backed by (simp_all add: storeBacked_def)
  from reconcileBuilders_unchanged [OF this, of w1 "w_log w1" stored settledSts bs] backed_settled [OF w1(3)] w1(2) bs
  obtain w2 where w2: "reconcileBuilders ?R bs w1 = (Ok None, w2)" "readsOnly w1 w2" by auto
  then have "w_rmq w2 = sampleCluster" "heldAfter lostStore (w_log w2) = sampleStore"
    using w1 heldAfter_reading by (auto simp: readsOnly_def)
  with w1 w2 show ?thesis by (auto simp: bs orElse_def bindM_def)
qed

theorem pass_converges_witness:
  "\<exists>w1. reconcileBuilders (sampleReconciler (backedApi lostStore)) (ResourceBuilders sampleCluster) sampleWorld = (Ok None, w1)
     \<and> lostStore (targetId sampleCluster HeadlessServiceBuilder) = None
     \<and> list_all (satisfied (sampleReconciler (backedApi lostStore)) sampleCluster (heldAfter lostStore (w_log w1)))
         (ResourceBuilders sampleCluster)"
proof -
  obtain w1 where w1: "reconcileBuilders (sampleReconciler (backedApi lostStore)) (ResourceBuilders sampleCluster) sampleWorld
      = (Ok None, w1)" using lost_pass by blast
  with pass_converges [of "sampleReconciler (backedApi lostStore)" sampleWorld lostStore] sample_pass
  show ?thesis by (simp add: lostStore_def)
qed


end
