(* ===== verification/Reconcile_Gate.thy ===== *)
theory Reconcile_Gate
  imports Reconcile
begin

text \<open>
  What stands before the child objects: the guards a reconciliation passes, in the order of the
  code, before it writes anything but the cluster's own resource.
\<close>

section \<open>Every part extends the log\<close>

abbreviation extends :: "'a prog \<Rightarrow> bool" where
  "extends \<equiv> only (\<lambda>_. True)"

lemma applyBuilder_only: "documented (rec_Client R) \<Longrightarrow> extends (applyBuilder R b)"
  unfolding applyBuilder_def logAndRecordOperationResult_def Let_def by (intro only_intros; simp)

lemma builders_extend:
  assumes "documented (rec_Client R)"
  shows "extends (reconcileBuilders R bs)"
proof (induction bs)
  case Nil
  show ?case unfolding reconcileBuilders.simps by (intro only_intros)
next
  case (Cons b bs)
  then show ?case
    unfolding reconcileBuilders.simps orElse_def reconcileBuilder_def recreateSts_def scaleVolumes_def reconcilePVC_def Let_def
    by (intro only_intros applyBuilder_only assms; simp)
qed

lemma markThenChildren_extends:
  assumes "documented (rec_Client R)"
  shows "extends (markThenChildren R)"
  unfolding markThenChildren_def reconcileChildren_def markForQueueRebalance_def modifyMeta_def unlessRequeued_def
    finishReconcile_def
  by (intro only_intros builders_extend assms; simp)

section \<open>The finalizer is stored first\<close>

definition hasFinalizer :: "rabbitmqCluster \<Rightarrow> bool" where
  "hasFinalizer c \<longleftrightarrow> deletionFinalizer \<in> set (om_Finalizers (rc_Meta c))"

text \<open>The server has answered a read with, or acknowledged, a resource with the finalizer.\<close>

definition finalizerStored :: "event \<Rightarrow> bool" where
  "finalizerStored e = (case e of
      GetCluster k r \<Rightarrow> (case r of Inl q \<Rightarrow> False | Inr c \<Rightarrow> hasFinalizer c)
    | UpdateCluster x r \<Rightarrow> hasFinalizer x \<and> (case r of Inl q \<Rightarrow> False | Inr c \<Rightarrow> True)
    | _ \<Rightarrow> False)"

lemma withDefaults_meta [simp]: "rc_Meta (withDefaults R c) = rc_Meta c"
  by (simp add: withDefaults_eq)

definition withFinalizer :: "rabbitmqCluster \<Rightarrow> rabbitmqCluster" where
  "withFinalizer c = c\<lparr>rc_Meta := (rc_Meta c)\<lparr>om_Finalizers := (if hasFinalizer c then om_Finalizers (rc_Meta c)
     else om_Finalizers (rc_Meta c) @ [deletionFinalizer])\<rparr>\<rparr>"

lemma run_addFinalizer:
  assumes "documented (rec_Client R)" and "echoes (rec_Client R)" and "isZeroTime (om_DeletionTimestamp (rc_Meta (w_rmq w)))"
  shows "addFinalizerIfNeeded R w = (Ok (), w\<lparr>w_rmq := withFinalizer (w_rmq w),
     w_log := w_log w @ (if hasFinalizer (w_rmq w) then []
       else [UpdateCluster (withFinalizer (w_rmq w)) (Inr (withFinalizer (w_rmq w)))])\<rparr>)"
proof (cases "hasFinalizer (w_rmq w)")
  case True
  with assms show ?thesis
    by (simp add: addFinalizerIfNeeded_def bindM_def run_simps documentedD(1) hasFinalizer_def withFinalizer_def)
next
  case False
  let ?c = "withFinalizer (w_rmq w)"
  have "(w_rmq w)\<lparr>rc_Meta := lib_addFinalizer (rec_Client R) (rc_Meta (w_rmq w)) deletionFinalizer\<rparr> = ?c"
    using False by (simp add: documentedD(2) [OF assms(1)] hasFinalizer_def withFinalizer_def)
  with False assms(2,3) show ?thesis
    by (simp add: addFinalizerIfNeeded_def modifyMeta_def bindM_def run_simps documentedD(1) [OF assms(1)] hasFinalizer_def
        echoes_def)
qed

section \<open>The guards\<close>

lemma tls_of_spec:
  "rc_Spec c = rc_Spec d \<Longrightarrow> rc_Namespace c = rc_Namespace d \<Longrightarrow> tlsAccepted get c \<longleftrightarrow> tlsAccepted get d"
  by (simp add: tlsAccepted_def secretsOK_def DisableNonTLSListeners_def TLSEnabled_def SecretTLSEnabled_def
      MutualTLSEnabled_def VaultTLSEnabled_def VaultEnabled_def SingleTLSSecret_def)

lemma run_getChild:
  assumes "getChildResources R w = (r, w')"
  shows "w_rmq w' = w_rmq w"
proof -
  have "logsOnly (getChildResources R)" unfolding getChildResources_def by (intro frame_intros)
  from logsOnly_rmq [OF this assms] show ?thesis .
qed

text \<open>The status conditions change the status only.\<close>

definition sameButStatus :: "rabbitmqCluster \<Rightarrow> rabbitmqCluster \<Rightarrow> bool" where
  "sameButStatus c d \<longleftrightarrow> d\<lparr>rc_Status := rc_Status c\<rparr> = c"

lemma sameButStatus_refl [simp]: "sameButStatus c c"
  by (simp add: sameButStatus_def)

lemma sameButStatus_fields:
  assumes "sameButStatus c d"
  shows "rc_Spec d = rc_Spec c" "rc_Meta d = rc_Meta c"
  using assms by (auto simp: sameButStatus_def dest: arg_cong [where f = rc_Spec] arg_cong [where f = rc_Meta])

lemma run_setConditions:
  "setConditions R rs w = (r, w') \<Longrightarrow>
    (\<exists>es. w_log w' = w_log w @ es \<and> list_all (\<lambda>e. \<exists>t. e = Clock t) es)
  \<and> (\<forall>u. r = Ok u \<longrightarrow> (\<exists>now st. SetConditions now rs (rc_Status (w_rmq w)) = Ok st \<and> w_rmq w' = (w_rmq w)\<lparr>rc_Status := st\<rparr>))
  \<and> (r \<noteq> Ok () \<longrightarrow> w_rmq w' = w_rmq w)"
  unfolding setConditions_def modifyStatus_def
  by (auto simp: bindM_def run_simps split: outcome.splits) blast

lemma run_statusConditions:
  assumes "echoes (rec_Client R)" and "updateStatusConditions R w = (r, w')"
  shows "rc_Spec (w_rmq w') = rc_Spec (w_rmq w) \<and> rc_Meta (w_rmq w') = rc_Meta (w_rmq w)"
  using assms(2) unfolding updateStatusConditions_def
proof (cases rule: checked_cases)
  case (val rs w1)
  let ?old = "cst_Conditions (rc_Status (w_rmq w1))"
  from val(2) have "bindM (setConditions R rs) (\<lambda>_. bindM getRmq (\<lambda>c. if cst_Conditions (rc_Status c) \<noteq> ?old
      then tryM (updateStatus (rec_Client R)) (case_sum
            (\<lambda>err. if isConflict err then ret (2, None) else ret (0, Some err)) (\<lambda>_. ret (0, None)))
      else ret (0, None))) w1 = (r, w')"
    by (simp add: bindM_def run_simps Let_def)
  then show ?thesis
  proof (cases rule: bind_cases)
    case bound: (val u w2)
    from run_setConditions [OF bound(1)] run_getChild [OF val(1)] obtain st where
      w2: "w_rmq w2 = (w_rmq w)\<lparr>rc_Status := st\<rparr>" by auto
    have "w_rmq w' = w_rmq w2"
      using bound(2) assms(1) by (auto simp: bindM_def tryM_def run_simps echoes_def split: if_splits)
    with w2 show ?thesis by simp
  qed (use run_setConditions run_getChild [OF val(1)] in \<open>fastforce\<close>)+
qed (use run_getChild in \<open>auto\<close>)

text \<open>A run that has written no child object yet.\<close>

definition quietly :: "world \<Rightarrow> world \<Rightarrow> bool" where
  "quietly w w' \<longleftrightarrow> (\<exists>es. w_log w' = w_log w @ es \<and> list_all (\<lambda>e. \<not> writesChild e) es)"

lemma quietly_trans:
  assumes "quietly w w1" and "quietly w1 w2"
  shows "quietly w w2"
proof -
  from assms obtain es fs where "w_log w1 = w_log w @ es" "list_all (\<lambda>e. \<not> writesChild e) es"
    "w_log w2 = w_log w1 @ fs" "list_all (\<lambda>e. \<not> writesChild e) fs" unfolding quietly_def by blast
  then show ?thesis unfolding quietly_def by (intro exI [of _ "es @ fs"]) simp
qed

lemma quietly_run: "only (\<lambda>e. \<not> writesChild e) m \<Longrightarrow> m w = (r, w') \<Longrightarrow> quietly w w'"
  unfolding quietly_def by (rule only_runD)

lemma quiet_parts:
  "only (\<lambda>e. \<not> writesChild e) (updateStatusConditions R)" "only (\<lambda>e. \<not> writesChild e) (reconcileTLS R)"
  "only (\<lambda>e. \<not> writesChild e) (reconcilePaused R)"
  unfolding reconcilePaused_def by (intro only_intros; simp)+

text \<open>
  The guards after the finalizer: either nothing but the cluster was written when the run
  ends, or the TLS settings are accepted and the children follow.
\<close>

definition guardsThen :: "reconciler \<Rightarrow> requeue prog" where
  "guardsThen R = unlessRequeued (updateStatusConditions R)
     (tryM (reconcileTLS R) (case_sum
        (\<lambda>tlsErr. if isDisableNonTLS tlsErr then ret (0, None) else ret (0, Some tlsErr))
        (\<lambda>_. markThenChildren R)))"

lemma run_guards:
  assumes docs: "documented (rec_Client R)" and echo: "echoes (rec_Client R)" and serve: "servesSecrets (rec_Client R) get"
    and run: "guardsThen R w = (r, w')"
  shows "quietly w w' \<or> tlsAccepted get (w_rmq w) \<and> (\<exists>es. w_log w' = w_log w @ es)"
  using run unfolding guardsThen_def unlessRequeued_def
proof (cases rule: bind_cases)
  case (val p w1)
  note q1 = quietly_run [OF quiet_parts(1) val(1)]
  note same = run_statusConditions [OF echo val(1)]
  obtain d err where p: "p = (d, err)" by (cases p)
  show ?thesis
  proof (cases "err \<noteq> None \<or> d > 0")
    case True
    with val(2) p q1 show ?thesis by (auto simp: run_simps)
  next
    case False
    with val(2) p have "tryM (reconcileTLS R) (case_sum
        (\<lambda>tlsErr. if isDisableNonTLS tlsErr then ret (0, None) else ret (0, Some tlsErr))
        (\<lambda>_. markThenChildren R)) w1 = (r, w')" by simp
    then show ?thesis
    proof (cases rule: try_cases)
      case tls: (val u w2)
      from tls_decides [OF serve tls(1)] have "tlsAccepted get (w_rmq w1)" by simp
      then have ok: "tlsAccepted get (w_rmq w)" using same tls_of_spec [of "w_rmq w1" "w_rmq w"] by simp
      from quietly_trans [OF q1 quietly_run [OF quiet_parts(2) tls(1)]] obtain es where es: "w_log w2 = w_log w @ es"
        unfolding quietly_def by blast
      from tls(2) have "markThenChildren R w2 = (r, w')" by simp
      from only_runD [OF markThenChildren_extends [OF docs] this] es ok show ?thesis by auto
    next
      case (err e w2)
      from err(2) have "w' = w2" by (auto simp: run_simps split: if_splits)
      with quietly_trans [OF q1 quietly_run [OF quiet_parts(2) err(1)]] show ?thesis by simp
    next
      case (pan q)
      from quietly_trans [OF q1 quietly_run [OF quiet_parts(2) pan(1)]] show ?thesis by simp
    qed
  qed
qed (use quietly_run [OF quiet_parts(1)] in \<open>auto\<close>)

section \<open>The whole reconciliation\<close>

definition paused :: "rabbitmqCluster \<Rightarrow> bool" where
  "paused c \<longleftrightarrow> mget (om_Labels (rc_Meta c)) pauseReconciliationLabel = Some ''true''"

text \<open>Where the run goes after the resource \<open>c\<close> was read.\<close>

definition dispatch :: "reconciler \<Rightarrow> rabbitmqCluster \<Rightarrow> requeue prog" where
  "dispatch R c = (if \<not> isZeroTime (om_DeletionTimestamp (rc_Meta c))
     then checked 0 (prepareForDeletion R) (\<lambda>_. ret (0, None))
     else if paused c then reconcilePaused R else reconcileActive R)"

lemma run_Reconcile:
  "Reconcile R k w = (case api_getCluster (rec_Client R) k (w_log w) of
     Inl (q, m) \<Rightarrow> (Ok (0, if q = ReasonNotFound then None else Some (ApiError q m)),
        w\<lparr>w_log := w_log w @ [GetCluster k (Inl (q, m))]\<rparr>)
   | Inr c \<Rightarrow> dispatch R c (w\<lparr>w_log := w_log w @ [GetCluster k (Inr c)], w_rmq := c\<rparr>))"
  by (simp add: Reconcile_def getRabbitmqCluster_def dispatch_def paused_def bindM_def tryM_def run_simps
      split: sum.splits prod.splits)

text \<open>With a server that stores what it is sent, the first two guards always pass.\<close>

lemma run_active:
  assumes docs: "documented (rec_Client R)" and echo: "echoes (rec_Client R)"
    and zero: "isZeroTime (om_DeletionTimestamp (rc_Meta (w_rmq w)))"
  shows "\<exists>w1. reconcileActive R w = guardsThen R w1 \<and> w_rmq w1 = withFinalizer (withDefaults R (w_rmq w))
     \<and> (\<exists>es. w_log w1 = w_log w @ es \<and> list_all (\<lambda>e. \<not> writesChild e) es
          \<and> (hasFinalizer (w_rmq w) \<or> list_ex finalizerStored es))"
proof -
  let ?c = "withDefaults R (w_rmq w)"
  have "only (\<lambda>e. \<not> writesChild e) (reconcileOperatorDefaults R)" by (intro only_intros; simp)
  with run_defaults [OF echo, of w] obtain es where
    es: "reconcileOperatorDefaults R w = (Ok (0, None), w\<lparr>w_rmq := ?c, w_log := w_log w @ es\<rparr>)"
    and quiet: "list_all (\<lambda>e. \<not> writesChild e) es"
    by (fastforce dest: only_runD)
  let ?w = "w\<lparr>w_rmq := ?c, w_log := w_log w @ es\<rparr>"
  let ?fs = "if hasFinalizer ?c then [] else [UpdateCluster (withFinalizer ?c) (Inr (withFinalizer ?c))]"
  let ?v = "?w\<lparr>w_rmq := withFinalizer ?c, w_log := w_log ?w @ ?fs\<rparr>"
  have fin: "addFinalizerIfNeeded R ?w = (Ok (), ?v)"
    using run_addFinalizer [OF docs echo, of ?w] zero by simp
  have "reconcileActive R w = guardsThen R ?v"
    unfolding reconcileActive_def guardsThen_def [symmetric]
    by (simp add: unlessRequeued_def checked_def bindM_def tryM_def es fin)
  moreover have "hasFinalizer (withFinalizer c)" for c
    by (simp add: withFinalizer_def hasFinalizer_def)
  moreover have "hasFinalizer ?c \<longleftrightarrow> hasFinalizer (w_rmq w)" by (simp add: hasFinalizer_def)
  ultimately show ?thesis using quiet
    by (intro exI [of _ ?v] conjI exI [of _ "es @ ?fs"]) (simp_all add: finalizerStored_def)
qed

text \<open>
  What an active pass logs: either no write of a child object, or, the TLS settings being
  accepted, none before the server holds the finalizer.
\<close>

lemma active_gated:
  assumes "documented (rec_Client R)" and "echoes (rec_Client R)" and "servesSecrets (rec_Client R) get"
    and zero: "isZeroTime (om_DeletionTimestamp (rc_Meta (w_rmq w)))" and run: "reconcileActive R w = (r, w')"
  shows "\<exists>es fs. w_log w' = w_log w @ es @ fs \<and> list_all (\<lambda>e. \<not> writesChild e) es
     \<and> (fs = [] \<or> tlsAccepted get (withDefaults R (w_rmq w)) \<and> (hasFinalizer (w_rmq w) \<or> list_ex finalizerStored es))"
proof -
  from run_active [OF assms(1,2) zero] obtain w1 es where
    w1: "reconcileActive R w = guardsThen R w1" "w_rmq w1 = withFinalizer (withDefaults R (w_rmq w))" "w_log w1 = w_log w @ es"
    and quiet: "list_all (\<lambda>e. \<not> writesChild e) es" and fin: "hasFinalizer (w_rmq w) \<or> list_ex finalizerStored es" by blast
  have tls: "tlsAccepted get (w_rmq w1) \<longleftrightarrow> tlsAccepted get (withDefaults R (w_rmq w))"
    by (rule tls_of_spec) (simp_all add: w1(2) withFinalizer_def)
  from run w1(1) have "guardsThen R w1 = (r, w')" by simp
  from run_guards [OF assms(1-3) this] show ?thesis
  proof
    assume "quietly w1 w'"
    then obtain fs where "w_log w' = w_log w1 @ fs" "list_all (\<lambda>e. \<not> writesChild e) fs" unfolding quietly_def by blast
    with w1(3) quiet show ?thesis by (intro exI [of _ "es @ fs"] exI [of _ "[]"]) simp
  next
    assume "tlsAccepted get (w_rmq w1) \<and> (\<exists>es. w_log w' = w_log w1 @ es)"
    with tls w1(3) quiet fin show ?thesis by auto
  qed
qed


definition gateApi :: api where
  "gateApi = withLibraries (sampleBase\<lparr>api_getCluster := (\<lambda>k l. Inr sampleCluster)\<rparr>)"


end
