(* ===== verification/Reconcile_Errors.thy ===== *)
theory Reconcile_Errors
  imports Reconcile_Gate
begin

text \<open>
  The passes that end with an error while the builders are applied
  (\<^verbatim>\<open>controllers/rabbitmqcluster_controller.go\<close>, the loop over \<^verbatim>\<open>resourceBuilder.ResourceBuilders()\<close>):
  where the loop stops, what it has done before, and what is recorded and reported of the failure.
\<close>

section \<open>A failing \<open>CreateOrUpdate\<close>\<close>

lemma createOrUpdate_failed:
  assumes "documented S" and "lib_createOrUpdate S f w = (Err e, w')"
  shows "w_operationResult w' = OperationResultNone"
proof -
  let ?i = "objectId (w_resource w)" and ?q = "api_readObject S (objectId (w_resource w)) (w_log w)"
  note paths = createOrUpdate_paths [where f = f, OF assms(1) refl refl refl, of w]
  show ?thesis
  proof (cases ?q)
    case (Inr found)
    note step = assms(2) [unfolded paths(1) [OF Inr refl]]
    then show ?thesis by (auto split: outcome.splits if_splits sum.splits)
  next
    case (Inl q)
    obtain a m where q: "q = (a, m)" by (cases q)
    show ?thesis
    proof (cases "a = ReasonNotFound")
      case True
      with Inl q have "?q = Inl (ReasonNotFound, m)" by simp
      note step = assms(2) [unfolded paths(2) [OF this]]
      then show ?thesis by (auto split: outcome.splits sum.splits)
    next
      case False
      with assms(2) paths(3) Inl q show ?thesis by auto
    qed
  qed
qed

lemma attempts_failed:
  assumes "\<And>w e w'. f w = (Err e, w') \<Longrightarrow> P w'"
  shows "attempts n Q f w = (Err e, w') \<Longrightarrow> P w'"
proof (induction n arbitrary: w)
  case 0
  with assms show ?case by simp
next
  case (Suc n)
  from Suc.prems have "tryM f (case_sum (\<lambda>e. if Q e then attempts n Q f else throw e) ret) w = (Err e, w')" by simp
  then show ?case
  proof (cases rule: try_cases)
    case (err e' w1)
    show ?thesis
    proof (cases "Q e'")
      case True
      with err(2) Suc.IH show ?thesis by simp
    next
      case False
      with err(2) assms [OF err(1)] show ?thesis by (simp add: run_simps)
    qed
  qed (simp_all add: run_simps)
qed

lemma onError_failed:
  assumes "documented S" and "lib_onError S Q (lib_createOrUpdate S f) w = (Err e, w')"
  shows "w_operationResult w' = OperationResultNone"
proof -
  obtain n where "lib_onError S Q (lib_createOrUpdate S f) = attempts n Q (lib_createOrUpdate S f)"
    using documentedD(5) [OF assms(1)] by blast
  with attempts_failed [of "lib_createOrUpdate S f" "\<lambda>w. w_operationResult w = OperationResultNone"]
    createOrUpdate_failed [OF assms(1)] assms(2) show ?thesis by metis
qed

lemma onError_gives_up:
  assumes "documented S" and "g w = (Err e, w')" and "\<not> Q e"
  shows "lib_onError S Q g w = (Err e, w')"
proof -
  have "attempts n Q g w = (Err e, w')" for n
    using assms(2,3) by (cases n) (simp_all add: tryM_def run_simps)
  with documentedD(5) [OF assms(1), of Q g] show ?thesis by auto
qed

section \<open>How failures are reported\<close>

text \<open>The end of the log when a step has failed and its error goes into the status.\<close>

definition statusEvents :: "rabbitmqCluster \<Rightarrow> string \<Rightarrow> error \<Rightarrow> gotime \<Rightarrow> rabbitmqCluster response \<Rightarrow> event list" where
  "statusEvents c reason e t resp =
     [Clock t, UpdateClusterStatus (withCondition t ReconcileSuccess ConditionFalse reason (errString e) c) resp]"

lemma setReconcileSuccess_reports:
  assumes "bindM (setReconcileSuccess R ConditionFalse reason (errString e)) (\<lambda>_. ret x) w = (r, w')"
  shows "r = Ok x \<and> (\<exists>t resp. w_log w' = w_log w @ statusEvents (w_rmq w) reason e t resp)"
proof -
  from run_setReconcileSuccess [of R ConditionFalse reason "errString e" w] obtain t resp c' where
    "setReconcileSuccess R ConditionFalse reason (errString e) w = (Ok (), w\<lparr>w_rmq := c', w_log := w_log w
       @ [Clock t, UpdateClusterStatus (withCondition t ReconcileSuccess ConditionFalse reason (errString e) (w_rmq w)) resp]\<rparr>)"
    by blast
  with assms show ?thesis by (auto simp: bindM_def ret_def statusEvents_def)
qed

text \<open>Applying fails with the server's error, which is reported, or when the result cannot be annotated.\<close>

definition failedAnnotation :: "event \<Rightarrow> bool" where
  "failedAnnotation e \<longleftrightarrow> (\<exists>name. e = Recorded EventTypeWarning ''FailedUpdate'' (''failed to annotate '' @ name))"

definition applyFailure :: "rabbitmqCluster \<Rightarrow> error \<Rightarrow> event list \<Rightarrow> bool" where
  "applyFailure c e es \<longleftrightarrow>
     (\<exists>gs msg t resp. es = gs @ Recorded EventTypeWarning ''Failed'' msg # statusEvents c ''Error'' e t resp)
   \<or> (\<exists>gs ev. es = gs @ [ev] \<and> failedAnnotation ev)"

lemma applyFailure_append: "applyFailure c e es \<Longrightarrow> applyFailure c e (fs @ es)"
  unfolding applyFailure_def by (metis append.assoc)

lemma annotateWith_failed:
  assumes "extends (updateAnnotation (rec_Client R) C (rc_Namespace (w_rmq w)) name key
      (lib_formatTime (rec_Client R) (api_now (rec_Client R) (w_log w))))"
    and "annotateWith R C name key w = (Err e, w')"
  shows "\<exists>gs ev. w_log w' = w_log w @ gs @ [ev] \<and> failedAnnotation ev"
proof -
  let ?t = "api_now (rec_Client R) (w_log w)" let ?ts = "lib_formatTime (rec_Client R) ?t"
  let ?w = "w\<lparr>w_log := w_log w @ [Clock ?t]\<rparr>"
  let ?upd = "updateAnnotation (rec_Client R) C (rc_Namespace (w_rmq w)) name key ?ts"
  from assms(2) have "tryM ?upd (case_sum
       (\<lambda>err. bindM (record_event EventTypeWarning ''FailedUpdate'' (''failed to annotate '' @ name)) (\<lambda>_.
              throw err)) ret) ?w = (Err e, w')"
    by (simp add: annotateWith_def timeStamp_def bindM_def run_simps)
  then show ?thesis
  proof (cases rule: try_cases)
    case (err e' w1)
    from only_runD [OF assms(1) err(1)] obtain gs where "w_log w1 = w_log ?w @ gs" by blast
    with err(2) show ?thesis unfolding failedAnnotation_def
      by (intro exI [of _ "Clock ?t # gs"]) (auto simp: bindM_def record_event_def run_simps)
  qed (simp_all add: run_simps)
qed

lemma annotateIfNeeded_failed:
  assumes docs: "documented (rec_Client R)" and run: "annotateIfNeeded R b res w = (Err e, w')"
  shows "\<exists>gs ev. w_log w' = w_log w @ gs @ [ev] \<and> failedAnnotation ev"
proof -
  have "extends (updateAnnotation (rec_Client R) (cmObject (rec_Client R)) ns name key val)"
    "extends (updateAnnotation (rec_Client R) (stsObject (rec_Client R)) ns name key val)" for ns name key val
    by (rule cmAnnotation.updateAnnotation_only stsAnnotation.updateAnnotation_only; simp add: docs)+
  note failed = annotateWith_failed [OF this(1)] annotateWith_failed [OF this(2)]
  have "(\<exists>name key. annotateWith R (cmObject (rec_Client R)) name key w = (Err e, w'))
     \<or> (\<exists>name key. annotateWith R (stsObject (rec_Client R)) name key w = (Err e, w'))"
    using run by (cases b) (auto simp: annotateIfNeeded_def run_simps split: if_splits)
  with failed show ?thesis by blast
qed

lemma applyBuilder_failed:
  assumes "documented (rec_Client R)" and "namesKept (rec_Client R)" and own: "setsOwnerOnly (rec_env R)"
    and run: "applyBuilder R b w = (Ok (Some (d, Some e)), w')"
  shows "d = 0 \<and> (\<exists>es. w_log w' = w_log w @ es \<and> applyFailure (w_rmq w) e es)"
proof -
  let ?f = "builder_Update (rec_env R) (w_rmq w) b" and ?S = "rec_Client R"
  have keep: "keepsId ?f" using update_id [OF own] by (simp add: keepsId_def)
  from run show ?thesis
  proof (cases rule: applyBuilder_cases)
    case (applied w1 w2)
    from onError_run [OF assms(1,2) keep applied(1) refl] obtain es where es: "w_log w1 = w_log w @ es"
      unfolding applies_def by blast
    from logsOnly_run [OF record_logsOnly applied(2)] obtain fs where fs: "w_log w2 = w_log w1 @ fs" by auto
    from applied(3) have "d = 0 \<and> annotateIfNeeded R b (w_operationResult w1) w2 = (Err e, w')"
      by (cases rule: try_cases) (auto simp: run_simps)
    with annotateIfNeeded_failed [OF assms(1)] obtain gs ev where "d = 0"
      "w_log w' = w_log w2 @ gs @ [ev]" "failedAnnotation ev" by blast
    with es fs show ?thesis unfolding applyFailure_def
      by (intro conjI exI [of _ "es @ fs @ gs @ [ev]"] disjI2 exI [of _ "es @ fs @ gs"] exI [of _ ev]) simp_all
  next
    case (refused e1 w1 w2)
    from onError_run [OF assms(1,2) keep refused(1) refl] obtain es where es: "w_log w1 = w_log w @ es" "w_rmq w1 = w_rmq w"
      unfolding applies_def worksOn_def by blast
    have none: "w_operationResult w1 = OperationResultNone" by (rule onError_failed [OF assms(1) refused(1)])
    let ?msg = "''failed to '' @ '' resource '' @ om_Name (objMeta (w_resource w1)) @ '' of Type '' @ typeName (w_resource w1)"
    from refused(2) none have w2: "w2 = w1\<lparr>w_log := w_log w1 @ [Recorded EventTypeWarning ''Failed'' ?msg]\<rparr>"
      by (simp add: run_simps logAndRecordOperationResult_def record_event_def)
    from setReconcileSuccess_reports [OF refused(3)] obtain t resp where "d = 0" "e1 = e"
      "w_log w' = w_log w2 @ statusEvents (w_rmq w) ''Error'' e t resp" using es(2) w2 by auto
    with es(1) w2 show ?thesis unfolding applyFailure_def
      by (intro conjI exI [of _ "es @ Recorded EventTypeWarning ''Failed'' ?msg # statusEvents (w_rmq w) ''Error'' e t resp"]
          disjI1 exI [of _ es] exI [of _ ?msg] exI [of _ t] exI [of _ resp]) simp_all
  qed simp
qed

section \<open>A failing builder\<close>

text \<open>
  The ways a builder's step can fail, by what it leaves in the log. Only a failing
  \<open>CreateOrUpdate\<close> and a failing growth of the volumes are reported in the status.
\<close>

definition builderFailure :: "reconciler \<Rightarrow> rabbitmqCluster \<Rightarrow> builder \<Rightarrow> error \<Rightarrow> event list \<Rightarrow> bool" where
  "builderFailure R c b e es \<longleftrightarrow>
     es = [] \<and> builder_Build (rec_env R) c b = Err e
   \<or> b = StatefulSetBuilder \<and> (\<exists>q m. es = [GetSts (stsKey c) (Inl (q, m))] \<and> e = ApiError q m \<and> q \<noteq> ReasonNotFound)
   \<or> b = StatefulSetBuilder \<and> (\<exists>current ob. es = [GetSts (stsKey c) (Inr current)]
        \<and> builder_Build (rec_env R) c b = Ok ob \<and> builder_Update (rec_env R) c b ob = Err e)
   \<or> b = StatefulSetBuilder \<and> (\<exists>gs t resp. es = gs @ statusEvents c ''FailedReconcilePVC'' e t resp)
   \<or> applyFailure c e es"

lemma scaleVolumes_failed:
  assumes "scaleVolumes R sts w = (Ok (Some (d, Some e)), w')"
  shows "d = 0 \<and> (\<exists>gs t resp. w_log w' = w_log w @ gs @ statusEvents (w_rmq w) ''FailedReconcilePVC'' e t resp)"
  using assms unfolding scaleVolumes_def
proof (cases rule: try_cases)
  case (err e1 w1)
  from logsOnly_run [OF reconcilePVC_logsOnly err(1)] obtain gs where w1: "w1 = w\<lparr>w_log := w_log w @ gs\<rparr>" by blast
  from err(2) have "bindM (setReconcileSuccess R ConditionFalse ''FailedReconcilePVC'' (errString e1)) (\<lambda>_.
      ret (Some (0, Some e1)) :: requeue option prog) w1 = (Ok (Some (d, Some e)), w')" by simp
  from setReconcileSuccess_reports [OF this] w1 show ?thesis by auto
qed (simp_all add: run_simps)

lemma recreateSts_failed:
  assumes ob: "builder_Build (rec_env R) (w_rmq w) StatefulSetBuilder = Ok (w_resource w)"
    and run: "recreateSts R StatefulSetBuilder w = (Ok (Some (d, Some e)), w')"
  shows "d = 0 \<and> (\<exists>es. w_log w' = w_log w @ es \<and> builderFailure R (w_rmq w) StatefulSetBuilder e es)"
proof -
  let ?c = "w_rmq w" and ?ob = "w_resource w" and ?b = StatefulSetBuilder
  let ?q = "api_getSts (rec_Client R) (stsKey ?c) (w_log w)"
  let ?w = "w\<lparr>w_log := w_log w @ [GetSts (stsKey ?c) ?q]\<rparr>"
  have volumes: ?thesis if "scaleVolumes R sts v = (Ok (Some (d, Some e)), w')" "w_rmq v = ?c" "w_log v = w_log ?w" for sts v
  proof -
    from scaleVolumes_failed [OF that(1)] that(2,3) obtain gs t resp where
      "d = 0" "w_log w' = w_log w @ (GetSts (stsKey ?c) ?q # gs) @ statusEvents ?c ''FailedReconcilePVC'' e t resp" by auto
    then show ?thesis unfolding builderFailure_def by blast
  qed
  obtain sts where sts: "?ob = OStatefulSet sts"
    using run by (cases ?ob) (auto simp: recreateSts_def asStatefulSet_def bindM_def run_simps)
  show ?thesis
  proof (cases ?q)
    case (Inl x)
    obtain q m where x: "x = (q, m)" by (cases x)
    with Inl run sts have "q \<noteq> ReasonNotFound \<and> d = 0 \<and> e = ApiError q m \<and> w' = ?w
        \<or> scaleVolumes R sts ?w = (Ok (Some (d, Some e)), w')"
      by (auto simp: recreateSts_def asStatefulSet_def bindM_def tryM_def run_simps split: if_splits)
    then show ?thesis
    proof
      assume "scaleVolumes R sts ?w = (Ok (Some (d, Some e)), w')"
      then show ?thesis by (rule volumes) simp_all
    qed (use Inl x in \<open>auto simp: builderFailure_def\<close>)
  next
    case (Inr current)
    show ?thesis
    proof (cases "builder_Update (rec_env R) ?c ?b ?ob")
      case (Ok ob')
      let ?v = "?w\<lparr>w_resource := ob'\<rparr>"
      obtain sts' where sts': "ob' = OStatefulSet sts'" and check: "checkScaleDown R current sts' ?v = (Ok (Some (d, Some e)), w')"
        using run sts Inr Ok
        by (cases ob') (auto simp: recreateSts_def checkScaleDown_def asStatefulSet_def bindM_def tryM_def run_simps)
      obtain m n where reps: "st_Replicas current = Some m" "st_Replicas sts' = Some n"
        using check unfolding checkScaleDown_def scaleDown_def
        by (cases "st_Replicas current"; cases "st_Replicas sts'") (auto simp: bindM_def run_simps)
      note down = run_scaleDown [OF reps]
      have "m \<le> n"
        using check down(2) [of R ?v] by (force simp: checkScaleDown_def bindM_def ret_def not_le)
      with check down(1) have "scaleVolumes R sts' ?v = (Ok (Some (d, Some e)), w')"
        by (simp add: checkScaleDown_def bindM_def)
      then show ?thesis by (rule volumes) simp_all
    next
      case (Err e1)
      with run sts Inr have "d = 0" "e1 = e" "w' = ?w"
        by (auto simp: recreateSts_def asStatefulSet_def bindM_def tryM_def run_simps)
      with Err Inr ob show ?thesis unfolding builderFailure_def by auto
    next
      case (Panic x)
      with run sts Inr show ?thesis
        by (auto simp: recreateSts_def asStatefulSet_def bindM_def tryM_def run_simps)
    qed
  qed
qed

lemma reconcileBuilder_failed:
  assumes "documented (rec_Client R)" and "namesKept (rec_Client R)" and own: "setsOwnerOnly (rec_env R)"
    and run: "reconcileBuilder R b w = (Ok (Some (d, Some e)), w')"
  shows "d = 0 \<and> (\<exists>es. w_log w' = w_log w @ es \<and> builderFailure R (w_rmq w) b e es)"
proof (cases "builder_Build (rec_env R) (w_rmq w) b")
  case (Ok ob)
  let ?w = "w\<lparr>w_resource := ob\<rparr>"
  have keep: "keepsId (builder_Update (rec_env R) (w_rmq w) b)" using update_id [OF own] by (simp add: keepsId_def)
  have "orElse (if UpdateMayRequireStsRecreate b then recreateSts R b else ret None) (applyBuilder R b) ?w
      = (Ok (Some (d, Some e)), w')"
    using run Ok by (simp add: reconcileBuilder_def bindM_def tryM_def run_simps)
  then obtain pre w1 where pre: "(if UpdateMayRequireStsRecreate b then recreateSts R b else ret None) ?w = (Ok pre, w1)"
    and rest: "(case pre of Some early \<Rightarrow> ret (Some early) | None \<Rightarrow> applyBuilder R b) w1 = (Ok (Some (d, Some e)), w')"
    unfolding orElse_def by (elim bind_OkD)
  show ?thesis
  proof (cases pre)
    case None
    have "w_rmq w1 = w_rmq w \<and> (\<exists>es. w_log w1 = w_log w @ es)"
    proof (cases "UpdateMayRequireStsRecreate b")
      case True
      with pre None recreateSts_run [of R ?w b None w1] keep show ?thesis by (auto simp: worksOn_def)
    next
      case False
      with pre show ?thesis by (auto simp: run_simps)
    qed
    then obtain es where w1: "w_rmq w1 = w_rmq w" "w_log w1 = w_log w @ es" by blast
    from applyBuilder_failed [OF assms(1,2) own] rest None obtain fs where "d = 0" "w_log w' = w_log w1 @ fs"
      "applyFailure (w_rmq w) e fs" using w1(1) by fastforce
    with w1(2) show ?thesis unfolding builderFailure_def
      by (intro conjI exI [of _ "es @ fs"]) (simp_all add: applyFailure_append)
  next
    case (Some early)
    with pre rest have "recreateSts R b ?w = (Ok (Some (d, Some e)), w')" and "UpdateMayRequireStsRecreate b"
      by (auto simp: run_simps split: if_splits)
    moreover from this(2) have "b = StatefulSetBuilder" by (cases b) simp_all
    ultimately show ?thesis using recreateSts_failed [of R ?w d e w'] Ok by simp
  qed
next
  case (Err e1)
  with run have "d = 0" "e1 = e" "w' = w" by (auto simp: reconcileBuilder_def bindM_def tryM_def run_simps)
  with Err show ?thesis by (auto simp: builderFailure_def)
next
  case (Panic x)
  with run show ?thesis by (simp add: reconcileBuilder_def bindM_def tryM_def run_simps)
qed

lemma reconcileBuilders_failed:
  assumes "documented (rec_Client R)" and "namesKept (rec_Client R)" and "setsOwnerOnly (rec_env R)"
    and "reconcileBuilders R bs w = (Ok (Some (d, Some e)), w')"
  shows "d = 0 \<and> (\<exists>front b rest es fs. bs = front @ b # rest \<and> w_log w' = w_log w @ es @ fs
     \<and> list_all (applied R (w_rmq w) es) front \<and> builderFailure R (w_rmq w) b e fs)"
  using assms(4)
proof (induction bs arbitrary: w)
  case Nil
  then show ?case by (simp add: run_simps)
next
  case (Cons b bs)
  from Cons.prems obtain pre w1 where pre: "reconcileBuilder R b w = (Ok pre, w1)"
    and rest: "(case pre of Some early \<Rightarrow> ret (Some early) | None \<Rightarrow> reconcileBuilders R bs) w1 = (Ok (Some (d, Some e)), w')"
    unfolding reconcileBuilders.simps orElse_def by (elim bind_OkD)
  show ?case
  proof (cases pre)
    case None
    with reconcileBuilder_run [OF assms(1-3) pre] obtain es where
      w1: "w_rmq w1 = w_rmq w" "w_log w1 = w_log w @ es" "applied R (w_rmq w) es b" by blast
    from Cons.IH [of w1] rest None w1(1) obtain ok b' rest' es' fs where d: "d = 0" and
      bs: "bs = ok @ b' # rest'" and log: "w_log w' = w_log w1 @ es' @ fs"
      and ok: "list_all (applied R (w_rmq w) es') ok" and fail: "builderFailure R (w_rmq w) b' e fs" by auto
    have "list_all (applied R (w_rmq w) (es @ es')) (b # ok)"
      using w1(3) ok applied_mono [of R "w_rmq w" es b "es @ es'"] applied_mono [of R "w_rmq w" es' _ "es @ es'"]
      by (auto simp: list_all_iff)
    with d bs log fail w1(2) show ?thesis
      by (intro conjI exI [of _ "b # ok"] exI [of _ b'] exI [of _ rest'] exI [of _ "es @ es'"] exI [of _ fs]) simp_all
  next
    case (Some early)
    with rest pre have "reconcileBuilder R b w = (Ok (Some (d, Some e)), w')" by (simp add: run_simps)
    from reconcileBuilder_failed [OF assms(1-3) this] obtain fs where "d = 0" "w_log w' = w_log w @ fs"
      "builderFailure R (w_rmq w) b e fs" by blast
    then show ?thesis
      by (intro conjI exI [of _ "[]"] exI [of _ b] exI [of _ bs] exI [of _ fs]) simp_all
  qed
qed


definition quotaApi :: api where
  "quotaApi = withLibraries (sampleBase\<lparr>
     api_createObject := (\<lambda>ob l. Inl (ReasonOther ''Forbidden'', ''exceeded quota''))\<rparr>)"

lemma createOrUpdate_refused:
  assumes "documented S" and "api_readObject S (objectId (w_resource w)) (w_log w) = Inl (ReasonNotFound, m)"
    and "f (w_resource w) = Ok y" and "\<And>l. api_createObject S y l = Inl (q, n)"
  shows "\<exists>w1. lib_createOrUpdate S f w = (Err (ApiError q n), w1)"
  using createOrUpdate_paths(2) [where f = f, OF assms(1) refl refl refl assms(2)] assms(3,4) by simp

lemma quota_run:
  "\<exists>w'. reconcileBuilders (sampleReconciler quotaApi) (ResourceBuilders sampleCluster) sampleWorld
     = (Ok (Some (0, Some (ApiError (ReasonOther ''Forbidden'') ''exceeded quota''))), w')"
proof -
  let ?R = "sampleReconciler quotaApi" and ?b = HeadlessServiceBuilder
  have docs: "documented quotaApi" unfolding quotaApi_def by (rule documented_withLibraries)
  obtain ob y where ob: "builder_Build sampleEnv sampleCluster ?b = Ok ob"
    and y: "builder_Update sampleEnv sampleCluster ?b ob = Ok y"
    by (simp add: HeadlessService_Update_def asService_def)
  let ?w = "sampleWorld\<lparr>w_resource := ob\<rparr>" and ?f = "builder_Update sampleEnv sampleCluster ?b"
  let ?e = "ApiError (ReasonOther ''Forbidden'') ''exceeded quota''"
  have read: "api_readObject quotaApi (objectId (w_resource ?w)) (w_log ?w) = Inl (ReasonNotFound, ''not found'')"
    and create: "api_createObject quotaApi x l = Inl (ReasonOther ''Forbidden'', ''exceeded quota'')" for x l
    by (simp_all add: quotaApi_def withLibraries_def sampleBase_def absent_def)
  have "w_resource ?w = ob" by simp
  then have made: "?f (w_resource ?w) = Ok y" using y by (rule ssubst)
  obtain w1 where once: "lib_createOrUpdate quotaApi ?f ?w = (Err ?e, w1)"
    using createOrUpdate_refused [where f = ?f and w = ?w and y = y, OF docs read made create] by blast
  have "lib_onError quotaApi isConflict (lib_createOrUpdate quotaApi ?f) ?w = (Err ?e, w1)"
    by (rule onError_gives_up [where g = "lib_createOrUpdate quotaApi ?f", OF docs once]) (simp add: isConflict_def)
  moreover obtain u w2 where "logAndRecordOperationResult (w_resource w1) (w_operationResult w1) (Some ?e) w1 = (Ok u, w2)"
    by (simp add: logAndRecordOperationResult_def record_event_def run_simps Let_def split_beta)
  moreover obtain v w3 where "setReconcileSuccess ?R ConditionFalse ''Error'' (errString ?e) w2 = (Ok v, w3)"
    using run_setReconcileSuccess [of ?R ConditionFalse "''Error''" "errString ?e" w2] by blast
  ultimately have "applyBuilder ?R ?b ?w = (Ok (Some (0, Some ?e)), w3)"
    by (simp add: applyBuilder_def bindM_def tryM_def run_simps)
  then have "reconcileBuilder ?R ?b sampleWorld = (Ok (Some (0, Some ?e)), w3)"
    using ob by (simp add: reconcileBuilder_def orElse_def bindM_def tryM_def run_simps)
  then show ?thesis by (simp add: ResourceBuilders_list orElse_def bindM_def run_simps)
qed


end
