(* ===== verification/Reconcile_Lost.thy ===== *)
theory Reconcile_Lost
  imports Reconcile_Converge Reconcile_Errors
begin

text \<open>
  What a retry does not make good. An object is written in one call and annotated in another
  (\<^verbatim>\<open>annotateIfNeeded\<close> in \<^verbatim>\<open>controllers/reconcile_rabbitmq_configurations.go\<close>), and
  only the pass that has written the object tries to annotate it.
\<close>

section \<open>A failing annotation leaves the store alone\<close>

lemma annotateIfNeeded_leaves:
  assumes S: "storeBacked (rec_Client R) s0" and run: "annotateIfNeeded R b res w = (Err e, w')"
  shows "heldAfter s0 (w_log w') = heldAfter s0 (w_log w)"
proof -
  have "(\<exists>name key. annotateWith R (cmObject (rec_Client R)) name key w = (Err e, w'))
     \<or> (\<exists>name key. annotateWith R (stsObject (rec_Client R)) name key w = (Err e, w'))"
    using run by (cases b) (auto simp: annotateIfNeeded_def run_simps split: if_splits)
  with storedConfigMap.annotateWith_leaves [OF S] storedSts.annotateWith_leaves [OF S] show ?thesis by blast
qed

text \<open>
  A pass that fails after its \<^verbatim>\<open>CreateOrUpdate\<close> has done something leaves an object that the
  update does not change.
\<close>

lemma failed_after_write:
  assumes pass: "plainPass R c s0" and c: "w_rmq w = c" and i: "objectId (w_resource w) = targetId c b"
    and run: "applyBuilder R b w = (Ok (Some (d, Some e)), w')" and did: "w_operationResult w' \<noteq> OperationResultNone"
  shows "\<exists>y. heldAfter s0 (w_log w') (targetId c b) = Some y \<and> fixedBy (builder_Update (rec_env R) c b) y"
proof -
  from pass have S: "storeBacked (rec_Client R) s0" and own: "setsOwnerOnly (rec_env R)"
    and plain: "plainService (rec_env R) c" "plainSts (rec_env R) c" by (simp_all add: plainPass_def)
  from S have docs: "documented (rec_Client R)" by (simp add: storeBacked_def)
  let ?f = "builder_Update (rec_env R) c b"
  have keep: "keepsId ?f" using update_id [OF own] by (simp add: keepsId_def)
  note commit = commits_onError [OF docs createOrUpdate_commits [OF S keep builder_fix [OF own plain]]]
  from run [unfolded c [symmetric]] show ?thesis
  proof (cases rule: applyBuilder_cases)
    case (applied w1 w2)
    have "workingOn c (targetId c b) w" using c i by (simp add: workingOn_def)
    from commitsD [OF commit this] applied(1) c have "storesFixed R c b (heldAfter s0 (w_log w)) (heldAfter s0 (w_log w1))"
      by (simp add: storesFixed_def)
    then obtain y where "fixedBy ?f y" "heldAfter s0 (w_log w1) = (heldAfter s0 (w_log w))(targetId c b \<mapsto> y)"
      unfolding storesFixed_def stores_def by blast
    then have y: "fixedBy ?f y" "heldAfter s0 (w_log w1) (targetId c b) = Some y" by simp_all
    have same: "heldAfter s0 (w_log w2) = heldAfter s0 (w_log w1)" by (rule record_store [OF applied(2)])
    from applied(3) have "annotateIfNeeded R b (w_operationResult w1) w2 = (Err e, w')"
      by (cases rule: try_cases) (auto simp: run_simps)
    from annotateIfNeeded_leaves [OF S this] same y show ?thesis by auto
  next
    case (refused e1 w1 w2)
    have none: "w_operationResult w1 = OperationResultNone" by (rule onError_failed [OF docs refused(1)])
    from logsOnly_run [OF record_logsOnly refused(2)] have "w_operationResult w2 = w_operationResult w1" by auto
    moreover from run_setReconcileSuccess [of R ConditionFalse "''Error''" "errString e1" w2] refused(3)
    have "w_operationResult w' = w_operationResult w2" by (auto simp: bindM_def run_simps)
    ultimately show ?thesis using none did by simp
  qed simp
qed

text \<open>
  C12. A lost annotation. Against a server that stores what it is sent: when a pass has created
  or updated an object and then fails (it could not write the annotation that asks for a restart,
  for the plugins or for the feature flags), then the retry finds the object as it should be,
  reports no failure, and does nothing but read: it never tries the annotation again, so what the
  annotation asks for never happens.
\<close>

theorem annotation_forgotten:
  assumes "plainPass R (w_rmq w) s0" and "objectId (w_resource w) = targetId (w_rmq w) b"
    and "applyBuilder R b w = (Ok (Some (d, Some e)), w1)" and "w_operationResult w1 \<noteq> OperationResultNone"
    and "w_rmq w2 = w_rmq w" and "objectId (w_resource w2) = targetId (w_rmq w) b"
    and "heldAfter s0 (w_log w2) (targetId (w_rmq w) b) = heldAfter s0 (w_log w1) (targetId (w_rmq w) b)"
    and "api_readObject (rec_Client R) (targetId (w_rmq w) b) (w_log w2) = Inr x"
  shows "\<exists>w3. applyBuilder R b w2 = (Ok None, w3) \<and> readsOnly w2 w3"
proof -
  from assms(1) have S: "storeBacked (rec_Client R) s0" by (simp add: plainPass_def)
  from failed_after_write [OF assms(1) refl assms(2-4)] obtain y where
    y: "heldAfter s0 (w_log w1) (targetId (w_rmq w) b) = Some y" "builder_Update (rec_env R) (w_rmq w) b y = Ok y"
    by (auto simp: fixedBy_def)
  from storeBackedD(1) [OF S assms(8)] assms(7) y(1) have "x = y" by simp
  with applyBuilder_unchanged [of R w2 x b] S assms(5,6,8) y(2) show ?thesis by (simp add: storeBacked_def)
qed

section \<open>A server that refuses the annotation\<close>

text \<open>The server configuration in the store is out of date, and config maps cannot be annotated.\<close>

definition staleConf :: object where
  "staleConf = OConfigMap (ServerConfigMap_Build sampleCluster)"

definition staleStore :: objectStore where
  "staleStore = sampleStore(targetId sampleCluster ServerConfigMapBuilder \<mapsto> staleConf)"

definition refusingApi :: api where
  "refusingApi = (backedApi staleStore)\<lparr>api_updateConfigMap := (\<lambda>cm l. Inl (ReasonOther ''Forbidden'', ''denied''))\<rparr>"

lemma refusing_backed: "storeBacked refusingApi staleStore"
proof -
  have "readObject refusingApi = readObject (backedApi staleStore)" "createObject refusingApi = createObject (backedApi staleStore)"
    "updateObject refusingApi = updateObject (backedApi staleStore)"
    by (simp_all add: fun_eq_iff readObject_def createObject_def updateObject_def refusingApi_def)
  then have "documentedCreateOrUpdate refusingApi f = documentedCreateOrUpdate (backedApi staleStore) f" for f
    unfolding documentedCreateOrUpdate_def by (simp cong: if_cong)
  moreover have "documented (backedApi staleStore)" using backedApi_backed by (simp add: storeBacked_def)
  ultimately have "documented refusingApi" unfolding documented_def by (simp add: refusingApi_def)
  with backedApi_backed [of staleStore] show ?thesis
    by (simp add: storeBacked_def readsStore_def storesAsSent_def namesKept_def refusingApi_def)
qed

lemma stale_update: "\<exists>cm. builder_Update sampleEnv sampleCluster ServerConfigMapBuilder staleConf = Ok (OConfigMap cm)
    \<and> OConfigMap cm \<noteq> staleConf \<and> objectId (OConfigMap cm) = targetId sampleCluster ServerConfigMapBuilder"
proof -
  let ?built = "ServerConfigMap_Build sampleCluster"
  obtain cm where cm: "ServerConfigMap_Update sampleEnv sampleCluster ?built = Ok cm" using sample_conf_built by blast
  then have "om_OwnerReferences (cm_Meta cm) \<noteq> om_OwnerReferences (cm_Meta ?built)"
    by (auto simp: ServerConfigMap_Update_Ok ServerConfigMap_Build_def namedMeta_def emptyMeta_def)
  moreover have upd: "builder_Update sampleEnv sampleCluster ServerConfigMapBuilder staleConf = Ok (OConfigMap cm)"
    using cm by (simp add: staleConf_def asConfigMap_def)
  moreover have "objectId (OConfigMap cm) = objectId staleConf" by (rule update_id [OF sampleEnv_owner upd])
  then have "objectId (OConfigMap cm) = targetId sampleCluster ServerConfigMapBuilder"
    by (simp add: staleConf_def build_id [of sampleEnv _ ServerConfigMapBuilder])
  ultimately show ?thesis by (auto simp: staleConf_def)
qed

lemma annotate_denied:
  assumes docs: "documented (rec_Client R)"
    and get: "\<And>t. api_getConfigMap (rec_Client R) (rc_Namespace (w_rmq w), ChildResourceName (w_rmq w) ServerConfigMapName)
        (w_log w @ [Clock t]) = Inr cm"
    and deny: "\<And>x l. api_updateConfigMap (rec_Client R) x l = Inl (ReasonOther q, m)"
  shows "\<exists>w'. annotateIfNeeded R ServerConfigMapBuilder OperationResultUpdated w = (Err (ApiError (ReasonOther q) m), w')
     \<and> w_rmq w' = w_rmq w \<and> w_operationResult w' = w_operationResult w"
proof -
  let ?S = "rec_Client R" and ?e = "ApiError (ReasonOther q) m" and ?name = "ChildResourceName (w_rmq w) ServerConfigMapName"
  let ?v = "w\<lparr>w_log := w_log w @ [Clock (api_now ?S (w_log w))]\<rparr>"
  let ?g = "bindM (cl_get (cmObject ?S) (rc_Namespace (w_rmq w), ?name)) (\<lambda>obj.
        bindM (cl_update (cmObject ?S) (cl_setMeta (cmObject ?S) obj (annotated serverConfAnnotation
          (lib_formatTime ?S (api_now ?S (w_log w))) (cl_meta (cmObject ?S) obj)))) (\<lambda>_. ret ()))"
  obtain v where once: "?g ?v = (Err ?e, v)" and v: "w_rmq v = w_rmq w" "w_operationResult v = w_operationResult w"
    using get by (simp add: cmObject_def bindM_def run_simps deny)
  have "lib_onError ?S errorIsConflictOrNotFound ?g ?v = (Err ?e, v)"
    by (rule onError_gives_up [where g = ?g, OF docs once]) (simp add: errorIsConflictOrNotFound_def isConflict_def isNotFound_def)
  then show ?thesis
    using v by (simp add: annotateIfNeeded_def annotateWith_def updateAnnotation_def timeStamp_def record_event_def
        bindM_def tryM_def run_simps)
qed

lemma refused_run:
  "\<exists>w1 e cm. applyBuilder (sampleReconciler refusingApi) ServerConfigMapBuilder (sampleWorld\<lparr>w_resource := staleConf\<rparr>)
      = (Ok (Some (0, Some e)), w1)
    \<and> w_operationResult w1 \<noteq> OperationResultNone \<and> w_rmq w1 = sampleCluster
    \<and> heldAfter staleStore (w_log w1) (targetId sampleCluster ServerConfigMapBuilder) = Some (OConfigMap cm)
    \<and> objectId (OConfigMap cm) = targetId sampleCluster ServerConfigMapBuilder"
proof -
  let ?R = "sampleReconciler refusingApi" and ?b = ServerConfigMapBuilder and ?t = "targetId sampleCluster ServerConfigMapBuilder"
  let ?w = "sampleWorld\<lparr>w_resource := staleConf\<rparr>" and ?f = "builder_Update sampleEnv sampleCluster ServerConfigMapBuilder"
  obtain cm where upd: "?f staleConf = Ok (OConfigMap cm)" and new: "OConfigMap cm \<noteq> staleConf"
    and i: "objectId (OConfigMap cm) = ?t" using stale_update by blast
  have docs: "documented refusingApi" using refusing_backed by (simp add: storeBacked_def)
  have t: "objectId staleConf = ?t" by (simp add: staleConf_def build_id [of sampleEnv _ ServerConfigMapBuilder])
  have read: "api_readObject refusingApi ?t [] = Inr staleConf"
    using t by (simp add: refusingApi_def backedApi_def withLibraries_def staleStore_def)
  have put: "api_updateObject refusingApi x l = Inr x" for x l
    by (simp add: refusingApi_def backedApi_def withLibraries_def sampleBase_def)
  let ?w1 = "?w\<lparr>w_operationResult := OperationResultUpdated, w_resource := OConfigMap cm,
     w_log := [ReadObject ?t (Inr staleConf), UpdateObject (OConfigMap cm) (Inr (OConfigMap cm))]\<rparr>"
  from createOrUpdate_paths(1) [where f = ?f and w = ?w, OF docs refl refl refl] read put upd new t
  have "lib_createOrUpdate refusingApi ?f ?w = (Ok (), ?w1)" by (simp del: builder_Update.simps)
  then have once: "lib_onError refusingApi isConflict (lib_createOrUpdate refusingApi ?f) ?w = (Ok (), ?w1)"
    by (rule onError_Ok [OF docs])
  obtain ev where rec: "logAndRecordOperationResult (OConfigMap cm) OperationResultUpdated None ?w1 = (Ok (), ?w1\<lparr>w_log := w_log ?w1 @ [ev]\<rparr>)"
    and ev: "\<And>s. afterEvent ev s = s"
    by (simp add: logAndRecordOperationResult_def record_event_def run_simps Let_def)
  let ?w2 = "?w1\<lparr>w_log := w_log ?w1 @ [ev]\<rparr>"
  let ?k = "(rc_Namespace sampleCluster, ChildResourceName sampleCluster ServerConfigMapName)"
  have k: "?t = (KConfigMap, ?k)" by (simp add: targetId_def ServerConfigMapName_def)
  have get: "api_getConfigMap refusingApi ?k (w_log ?w2 @ [Clock c]) = Inr cm" for c
    using i k ev by (simp add: refusingApi_def backedApi_def withLibraries_def)
  let ?e = "ApiError (ReasonOther ''Forbidden'') ''denied''"
  have deny: "api_updateConfigMap refusingApi x l = Inl (ReasonOther ''Forbidden'', ''denied'')" for x l
    by (simp add: refusingApi_def)
  have "\<exists>w'. annotateIfNeeded ?R ?b OperationResultUpdated ?w2 = (Err ?e, w') \<and> w_rmq w' = w_rmq ?w2
      \<and> w_operationResult w' = w_operationResult ?w2"
    by (rule annotate_denied [of ?R ?w2 cm]) (use docs get deny in simp_all)
  then obtain w3 where w3: "annotateIfNeeded ?R ?b OperationResultUpdated ?w2 = (Err ?e, w3)"
    "w_rmq w3 = sampleCluster" "w_operationResult w3 = OperationResultUpdated" by auto
  from annotateIfNeeded_leaves [of ?R staleStore, OF _ w3(1)] refusing_backed i ev
  have held: "heldAfter staleStore (w_log w3) ?t = Some (OConfigMap cm)" by simp
  have "applyBuilder ?R ?b ?w = (Ok (Some (0, Some ?e)), w3)"
    using once rec w3(1) by (simp add: applyBuilder_def bindM_def tryM_def run_simps del: builder_Update.simps)
  with w3 held i show ?thesis by auto
qed

theorem annotation_forgotten_witness:
  "\<exists>e w1 w3. applyBuilder (sampleReconciler refusingApi) ServerConfigMapBuilder (sampleWorld\<lparr>w_resource := staleConf\<rparr>)
      = (Ok (Some (0, Some e)), w1)
    \<and> applyBuilder (sampleReconciler refusingApi) ServerConfigMapBuilder (w1\<lparr>w_resource := staleConf\<rparr>) = (Ok None, w3)
    \<and> readsOnly (w1\<lparr>w_resource := staleConf\<rparr>) w3"
proof -
  let ?R = "sampleReconciler refusingApi" and ?b = ServerConfigMapBuilder and ?t = "targetId sampleCluster ServerConfigMapBuilder"
  obtain w1 e cm where w1: "applyBuilder ?R ?b (sampleWorld\<lparr>w_resource := staleConf\<rparr>) = (Ok (Some (0, Some e)), w1)"
    and did: "w_operationResult w1 \<noteq> OperationResultNone" and c: "w_rmq w1 = sampleCluster"
    and held: "heldAfter staleStore (w_log w1) ?t = Some (OConfigMap cm)" and i: "objectId (OConfigMap cm) = ?t"
    using refused_run by blast
  have t: "objectId staleConf = ?t" by (simp add: staleConf_def build_id [of sampleEnv _ ServerConfigMapBuilder])
  have "plainPass ?R sampleCluster staleStore"
    using sample_pass [of staleStore] refusing_backed by (simp add: plainPass_def)
  moreover have "api_readObject refusingApi ?t (w_log w1) = Inr (OConfigMap cm)"
    using held i by (simp add: refusingApi_def backedApi_def withLibraries_def)
  ultimately obtain w3 where "applyBuilder ?R ?b (w1\<lparr>w_resource := staleConf\<rparr>) = (Ok None, w3)"
    "readsOnly (w1\<lparr>w_resource := staleConf\<rparr>) w3"
    using annotation_forgotten [of ?R "sampleWorld\<lparr>w_resource := staleConf\<rparr>" staleStore ?b 0 e w1
        "w1\<lparr>w_resource := staleConf\<rparr>" "OConfigMap cm"] w1 did c t by auto
  with w1 show ?thesis by blast
qed

end
