(* ===== verification/Reconcile_Total.thy ===== *)
theory Reconcile_Total
  imports Reconcile_Converge
begin

text \<open>
  Total correctness of a pass over the builders. \<open>pass_converges\<close> speaks of the passes that come
  to their end; here, against a server that keeps a store and accepts what it is sent, a pass
  does come to its end, volumes grown and the StatefulSet recreated on the way.
\<close>

section \<open>Programs that reach their end\<close>

definition reaches :: "'a prog \<Rightarrow> world \<Rightarrow> ('a \<Rightarrow> world \<Rightarrow> bool) \<Rightarrow> bool" where
  "reaches m w Q \<longleftrightarrow> (\<exists>a w'. m w = (Ok a, w') \<and> Q a w')"

lemma reachesI: "m w = (Ok a, w') \<Longrightarrow> Q a w' \<Longrightarrow> reaches m w Q"
  by (auto simp: reaches_def)

lemma reaches_mono: "reaches m w P \<Longrightarrow> (\<And>a w'. P a w' \<Longrightarrow> Q a w') \<Longrightarrow> reaches m w Q"
  by (auto simp: reaches_def)

lemma reaches_and:
  assumes "reaches m w P" and "\<And>a w'. m w = (Ok a, w') \<Longrightarrow> Q a w'"
  shows "reaches m w (\<lambda>a w'. P a w' \<and> Q a w')"
  using assms by (auto simp: reaches_def)

lemma reaches_ret: "Q a w \<Longrightarrow> reaches (ret a) w Q"
  by (simp add: reaches_def ret_def)

lemma reaches_bind: "reaches m w (\<lambda>a w'. reaches (f a) w' Q) \<Longrightarrow> reaches (bindM m f) w Q"
  by (auto simp: reaches_def bindM_def)

lemma reaches_try: "reaches m w (\<lambda>a w'. reaches (g (Inr a)) w' Q) \<Longrightarrow> reaches (tryM m g) w Q"
  by (auto simp: reaches_def tryM_def)

lemma reaches_caught:
  assumes "m w = (Err e, w1)" and "reaches (g (Inl e)) w1 Q"
  shows "reaches (tryM m g) w Q"
  using assms by (auto simp: reaches_def tryM_def)

lemma reaches_wrap: "reaches m w Q \<Longrightarrow> reaches (wrapM msg m) w Q"
  by (auto simp: reaches_def wrapM_def)

lemma reaches_onError:
  assumes "documented S" and "reaches m w Q"
  shows "reaches (lib_onError S P m) w (\<lambda>(u :: unit). Q u)"
  using assms(2) onError_Ok [OF assms(1), of m w _ P] by (auto simp: reaches_def)

section \<open>A server that obliges\<close>

text \<open>The answer to a question about an object that may be there.\<close>

definition answers :: "'r option \<Rightarrow> 'r response \<Rightarrow> bool" where
  "answers held r = (case held of None \<Rightarrow> notFound r | Some x \<Rightarrow> r = Inr x)"

lemma answers_simps [simp]: "answers None r \<longleftrightarrow> notFound r" "answers (Some x) r \<longleftrightarrow> r = Inr x"
  by (simp_all add: answers_def)

lemma notFoundE:
  assumes "notFound r"
  obtains m where "r = Inl (ReasonNotFound, m)"
  using assms by (auto simp: notFound_def split: sum.splits)

fun stsOf :: "object \<Rightarrow> statefulSet option" where
  "stsOf (OStatefulSet s) = Some s"
| "stsOf ob = None"

fun cmOf :: "object \<Rightarrow> configMap option" where
  "cmOf (OConfigMap cm) = Some cm"
| "cmOf ob = None"

text \<open>
  The server finds exactly what the store holds under the name it is asked for, accepts every
  write and keeps it as sent. It serves the volume claims in the same way.
\<close>

definition obliging :: "api \<Rightarrow> objectStore \<Rightarrow> pvcStore \<Rightarrow> bool" where
  "obliging S s0 st \<longleftrightarrow> servesStore S st \<and> (\<forall>l.
     (\<forall>i. answers (case heldAfter s0 l i of None \<Rightarrow> None | Some x \<Rightarrow> if objectId x = i then Some x else None)
        (api_readObject S i l))
   \<and> (\<forall>k. answers (Option.bind (heldAfter s0 l (KStatefulSet, k)) stsOf) (api_getSts S k l))
   \<and> (\<forall>k. answers (Option.bind (heldAfter s0 l (KConfigMap, k)) cmOf) (api_getConfigMap S k l))
   \<and> (\<forall>ob. api_createObject S ob l = Inr ob) \<and> (\<forall>ob. api_updateObject S ob l = Inr ob)
   \<and> (\<forall>s. api_updateSts S s l = Inr s) \<and> (\<forall>cm. api_updateConfigMap S cm l = Inr cm)
   \<and> (\<forall>k opts. api_deleteSts S k opts l = Inr ()) \<and> (\<forall>ns p. api_updatePVC S ns p l = Inr p))"

lemma obligingD:
  assumes "obliging S s0 st"
  shows "servesStore S st"
    and "answers (case heldAfter s0 l i of None \<Rightarrow> None | Some x \<Rightarrow> if objectId x = i then Some x else None)
        (api_readObject S i l)"
    and "answers (Option.bind (heldAfter s0 l (KStatefulSet, k)) stsOf) (api_getSts S k l)"
    and "answers (Option.bind (heldAfter s0 l (KConfigMap, k)) cmOf) (api_getConfigMap S k l)"
    and "api_createObject S ob l = Inr ob" "api_updateObject S ob l = Inr ob"
    and "api_updateSts S sts l = Inr sts" "api_updateConfigMap S cm l = Inr cm"
    and "api_deleteSts S k opts l = Inr ()" "api_updatePVC S ns p l = Inr p"
  using assms unfolding obliging_def by blast+

section \<open>Applying an object\<close>

lemma createOrUpdate_reaches:
  assumes docs: "documented S" and ob: "obliging S s0 st"
    and new: "\<exists>y. f (w_resource w) = Ok y"
    and old: "\<And>x. heldAfter s0 (w_log w) (objectId (w_resource w)) = Some x \<Longrightarrow> \<exists>y. f x = Ok y"
  shows "reaches (lib_createOrUpdate S f) w (\<lambda>_ _. True)"
proof -
  let ?i = "objectId (w_resource w)"
  let ?q = "api_readObject S ?i (w_log w)" and ?s = "heldAfter s0 (w_log w)"
  note paths = createOrUpdate_paths [where f = f, OF docs refl refl refl]
  note reply = obligingD(2) [OF ob, where i = ?i and l = "w_log w"] and accepts = obligingD(5,6) [OF ob]
  show ?thesis
  proof (cases "\<exists>x. ?s ?i = Some x \<and> objectId x = ?i")
    case True
    then obtain x where x: "?s ?i = Some x" "objectId x = ?i" by blast
    with reply have "?q = Inr x" by simp
    with paths(1) old [OF x(1)] accepts show ?thesis by (auto simp: reaches_def)
  next
    case False
    with reply have "notFound ?q" by (auto split: option.splits if_splits)
    then obtain m where "?q = Inl (ReasonNotFound, m)" by (rule notFoundE)
    with paths(2) new accepts show ?thesis by (auto simp: reaches_def)
  qed
qed

text \<open>
  Reading and writing an object that is there through the client comes to an end; so does
  annotating it.
\<close>

locale obliging_object = stored_object C kd wrap
  for C :: "api \<Rightarrow> 'o clientObject" and kd :: kind and wrap :: "'o \<Rightarrow> object" +
  assumes get_ends: "obliging S s0 st \<Longrightarrow> heldAfter s0 (w_log w) (kd, k) = Some (wrap ob)
      \<Longrightarrow> reaches (cl_get (C S) k) w (\<lambda>x w'. x = ob)"
    and upd_ends: "obliging S s0 st \<Longrightarrow> reaches (cl_update (C S) ob) w (\<lambda>x w'. True)"
begin

lemma annotateWith_reaches:
  assumes docs: "documented (rec_Client R)" and ob: "obliging (rec_Client R) s0 st"
    and held: "heldAfter s0 (w_log w) (kd, (rc_Namespace (w_rmq w), name)) = Some (wrap x)"
  shows "reaches (annotateWith R (C (rec_Client R)) name key) w (\<lambda>_ _. True)"
proof -
  let ?t = "api_now (rec_Client R) (w_log w)"
  let ?w = "w\<lparr>w_log := w_log w @ [Clock ?t]\<rparr>"
  have "heldAfter s0 (w_log ?w) (kd, (rc_Namespace (w_rmq w), name)) = Some (wrap x)" using held by simp
  then have "reaches (updateAnnotation (rec_Client R) (C (rec_Client R)) (rc_Namespace (w_rmq w)) name key
      (lib_formatTime (rec_Client R) ?t)) ?w (\<lambda>_ _. True)"
    unfolding updateAnnotation_def
    by (intro reaches_onError docs reaches_bind reaches_mono [OF get_ends [OF ob]]
        reaches_mono [OF upd_ends [OF ob]] reaches_ret)
  then have "reaches (tryM (updateAnnotation (rec_Client R) (C (rec_Client R)) (rc_Namespace (w_rmq w)) name key
      (lib_formatTime (rec_Client R) ?t)) (case_sum
       (\<lambda>err. bindM (record_event EventTypeWarning ''FailedUpdate'' (''failed to annotate '' @ name)) (\<lambda>_.
              throw err)) ret)) ?w (\<lambda>_ _. True)"
    by (intro reaches_try) (auto elim!: reaches_mono intro: reaches_ret)
  then show ?thesis by (simp add: annotateWith_def timeStamp_def bindM_def run_simps reaches_def)
qed

end

interpretation obligingConfigMap: obliging_object cmObject KConfigMap OConfigMap
proof unfold_locales
  show "reaches (cl_get (cmObject S) k) w (\<lambda>x w'. x = ob)"
    if "obliging S s0 st" "heldAfter s0 (w_log w) (KConfigMap, k) = Some (OConfigMap ob)" for S s0 st w k ob
    using obligingD(4) [OF that(1), where k = k and l = "w_log w"] that(2)
    by (simp add: reaches_def cmObject_def run_simps)
  show "reaches (cl_update (cmObject S) ob) w (\<lambda>x w'. True)" if "obliging S s0 st" for S s0 st w ob
    using obligingD(8) [OF that] by (simp add: reaches_def cmObject_def run_simps)
qed

interpretation obligingSts: obliging_object stsObject KStatefulSet OStatefulSet
proof unfold_locales
  show "reaches (cl_get (stsObject S) k) w (\<lambda>x w'. x = ob)"
    if "obliging S s0 st" "heldAfter s0 (w_log w) (KStatefulSet, k) = Some (OStatefulSet ob)" for S s0 st w k ob
    using obligingD(3) [OF that(1), where k = k and l = "w_log w"] that(2)
    by (simp add: reaches_def stsObject_def run_simps)
  show "reaches (cl_update (stsObject S) ob) w (\<lambda>x w'. True)" if "obliging S s0 st" for S s0 st w ob
    using obligingD(7) [OF that] by (simp add: reaches_def stsObject_def run_simps)
qed

text \<open>What the annotating builders keep is an object of their own kind.\<close>

lemma fixed_kind:
  assumes "fixedBy (builder_Update E c b) y"
  shows "b \<in> {RabbitmqPluginsConfigMapBuilder, ServerConfigMapBuilder} \<Longrightarrow> \<exists>cm. y = OConfigMap cm"
    and "b = StatefulSetBuilder \<Longrightarrow> \<exists>sts. y = OStatefulSet sts"
  using assms by (auto simp: fixedBy_def asConfigMap_def asStatefulSet_def split: object.splits)

lemma annotateIfNeeded_reaches:
  assumes docs: "documented (rec_Client R)" and ob: "obliging (rec_Client R) s0 st"
    and held: "heldAfter s0 (w_log w) (targetId (w_rmq w) b) = Some y"
    and y: "fixedBy (builder_Update (rec_env R) (w_rmq w) b) y"
  shows "reaches (annotateIfNeeded R b res) w (\<lambda>_ _. True)"
proof -
  let ?c = "w_rmq w"
  note conf = obligingConfigMap.annotateWith_reaches [OF docs ob]
    and sts = obligingSts.annotateWith_reaches [OF docs ob]
  have asked: "annotateIfNeeded R b res w = (case b of
      RabbitmqPluginsConfigMapBuilder \<Rightarrow> if res \<noteq> OperationResultUpdated then ret ()
        else annotateWith R (cmObject (rec_Client R)) (ChildResourceName ?c PluginsConfigName) pluginsUpdateAnnotation
    | ServerConfigMapBuilder \<Rightarrow> if res \<noteq> OperationResultUpdated then ret ()
        else annotateWith R (cmObject (rec_Client R)) (ChildResourceName ?c ServerConfigMapName) serverConfAnnotation
    | StatefulSetBuilder \<Rightarrow> if res \<noteq> OperationResultCreated then ret ()
        else annotateWith R (stsObject (rec_Client R)) (ChildResourceName ?c ''server'') stsCreateAnnotation
    | _ \<Rightarrow> ret ()) w"
    by (simp add: annotateIfNeeded_def bindM_def run_simps)
  have idle: "reaches (ret ()) w (\<lambda>_ _. True)" by (rule reaches_ret) simp
  have "reaches (case b of
      RabbitmqPluginsConfigMapBuilder \<Rightarrow> if res \<noteq> OperationResultUpdated then ret ()
        else annotateWith R (cmObject (rec_Client R)) (ChildResourceName ?c PluginsConfigName) pluginsUpdateAnnotation
    | ServerConfigMapBuilder \<Rightarrow> if res \<noteq> OperationResultUpdated then ret ()
        else annotateWith R (cmObject (rec_Client R)) (ChildResourceName ?c ServerConfigMapName) serverConfAnnotation
    | StatefulSetBuilder \<Rightarrow> if res \<noteq> OperationResultCreated then ret ()
        else annotateWith R (stsObject (rec_Client R)) (ChildResourceName ?c ''server'') stsCreateAnnotation
    | _ \<Rightarrow> ret ()) w (\<lambda>_ _. True)"
    using idle held fixed_kind [OF y] conf sts
    by (cases b) (auto simp: targetId_def PluginsConfigName_def ServerConfigMapName_def)
  then show ?thesis unfolding reaches_def asked .
qed

text \<open>Nothing a builder may meet makes it fail: it can build, and it can update what is held.\<close>

definition startable :: "env \<Rightarrow> rabbitmqCluster \<Rightarrow> objectStore \<Rightarrow> builder \<Rightarrow> bool" where
  "startable E c s b \<longleftrightarrow> (\<exists>ob y. builder_Build E c b = Ok ob \<and> builder_Update E c b ob = Ok y)
     \<and> (\<forall>x. s (targetId c b) = Some x \<longrightarrow> (\<exists>y. builder_Update E c b x = Ok y))"

lemma applyBuilder_reaches:
  assumes pass: "plainPass R (w_rmq w) s0" and ob: "obliging (rec_Client R) s0 st"
    and i: "objectId (w_resource w) = targetId (w_rmq w) b"
    and new: "\<exists>y. builder_Update (rec_env R) (w_rmq w) b (w_resource w) = Ok y"
    and old: "\<And>x. heldAfter s0 (w_log w) (targetId (w_rmq w) b) = Some x
      \<Longrightarrow> \<exists>y. builder_Update (rec_env R) (w_rmq w) b x = Ok y"
  shows "reaches (applyBuilder R b) w (\<lambda>res _. res = None)"
proof -
  let ?c = "w_rmq w"
  let ?f = "builder_Update (rec_env R) ?c b"
  from pass have S: "storeBacked (rec_Client R) s0" and own: "setsOwnerOnly (rec_env R)"
    and plain: "plainService (rec_env R) ?c" "plainSts (rec_env R) ?c" by (simp_all add: plainPass_def)
  from S have docs: "documented (rec_Client R)" by (simp add: storeBacked_def)
  have keep: "keepsId ?f" using update_id [OF own] by (simp add: keepsId_def)
  note commit = commits_onError [OF docs createOrUpdate_commits [OF S keep builder_fix [OF own plain]]]
  have "reaches (lib_createOrUpdate (rec_Client R) ?f) w (\<lambda>_ _. True)"
    using new old i by (intro createOrUpdate_reaches [OF docs ob]) simp_all
  then have "reaches (lib_onError (rec_Client R) isConflict (lib_createOrUpdate (rec_Client R) ?f)) w (\<lambda>_ _. True)"
    by (rule reaches_onError [OF docs])
  then obtain w1 where put: "lib_onError (rec_Client R) isConflict (lib_createOrUpdate (rec_Client R) ?f) w = (Ok (), w1)"
    by (auto simp: reaches_def)
  have "workingOn ?c (targetId ?c b) w" using i by (simp add: workingOn_def)
  from commitsD(1,2) [OF commit this put] have c1: "w_rmq w1 = ?c"
    and "stores (targetId ?c b) (fixedBy ?f) (heldAfter s0 (w_log w)) (heldAfter s0 (w_log w1))"
    by (simp_all add: workingOn_def)
  then obtain y where y: "fixedBy ?f y" "heldAfter s0 (w_log w1) (targetId ?c b) = Some y"
    unfolding stores_def by auto
  obtain w2 where rec: "logAndRecordOperationResult (w_resource w1) (w_operationResult w1) None w1 = (Ok (), w2)"
    using record_Ok by blast
  have c2: "w_rmq w2 = ?c" using logsOnly_rmq [OF record_logsOnly rec] c1 by simp
  from annotateIfNeeded_reaches [OF docs ob, of w2 b y "w_operationResult w1"] y record_store [OF rec] c2
  have "reaches (annotateIfNeeded R b (w_operationResult w1)) w2 (\<lambda>_ _. True)" by simp
  then obtain w' where "annotateIfNeeded R b (w_operationResult w1) w2 = (Ok (), w')" by (auto simp: reaches_def)
  with put rec have "applyBuilder R b w = (Ok None, w')"
    by (simp add: applyBuilder_def bindM_def tryM_def run_simps)
  then show ?thesis by (simp add: reaches_def)
qed

section \<open>Growing the volumes\<close>

text \<open>Claims that can be written back: the write to a nil map panics.\<close>

definition usable :: "pvcStore \<Rightarrow> bool" where
  "usable st \<longleftrightarrow> wellNamed st \<and> (\<forall>k p. st k = Some p \<longrightarrow> pvc_Requests p \<noteq> None)"

lemma scaleUpPVC_reaches:
  assumes ob: "obliging S s0 st" and u: "usable (storeAfter st (w_log w))"
    and found: "storeAfter st (w_log w) (metaKey (pvc_Meta p)) = Some p"
  shows "reaches (scaleUpPVC S c d p) w (\<lambda>_ _. True)"
proof -
  let ?k = "(om_Namespace (pvc_Meta p), om_Name (pvc_Meta p))"
  have "getPVC S ?k w = (Ok p, w\<lparr>w_log := w_log w @ [GetPVC ?k (Inr p)]\<rparr>)"
    using found by (simp add: run_getPVC [OF obligingD(1) [OF ob]] metaKey_def)
  moreover have "pvc_Requests p \<noteq> None" using u found by (cases "metaKey (pvc_Meta p)") (simp add: usable_def)
  ultimately show ?thesis
    using obligingD(10) [OF ob] by (simp add: reaches_def scaleUpPVC_def bindM_def wrapM_def run_simps)
qed

lemma usable_raised:
  assumes "usable st" and "st k = Some p"
  shows "usable (st(k \<mapsto> raise d p))"
proof -
  from assms have p: "metaKey (pvc_Meta p) = k" "pvc_Requests p \<noteq> None"
    by (cases k; simp add: usable_def wellNamed_def)+
  then have "pvc_Requests (raise d p) \<noteq> None" by (auto simp: raise_def)
  with p assms(1) show ?thesis by (simp add: usable_def wellNamed_def)
qed

lemma scaleUpPVCs_reaches:
  assumes ob: "obliging S s0 st" and "usable (storeAfter st (w_log w))" and "claimsIn (storeAfter st (w_log w)) c d pvcs"
  shows "reaches (scaleUpPVCs S c pvcs d) w (\<lambda>_ _. True)"
  using assms(2,3)
proof (induction pvcs arbitrary: w)
  case Nil
  then show ?case by (simp add: scaleUpPVCs_def reaches_ret)
next
  case (Cons p pvcs)
  let ?k = "metaKey (pvc_Meta p)" and ?s = "storeAfter st (w_log w)"
  have p: "om_Namespace (pvc_Meta p) = rc_Namespace c" "?s ?k = Some p" "storage p < d"
    using Cons.prems(2) by (simp_all add: claimsIn_def)
  from Cons.prems(1) have named: "wellNamed ?s" by (simp add: usable_def)
  from scaleUpPVC_reaches [OF ob Cons.prems(1) p(2)] obtain w1 where run: "scaleUpPVC S c d p w = (Ok (), w1)"
    by (auto simp: reaches_def)
  from scaleUpPVC_step [OF obligingD(1) [OF ob] run p(1) named p(2)]
  have s1: "storeAfter st (w_log w1) = ?s(?k \<mapsto> raise d p)" by simp
  have "usable (storeAfter st (w_log w1))" unfolding s1 by (rule usable_raised [OF Cons.prems(1) p(2)])
  moreover have "claimsIn (storeAfter st (w_log w1)) c d pvcs"
    using claimsIn_Cons [OF Cons.prems(2)] grow_single [of ?s ?k p d, OF p(2,3)] s1 by simp
  ultimately have "reaches (scaleUpPVCs S c pvcs d) w1 (\<lambda>_ _. True)" by (rule Cons.IH)
  with run show ?case by (auto simp: scaleUpPVCs_def reaches_def bindM_def)
qed

text \<open>A StatefulSet that is held goes when it is deleted, and the first poll says so.\<close>

lemma deleteSts_reaches:
  assumes ob: "obliging S s0 st"
    and key: "\<And>cur. heldAfter s0 (w_log w) (KStatefulSet, stsKey c) = Some (OStatefulSet cur) \<Longrightarrow> metaKey (st_Meta cur) = stsKey c"
  shows "reaches (deleteSts S c) w (\<lambda>_ _. True)"
proof -
  let ?i = "(KStatefulSet, stsKey c)"
  let ?q = "api_getSts S (stsKey c) (w_log w)"
  let ?w = "w\<lparr>w_log := w_log w @ [GetSts (stsKey c) ?q]\<rparr>"
  have get: "getSts S c w = (fromResponse ?q, ?w)" by (simp add: getSts_def stsKey_def run_simps)
  note reply = obligingD(3) [OF ob, where k = "stsKey c"]
  show ?thesis
  proof (cases "Option.bind (heldAfter s0 (w_log w) ?i) stsOf")
    case None
    with reply [where l = "w_log w"] obtain m where "?q = Inl (ReasonNotFound, m)" by (auto elim: notFoundE)
    with get show ?thesis by (simp add: reaches_def deleteSts_def tryM_def run_simps isNotFound_def)
  next
    case (Some cur)
    then have held: "heldAfter s0 (w_log w) ?i = Some (OStatefulSet cur)"
      by (auto simp: bind_eq_Some_conv elim: stsOf.elims)
    have q: "?q = Inr cur" using Some reply [where l = "w_log w"] by simp
    have k: "(om_Namespace (st_Meta cur), om_Name (st_Meta cur)) = stsKey c" using key [OF held] by (simp add: metaKey_def)
    let ?v = "?w\<lparr>w_log := w_log ?w @ [DeleteSts (stsKey c) orphan (Inr ())]\<rparr>"
    have "heldAfter s0 (w_log ?v) ?i = None" by (simp add: afterEvent_def)
    with reply [where l = "w_log ?v"] have "notFound (api_getSts S (stsKey c) (w_log ?v))" by simp
    with run_stsGone [of S c ?v] obtain w' where "stsGone S c ?v = (Ok True, w')" by simp
    moreover have "deleteStatefulSet S (stsKey c) orphan ?w = (Ok (), ?v)"
      using obligingD(9) [OF ob] by (simp add: run_simps)
    ultimately have "deleteAndWait S c cur ?w = (Ok (), w')"
      by (simp add: deleteAndWait_def k bindM_def wrapM_def retryWithInterval_def numeral_eq_Suc ret_def)
    with get q show ?thesis by (simp add: reaches_def deleteSts_def tryM_def)
  qed
qed

lemma growPVCs_reaches:
  assumes ob: "obliging S s0 st" and u: "usable (storeAfter st (w_log w))"
    and key: "\<And>cur. heldAfter s0 (w_log w) (KStatefulSet, stsKey c) = Some (OStatefulSet cur) \<Longrightarrow> metaKey (st_Meta cur) = stsKey c"
  shows "reaches (growPVCs S c d) w (\<lambda>_ _. True)"
proof -
  note serves = obligingD(1) [OF ob]
  let ?s = "storeAfter st (w_log w)"
  let ?sel = "pvcsNeedingScaling (readClaims ?s c (claimIndices c)) d"
  obtain w1 where get: "getClusterPVCs S c w = (Ok (readClaims ?s c (claimIndices c)), w1)"
    and w1: "storeAfter st (w_log w1) = ?s"
    using getPVCLoop_reads [OF serves, of c "claimIndices c" "[]" w]
    unfolding getClusterPVCs_def claimIndices_def by auto
  have "only (\<lambda>e. \<forall>s. afterEvent e s = s) (getClusterPVCs S c)" by (intro only_intros) simp
  from only_runD [OF this get] obtain es where es: "w_log w1 = w_log w @ es" "list_all (\<lambda>e. \<forall>s. afterEvent e s = s) es" by blast
  from es(2) have "heldAfter s es = s" for s by (induction es arbitrary: s) simp_all
  with es(1) have held: "heldAfter s0 (w_log w1) = heldAfter s0 (w_log w)" by simp
  from u have named: "wellNamed ?s" by (simp add: usable_def)
  show ?thesis
  proof (cases "?sel = []")
    case True
    with get show ?thesis by (simp add: reaches_def growPVCs_def bindM_def Let_def run_simps)
  next
    case False
    have quiet: "only (\<lambda>e. \<not> isPVCUpdate e) (deleteSts S c)" by (intro only_intros) simp_all
    obtain w2 where del: "deleteSts S c w1 = (Ok (), w2)"
      using deleteSts_reaches [OF ob, of w1 c] key held by (auto simp: reaches_def)
    from quiet_store [OF quiet del, of st] w1 have w2: "storeAfter st (w_log w2) = ?s" by simp
    have "reaches (scaleUpPVCs S c ?sel d) w2 (\<lambda>_ _. True)"
      using u selected_claims(1) [OF named] w2 by (intro scaleUpPVCs_reaches [OF ob]) simp_all
    then have "reaches (bindM (wrapM ''failed to delete Statefulset from Kubernetes API'' (deleteSts S c))
        (\<lambda>_. scaleUpPVCs S c ?sel d)) w1 (\<lambda>_ _. True)"
      using del by (intro reaches_bind reaches_wrap) (auto simp: reaches_def)
    with get False show ?thesis by (simp add: reaches_def growPVCs_def bindM_def Let_def)
  qed
qed

text \<open>The two requests a scaling refuses: persistent storage for an ephemeral cluster, and less.\<close>

definition acceptable :: "quantity \<Rightarrow> statefulSet \<Rightarrow> bool" where
  "acceptable d cur \<longleftrightarrow> (capacityLoop (st_VolumeClaimTemplates cur) = 0 \<longrightarrow> d = 0)
     \<and> \<not> d < capacityLoop (st_VolumeClaimTemplates cur)"

lemma Scale_reaches:
  assumes ob: "obliging S s0 st" and u: "usable (storeAfter st (w_log w))"
    and cur: "\<And>cur. heldAfter s0 (w_log w) (KStatefulSet, stsKey c) = Some (OStatefulSet cur)
      \<Longrightarrow> metaKey (st_Meta cur) = stsKey c \<and> acceptable d cur"
  shows "reaches (Scale S c d) w (\<lambda>_ _. True)"
proof -
  let ?q = "api_getSts S (stsKey c) (w_log w)"
  let ?w = "w\<lparr>w_log := w_log w @ [GetSts (stsKey c) ?q]\<rparr>"
  have grow: "reaches (growPVCs S c d) ?w (\<lambda>_ _. True)"
    using cur u by (intro growPVCs_reaches [OF ob]) (simp_all add: storeStep_other)
  note reply = obligingD(3) [OF ob, where k = "stsKey c" and l = "w_log w"]
  have "Scale S c d w = growPVCs S c d ?w"
  proof (cases "Option.bind (heldAfter s0 (w_log w) (KStatefulSet, stsKey c)) stsOf")
    case None
    with reply obtain m where "?q = Inl (ReasonNotFound, m)" by (auto elim: notFoundE)
    then show ?thesis by (simp add: Scale_def tryM_def run_existingCapacity isNotFound_def)
  next
    case (Some x)
    then have "heldAfter s0 (w_log w) (KStatefulSet, stsKey c) = Some (OStatefulSet x)"
      by (auto simp: bind_eq_Some_conv elim: stsOf.elims)
    with cur have "acceptable d x" by blast
    moreover have "?q = Inr x" using Some reply by simp
    ultimately show ?thesis by (auto simp: Scale_def tryM_def run_existingCapacity acceptable_def)
  qed
  with grow show ?thesis by (simp add: reaches_def)
qed

text \<open>Growing the volumes takes nothing from the store but the StatefulSet.\<close>

lemma scaleVolumes_drops:
  assumes "scaleVolumes R sts w = (r, w')"
  shows "heldAfter s0 (w_log w') i \<in> {None, heldAfter s0 (w_log w) i}"
proof -
  let ?P = "\<lambda>e. \<forall>s. afterEvent e s i \<in> {None, s i}"
  have del: "?P (DeleteSts k opts q)" for k opts q by (cases q) (simp_all add: afterEvent_def)
  have status: "afterEvent (UpdateClusterStatus c q) s = s" for c q s by (simp add: afterEvent_def)
  have "only ?P (scaleVolumes R sts)"
    unfolding scaleVolumes_def reconcilePVC_def Let_def
    by (intro only_intros del) (simp_all add: status)
  from only_runD [OF this assms] obtain es where es: "w_log w' = w_log w @ es" "list_all ?P es" by blast
  from es(2) have "heldAfter s es i \<in> {None, s i}" for s
  proof (induction es arbitrary: s)
    case (Cons e es)
    then have "heldAfter (afterEvent e s) es i \<in> {None, afterEvent e s i}" "afterEvent e s i \<in> {None, s i}" by simp_all
    then show ?case by auto
  qed simp
  with es(1) show ?thesis by simp
qed

lemma scaleVolumes_reaches:
  assumes ob: "obliging (rec_Client R) s0 st" and u: "usable (storeAfter st (w_log w))"
    and cur: "\<And>cur. heldAfter s0 (w_log w) (KStatefulSet, stsKey (w_rmq w)) = Some (OStatefulSet cur)
      \<Longrightarrow> metaKey (st_Meta cur) = stsKey (w_rmq w) \<and> acceptable (capacityLoop (st_VolumeClaimTemplates sts)) cur"
  shows "reaches (scaleVolumes R sts) w (\<lambda>res _. res = None)"
proof -
  let ?d = "capacityLoop (st_VolumeClaimTemplates sts)"
  have "reaches (Scale (rec_Client R) (w_rmq w) ?d) w (\<lambda>_ _. True)" by (rule Scale_reaches [OF ob u cur])
  then obtain w' where "Scale (rec_Client R) (w_rmq w) ?d w = (Ok (), w')" by (auto simp: reaches_def)
  then have "scaleVolumes R sts w = (Ok None, w')"
    by (simp add: scaleVolumes_def reconcilePVC_def persistenceStorageCapacity_def bindM_def tryM_def run_simps)
  then show ?thesis by (simp add: reaches_def)
qed

section \<open>The StatefulSet, then every builder\<close>

text \<open>
  The StatefulSet that is held is filed under its own name and can be brought to the one that
  is desired: no fewer replicas, and volumes the scaling accepts.
\<close>

definition growable :: "env \<Rightarrow> rabbitmqCluster \<Rightarrow> objectStore \<Rightarrow> bool" where
  "growable E c s \<longleftrightarrow> (\<forall>cur. s (KStatefulSet, stsKey c) = Some (OStatefulSet cur) \<longrightarrow>
     metaKey (st_Meta cur) = stsKey c
   \<and> (\<exists>new desired m n. builder_Build E c StatefulSetBuilder = Ok new
        \<and> builder_Update E c StatefulSetBuilder new = Ok (OStatefulSet desired)
        \<and> st_Replicas cur = Some m \<and> st_Replicas desired = Some n \<and> m \<le> n
        \<and> acceptable (capacityLoop (st_VolumeClaimTemplates desired)) cur))"

lemma recreateSts_reaches:
  assumes pass: "plainPass R (w_rmq w) s0" and ob: "obliging (rec_Client R) s0 st"
    and u: "usable (storeAfter st (w_log w))" and g: "growable (rec_env R) (w_rmq w) (heldAfter s0 (w_log w))"
    and new: "builder_Build (rec_env R) (w_rmq w) StatefulSetBuilder = Ok (w_resource w)"
    and upd: "builder_Update (rec_env R) (w_rmq w) StatefulSetBuilder (w_resource w) = Ok y"
  shows "reaches (recreateSts R StatefulSetBuilder) w (\<lambda>res w'. res = None
    \<and> (\<exists>z. builder_Update (rec_env R) (w_rmq w) StatefulSetBuilder (w_resource w') = Ok z)
    \<and> heldAfter s0 (w_log w') i \<in> {None, heldAfter s0 (w_log w) i})"
proof -
  let ?c = "w_rmq w" and ?f = "builder_Update (rec_env R) (w_rmq w) StatefulSetBuilder"
  from pass have own: "setsOwnerOnly (rec_env R)" and plain: "plainService (rec_env R) ?c" "plainSts (rec_env R) ?c"
    by (simp_all add: plainPass_def)
  obtain sts desired where sts: "w_resource w = OStatefulSet sts" and desired: "y = OStatefulSet desired"
    using upd by (cases "w_resource w") (auto simp: asStatefulSet_def)
  let ?q = "api_getSts (rec_Client R) (stsKey ?c) (w_log w)"
  let ?w = "w\<lparr>w_log := w_log w @ [GetSts (stsKey ?c) ?q]\<rparr>"
  have same: "heldAfter s0 (w_log ?w) = heldAfter s0 (w_log w)" "storeAfter st (w_log ?w) = storeAfter st (w_log w)"
    by (simp_all add: storeStep_other)
  note reply = obligingD(3) [OF ob, where k = "stsKey ?c" and l = "w_log w"]
  have "\<exists>x v. recreateSts R StatefulSetBuilder w = scaleVolumes R x v \<and> w_log v = w_log ?w \<and> w_rmq v = ?c
      \<and> (\<exists>z. ?f (w_resource v) = Ok z)
      \<and> (\<forall>cur. heldAfter s0 (w_log w) (KStatefulSet, stsKey ?c) = Some (OStatefulSet cur)
           \<longrightarrow> metaKey (st_Meta cur) = stsKey ?c \<and> acceptable (capacityLoop (st_VolumeClaimTemplates x)) cur)"
  proof (cases "Option.bind (heldAfter s0 (w_log w) (KStatefulSet, stsKey ?c)) stsOf")
    case None
    with reply obtain m where "?q = Inl (ReasonNotFound, m)" by (auto elim: notFoundE)
    then have "recreateSts R StatefulSetBuilder w = scaleVolumes R sts ?w"
      using sts by (simp add: recreateSts_def asStatefulSet_def bindM_def tryM_def run_simps isNotFound_def)
    with None upd show ?thesis by (intro exI [of _ sts] exI [of _ ?w]) auto
  next
    case (Some cur)
    then have held: "heldAfter s0 (w_log w) (KStatefulSet, stsKey ?c) = Some (OStatefulSet cur)"
      by (auto simp: bind_eq_Some_conv elim: stsOf.elims)
    with g new upd desired obtain m n where cur: "metaKey (st_Meta cur) = stsKey ?c" "st_Replicas cur = Some m"
      "st_Replicas desired = Some n" "m \<le> n" "acceptable (capacityLoop (st_VolumeClaimTemplates desired)) cur"
      unfolding growable_def by auto
    let ?v = "?w\<lparr>w_resource := OStatefulSet desired\<rparr>"
    have "scaleDown R cur desired ?v = (Ok False, ?v)" by (rule run_scaleDown(1) [OF cur(2,3,4)])
    moreover have "?q = Inr cur" using Some reply by simp
    ultimately have "recreateSts R StatefulSetBuilder w = scaleVolumes R desired ?v"
      using sts upd desired by (simp add: recreateSts_def asStatefulSet_def bindM_def tryM_def run_simps)
    moreover have "?f (OStatefulSet desired) = Ok (OStatefulSet desired)"
      using builder_fix [OF own plain upd] desired by simp
    ultimately show ?thesis using held cur by (intro exI [of _ desired] exI [of _ ?v]) simp
  qed
  then obtain x v where run: "recreateSts R StatefulSetBuilder w = scaleVolumes R x v" and v: "w_log v = w_log ?w" "w_rmq v = ?c"
    and z: "\<exists>z. ?f (w_resource v) = Ok z"
    and cur: "\<And>cur. heldAfter s0 (w_log w) (KStatefulSet, stsKey ?c) = Some (OStatefulSet cur)
      \<Longrightarrow> metaKey (st_Meta cur) = stsKey ?c \<and> acceptable (capacityLoop (st_VolumeClaimTemplates x)) cur" by blast
  have "reaches (scaleVolumes R x) v (\<lambda>res _. res = None)"
    using cur u same v by (intro scaleVolumes_reaches [OF ob]) simp_all
  then obtain w' where w': "scaleVolumes R x v = (Ok None, w')" by (auto simp: reaches_def)
  from scaleVolumes_None [OF w'] have "w_resource w' = w_resource v" by auto
  moreover from scaleVolumes_drops [OF w', of s0 i] v same have "heldAfter s0 (w_log w') i \<in> {None, heldAfter s0 (w_log w) i}" by simp
  ultimately show ?thesis using z run w' by (simp add: reaches_def)
qed

lemma reconcileBuilder_reaches:
  assumes pass: "plainPass R (w_rmq w) s0" and ob: "obliging (rec_Client R) s0 st"
    and able: "startable (rec_env R) (w_rmq w) (heldAfter s0 (w_log w)) b"
    and sts: "b = StatefulSetBuilder \<Longrightarrow> usable (storeAfter st (w_log w)) \<and> growable (rec_env R) (w_rmq w) (heldAfter s0 (w_log w))"
  shows "reaches (reconcileBuilder R b) w (\<lambda>res _. res = None)"
proof -
  let ?c = "w_rmq w" and ?f = "builder_Update (rec_env R) (w_rmq w) b" and ?i = "targetId (w_rmq w) b"
  from pass have own: "setsOwnerOnly (rec_env R)" by (simp add: plainPass_def)
  have keep: "keepsId ?f" using update_id [OF own] by (simp add: keepsId_def)
  from able obtain new y where new: "builder_Build (rec_env R) ?c b = Ok new" and upd: "?f new = Ok y"
    and old: "\<And>x. heldAfter s0 (w_log w) ?i = Some x \<Longrightarrow> \<exists>y. ?f x = Ok y" unfolding startable_def by blast
  let ?w = "w\<lparr>w_resource := new\<rparr>"
  let ?pre = "if UpdateMayRequireStsRecreate b then recreateSts R b else ret None"
  have "\<exists>w1. ?pre ?w = (Ok None, w1) \<and> worksOn ?i ?w w1 \<and> (\<exists>z. ?f (w_resource w1) = Ok z)
     \<and> heldAfter s0 (w_log w1) ?i \<in> {None, heldAfter s0 (w_log w) ?i}"
  proof (cases "b = StatefulSetBuilder")
    case True
    with recreateSts_reaches [of R ?w s0 st y ?i] pass ob sts new upd obtain w1 where
      w1: "recreateSts R b ?w = (Ok None, w1)" "\<exists>z. ?f (w_resource w1) = Ok z"
        "heldAfter s0 (w_log w1) ?i \<in> {None, heldAfter s0 (w_log w) ?i}" by (auto simp: reaches_def)
    with recreateSts_run [of R ?w b None w1 ?i] keep True show ?thesis by auto
  next
    case False
    then have "\<not> UpdateMayRequireStsRecreate b" by (cases b) simp_all
    with upd show ?thesis by (simp add: run_simps)
  qed
  then obtain w1 where pre: "?pre ?w = (Ok None, w1)" and on: "worksOn ?i ?w w1" and z: "\<exists>z. ?f (w_resource w1) = Ok z"
    and held: "heldAfter s0 (w_log w1) ?i \<in> {None, heldAfter s0 (w_log w) ?i}" by blast
  from on build_id [OF new] have w1: "w_rmq w1 = ?c" "objectId (w_resource w1) = ?i" by (simp_all add: worksOn_def)
  have "reaches (applyBuilder R b) w1 (\<lambda>res _. res = None)"
    using pass ob w1 z held old by (intro applyBuilder_reaches) auto
  with pre new show ?thesis
    by (auto simp: reaches_def reconcileBuilder_def orElse_def bindM_def tryM_def run_simps)
qed

text \<open>What a builder may meet is what it and no other builder leaves: the others keep their hands off.\<close>

lemma startable_same: "s' (targetId c b) = s (targetId c b) \<Longrightarrow> startable E c s' b \<longleftrightarrow> startable E c s b"
  by (simp add: startable_def)

lemma growable_same:
  "s' (targetId c StatefulSetBuilder) = s (targetId c StatefulSetBuilder) \<Longrightarrow> growable E c s' \<longleftrightarrow> growable E c s"
  by (simp add: growable_def targetId_def stsKey_def)

lemma applyBuilder_quiet:
  "documented (rec_Client R) \<Longrightarrow> only (\<lambda>e. \<not> isPVCUpdate e) (applyBuilder R b)"
  unfolding applyBuilder_def logAndRecordOperationResult_def Let_def
  by (intro only_intros) (simp_all add: isPVCUpdate_def)

lemmas applyBuilder_claims = quiet_store [OF applyBuilder_quiet]

lemma reconcileBuilder_claims:
  assumes "documented (rec_Client R)" and "b \<noteq> StatefulSetBuilder" and "reconcileBuilder R b w = (r, w')"
  shows "storeAfter st (w_log w') = storeAfter st (w_log w)"
proof -
  note app = applyBuilder_quiet [OF assms(1)]
  have "\<not> UpdateMayRequireStsRecreate b" using assms(2) by (cases b) simp_all
  then have "only (\<lambda>e. \<not> isPVCUpdate e) (reconcileBuilder R b)"
    unfolding reconcileBuilder_def orElse_def by (intro only_intros app) simp
  from quiet_store [OF this assms(3)] show ?thesis .
qed

lemma reconcileBuilders_reaches:
  assumes pass: "plainPass R c s0" and ob: "obliging (rec_Client R) s0 st"
    and "w_rmq w = c" and "distinct bs" and "list_all (startable (rec_env R) c (heldAfter s0 (w_log w))) bs"
    and "StatefulSetBuilder \<in> set bs \<Longrightarrow> usable (storeAfter st (w_log w)) \<and> growable (rec_env R) c (heldAfter s0 (w_log w))"
  shows "reaches (reconcileBuilders R bs) w (\<lambda>res _. res = None)"
  using assms(3-6)
proof (induction bs arbitrary: w)
  case Nil
  then show ?case by (simp add: reaches_ret)
next
  case (Cons b bs)
  from pass have docs: "documented (rec_Client R)" by (simp add: plainPass_def storeBacked_def)
  have "reaches (reconcileBuilder R b) w (\<lambda>res _. res = None)"
    using Cons.prems pass by (intro reconcileBuilder_reaches [OF _ ob]) auto
  then obtain w1 where run: "reconcileBuilder R b w = (Ok None, w1)" by (auto simp: reaches_def)
  from reconcileBuilder_stores [OF pass Cons.prems(1) run] have c1: "w_rmq w1 = c"
    and others: "\<And>b'. b' \<noteq> b \<Longrightarrow> heldAfter s0 (w_log w1) (targetId c b') = heldAfter s0 (w_log w) (targetId c b')"
    by simp_all
  have "list_all (startable (rec_env R) c (heldAfter s0 (w_log w1))) bs"
    unfolding list_all_iff
  proof
    fix b'
    assume b': "b' \<in> set bs"
    with Cons.prems(2) have "b' \<noteq> b" by auto
    from startable_same [of "heldAfter s0 (w_log w1)" c b' "heldAfter s0 (w_log w)", OF others [OF this]] Cons.prems(3) b' show "startable (rec_env R) c (heldAfter s0 (w_log w1)) b'"
      by (simp add: list_all_iff)
  qed
  moreover have "usable (storeAfter st (w_log w1)) \<and> growable (rec_env R) c (heldAfter s0 (w_log w1))"
    if "StatefulSetBuilder \<in> set bs"
  proof -
    from that Cons.prems(2) have b: "StatefulSetBuilder \<noteq> b" by auto
    from growable_same [of "heldAfter s0 (w_log w1)" c "heldAfter s0 (w_log w)", OF others [OF b]] reconcileBuilder_claims [OF docs _ run] b Cons.prems(4) that
    show ?thesis by auto
  qed
  ultimately have "reaches (reconcileBuilders R bs) w1 (\<lambda>res _. res = None)"
    using Cons.prems(2) by (intro Cons.IH [OF c1]) simp_all
  with run show ?case by (simp add: reaches_def orElse_def bindM_def)
qed

section \<open>What becomes of the volume claims\<close>

text \<open>The storage the cluster asks for is that of the StatefulSet that is built, and of its update.\<close>

definition askedStorage :: "rabbitmqCluster \<Rightarrow> quantity" where
  "askedStorage c = (case pe_Storage (spec_Persistence (rc_Spec c)) of None \<Rightarrow> 0 | Some q \<Rightarrow> q)"

lemma built_capacity:
  assumes own: "setsOwnerOnly E" and build: "StatefulSet_Build E c = Ok sts"
  shows "\<exists>q. pe_Storage (spec_Persistence (rc_Spec c)) = Some q \<and> capacityLoop (st_VolumeClaimTemplates sts) = q"
proof -
  from build obtain ts where ts: "persistentVolumeClaimTemplates E c = Ok ts" and same: "st_VolumeClaimTemplates sts = ts"
    by (cases "persistentVolumeClaimTemplates E c"; cases "ov_StatefulSet (spec_Override (rc_Spec c))")
       (auto simp: StatefulSet_Build_def Let_def split: option.splits if_splits)
  from ts obtain q where q: "pe_Storage (spec_Persistence (rc_Spec c)) = Some q"
    by (cases "pe_Storage (spec_Persistence (rc_Spec c))") (auto simp: persistentVolumeClaimTemplates_def)
  have "capacityLoop ts = q"
  proof (cases "q = 0")
    case True
    with ts q show ?thesis by (simp add: persistentVolumeClaimTemplates_def)
  next
    case False
    with ts q obtain m where m: "setOwner E c (pvc_Meta (claimTemplate c q)) = Ok m"
      and ts': "ts = [disableBlockOwnerDeletion ((claimTemplate c q)\<lparr>pvc_Meta := m\<rparr>)]"
      by (auto simp: persistentVolumeClaimTemplates_def Let_def)
    from own m have "m\<lparr>om_OwnerReferences := om_OwnerReferences (pvc_Meta (claimTemplate c q))\<rparr> = pvc_Meta (claimTemplate c q)"
      by (auto simp: setsOwnerOnly_def setOwner_def split: sum.splits)
    from arg_cong [OF this, of om_Name] have "om_Name m = ''persistence''" by (simp add: claimTemplate_def defaultPVCName_def)
    with ts' show ?thesis by (simp add: disableBlockOwnerDeletion_def claimTemplate_def mindex_def)
  qed
  with q same show ?thesis by simp
qed

lemma updated_capacity:
  assumes "updatePersistenceStorageCapacity ts (Some q) = Ok ts'" and "capacityLoop ts = q"
  shows "capacityLoop ts' = q"
proof -
  from capacity_Ok [OF assms(1)] have ts': "ts' = map (storageOf (Some q)) ts"
    and ok: "list_all (\<lambda>t. om_Name (pvc_Meta t) = ''persistence'' \<longrightarrow> pvc_Requests t \<noteq> None) ts"
    by (auto simp: list_all_iff)
  from ok assms(2) show ?thesis unfolding ts'
  proof (induction ts)
    case (Cons t ts)
    show ?case
    proof (cases "om_Name (pvc_Meta t) = ''persistence''")
      case True
      with Cons.prems show ?thesis by (auto simp: storageOf_def mindex_def mget_mput)
    next
      case False
      with Cons show ?thesis by simp
    qed
  qed simp
qed

lemma scaled_capacity:
  assumes own: "setsOwnerOnly E" and plain: "plainSts E c" and build: "builder_Build E c StatefulSetBuilder = Ok ob"
    and sts: "ob = OStatefulSet sts \<or> builder_Update E c StatefulSetBuilder ob = Ok (OStatefulSet sts)"
  shows "capacityLoop (st_VolumeClaimTemplates sts) = askedStorage c"
proof -
  from build obtain new where new: "StatefulSet_Build E c = Ok new" and ob: "ob = OStatefulSet new" by auto
  from built_capacity [OF own new] obtain q where q: "pe_Storage (spec_Persistence (rc_Spec c)) = Some q"
    and cap: "capacityLoop (st_VolumeClaimTemplates new) = q" by blast
  from sts ob have "sts = new \<or> StatefulSet_Update E c new = Ok sts" by (auto simp: asStatefulSet_def)
  then show ?thesis
  proof
    assume "StatefulSet_Update E c new = Ok sts"
    then have "updatePersistenceStorageCapacity (st_VolumeClaimTemplates new) (Some q) = Ok (st_VolumeClaimTemplates sts)"
      unfolding StatefulSet_Update_plain [OF plain] q by auto
    from updated_capacity [OF this cap] q show ?thesis by (simp add: askedStorage_def)
  qed (simp add: askedStorage_def q cap)
qed

lemma scaleVolumes_Scale:
  assumes "scaleVolumes R sts w = (Ok None, w')"
  shows "Scale (rec_Client R) (w_rmq w) (capacityLoop (st_VolumeClaimTemplates sts)) w = (Ok (), w')"
proof -
  let ?scale = "Scale (rec_Client R) (w_rmq w) (capacityLoop (st_VolumeClaimTemplates sts))"
  from assms show ?thesis unfolding scaleVolumes_def
  proof (cases rule: try_cases)
    case (val a w1)
    then have w1: "w1 = w'" by (simp add: run_simps)
    from val(1) have "tryM ?scale (case_sum
        (\<lambda>err. bindM (record_event EventTypeWarning ''FailedReconcilePersistence''
           (''Failed to scale PVCs: '' @ errString err)) (\<lambda>_. throw err)) ret) w = (Ok a, w1)"
      by (simp add: reconcilePVC_def persistenceStorageCapacity_def bindM_def run_simps)
    then show ?thesis
    proof (cases rule: try_cases)
      case (err e w2)
      then have False by (auto elim!: bind_OkD simp: run_simps)
      then show ?thesis ..
    qed (simp_all add: run_simps w1)
  qed (auto dest: setReconcileSuccess_Some)
qed

lemma reconcileSts_claims:
  assumes docs: "documented (rec_Client R)" and own: "setsOwnerOnly (rec_env R)" and plain: "plainSts (rec_env R) (w_rmq w)"
    and serves: "servesStore (rec_Client R) st" and named: "wellNamed (storeAfter st (w_log w))"
    and run: "reconcileBuilder R StatefulSetBuilder w = (Ok None, w')"
  shows "storeAfter st (w_log w') = grow (askedStorage (w_rmq w)) (claimKeys (w_rmq w)) (storeAfter st (w_log w))"
proof -
  let ?c = "w_rmq w" and ?s = "storeAfter st (w_log w)"
  obtain ob w1 where ob: "builder_Build (rec_env R) ?c StatefulSetBuilder = Ok ob"
    and pre: "recreateSts R StatefulSetBuilder (w\<lparr>w_resource := ob\<rparr>) = (Ok None, w1)"
    and ap: "applyBuilder R StatefulSetBuilder w1 = (Ok None, w')"
    by (rule reconcileBuilder_parts [OF run, unfolded UpdateMayRequireStsRecreate.simps(1) if_True])
  from recreateSts_scales [OF pre] obtain sts v q where
    scale: "scaleVolumes R sts v = (Ok None, w1)" and v: "w_rmq v = ?c" "w_log v = w_log w @ [GetSts (stsKey ?c) q]"
    and sts: "ob = OStatefulSet sts \<or> builder_Update (rec_env R) ?c StatefulSetBuilder ob = Ok (OStatefulSet sts)"
    by (simp del: builder_Update.simps) blast
  have sv: "storeAfter st (w_log v) = ?s" using v(2) by (simp add: storeStep_other)
  note d = scaled_capacity [OF own plain ob sts]
  from scaleVolumes_Scale [OF scale] v(1) d have "Scale (rec_Client R) ?c (askedStorage ?c) v = (Ok (), w1)" by simp
  from Scale_store [OF serves _ this] named sv
  have "storeAfter st (w_log w1) = grow (askedStorage ?c) (claimKeys ?c) ?s" by auto
  with applyBuilder_claims [OF docs ap, of st] show ?thesis by simp
qed

lemma reconcileBuilders_claims:
  assumes pass: "plainPass R c s0" and serves: "servesStore (rec_Client R) st"
    and "w_rmq w = c" and "distinct bs" and "wellNamed (storeAfter st (w_log w))"
    and "reconcileBuilders R bs w = (Ok None, w')"
  shows "storeAfter st (w_log w') = grow (askedStorage c) (if StatefulSetBuilder \<in> set bs then claimKeys c else {})
    (storeAfter st (w_log w))"
  using assms(3-6)
proof (induction bs arbitrary: w)
  case Nil
  then show ?case by (simp add: run_simps)
next
  case (Cons b bs)
  from pass have docs: "documented (rec_Client R)" and own: "setsOwnerOnly (rec_env R)" and plain: "plainSts (rec_env R) c"
    by (simp_all add: plainPass_def storeBacked_def)
  from Cons.prems(4) obtain pre w1 where run: "reconcileBuilder R b w = (Ok pre, w1)"
    and rest: "(case pre of Some early \<Rightarrow> ret (Some early) | None \<Rightarrow> reconcileBuilders R bs) w1 = (Ok None, w')"
    unfolding reconcileBuilders.simps orElse_def by (elim bind_OkD)
  from rest have none: "pre = None" and bs: "reconcileBuilders R bs w1 = (Ok None, w')"
    by (cases pre; simp add: run_simps)+
  note run = run [unfolded none]
  let ?K = "\<lambda>p. if p then claimKeys c else {}" and ?d = "askedStorage c" and ?s = "storeAfter st (w_log w)"
  have w1: "storeAfter st (w_log w1) = grow ?d (?K (b = StatefulSetBuilder)) ?s"
    using reconcileSts_claims [OF docs own _ serves Cons.prems(3)] reconcileBuilder_claims [OF docs _ run] run plain Cons.prems(1)
    by (cases "b = StatefulSetBuilder") auto
  from reconcileBuilder_stores [OF pass Cons.prems(1) run] have "w_rmq w1 = c" by simp
  from Cons.IH [OF this _ _ bs] Cons.prems(2,3) w1
  have "storeAfter st (w_log w') = grow ?d (?K (StatefulSetBuilder \<in> set bs)) (grow ?d (?K (b = StatefulSetBuilder)) ?s)" by simp
  with Cons.prems(2) show ?case by (auto simp: grow_grow)
qed

text \<open>
  C5. A pass over the builders succeeds. Against a server that keeps a store and accepts what it is
  sent, started where every builder can build its object and update what is held of it, the
  volume claims can be written and the StatefulSet that is held can be brought to the desired
  one without losing replicas or storage, the pass comes to its end with no error, no panic and
  no early return, also when volumes have to grow and the StatefulSet goes on the way. What it
  leaves satisfies every builder, and of the volume claims it has raised exactly those of the
  cluster that were smaller than the storage the cluster asks for.
\<close>

theorem pass_succeeds:
  assumes pass: "plainPass R (w_rmq w) s0" and ob: "obliging (rec_Client R) s0 st"
    and "list_all (startable (rec_env R) (w_rmq w) (heldAfter s0 (w_log w))) (ResourceBuilders (w_rmq w))"
    and "usable (storeAfter st (w_log w))" and "growable (rec_env R) (w_rmq w) (heldAfter s0 (w_log w))"
  shows "\<exists>w'. reconcileBuilders R (ResourceBuilders (w_rmq w)) w = (Ok None, w')
     \<and> list_all (satisfied R (w_rmq w) (heldAfter s0 (w_log w'))) (ResourceBuilders (w_rmq w))
     \<and> storeAfter st (w_log w') = grow (askedStorage (w_rmq w)) (claimKeys (w_rmq w)) (storeAfter st (w_log w))"
proof -
  from reconcileBuilders_reaches [OF pass ob refl builders_distinct assms(3)] assms(4,5) obtain w' where
    w': "reconcileBuilders R (ResourceBuilders (w_rmq w)) w = (Ok None, w')" by (auto simp: reaches_def)
  from assms(4) have "wellNamed (storeAfter st (w_log w))" by (simp add: usable_def)
  from reconcileBuilders_claims [OF pass obligingD(1) [OF ob] refl builders_distinct this w']
  have "storeAfter st (w_log w') = grow (askedStorage (w_rmq w)) (claimKeys (w_rmq w)) (storeAfter st (w_log w))"
    by (simp add: builders_mem)
  with reconcileBuilders_stores [OF pass refl w'] w' show ?thesis by (simp add: list_all_iff)
qed

section \<open>A cluster whose volumes must grow\<close>

text \<open>
  The cluster that has lost its headless service, with a volume claim that is too small: the pass
  deletes the StatefulSet, raises the claim and creates both objects.
\<close>

definition servingApi :: "objectStore \<Rightarrow> pvcStore \<Rightarrow> api" where
  "servingApi s0 st = withLibraries ((backedApi s0)\<lparr>api_getPVC := (\<lambda>k l. case storeAfter st l k of
     None \<Rightarrow> Inl (ReasonNotFound, ''not found'') | Some p \<Rightarrow> Inr p)\<rparr>)"

lemma servingApi_answers:
  "api_readObject (servingApi s0 st) = api_readObject (backedApi s0)"
  "api_getSts (servingApi s0 st) = api_getSts (backedApi s0)"
  "api_getConfigMap (servingApi s0 st) = api_getConfigMap (backedApi s0)"
  "api_createObject (servingApi s0 st) ob l = Inr ob" "api_updateObject (servingApi s0 st) ob l = Inr ob"
  "api_updateSts (servingApi s0 st) sts l = Inr sts" "api_updateConfigMap (servingApi s0 st) cm l = Inr cm"
  "api_deleteSts (servingApi s0 st) k opts l = Inr ()" "api_updatePVC (servingApi s0 st) ns p l = Inr p"
  by (simp_all add: servingApi_def backedApi_def withLibraries_def sampleBase_def)

lemma serving_obliges: "obliging (servingApi s0 st) s0 st"
proof -
  have "servesStore (servingApi s0 st) st"
    by (simp add: servesStore_def servingApi_def withLibraries_def)
  then show ?thesis
    unfolding obliging_def servingApi_answers
    by (auto simp: backedApi_def withLibraries_def absent_def split: option.splits object.splits)
qed

lemma serving_pass: "plainPass (sampleReconciler (servingApi s0 st)) sampleCluster s0"
proof -
  have docs: "documented (servingApi s0 st)" unfolding servingApi_def by (rule documented_withLibraries)
  have "storeBacked (servingApi s0 st) s0"
    using backedApi_backed [of s0] docs
    by (simp add: storeBacked_def readsStore_def storesAsSent_def namesKept_def servingApi_answers)
  with sample_pass [of s0] show ?thesis by (simp add: plainPass_def)
qed

lemma stored_fix: "builder_Update sampleEnv sampleCluster b (stored b) = Ok (stored b)"
proof -
  obtain ob y where ob: "builder_Build sampleEnv sampleCluster b = Ok ob" and y: "builder_Update sampleEnv sampleCluster b ob = Ok y"
    using sample_built by blast
  from ready_fix [OF builder_fix [OF sampleEnv_owner sample_plain y]] ob y show ?thesis by (simp add: stored_def)
qed

lemma lost_held: "lostStore (targetId sampleCluster b) = Some x \<Longrightarrow> x = stored b"
  by (auto simp: lostStore_def Reconcile_Converge.sampleStore_def find_Some_iff split: if_splits dest: targetId_inj)

lemma lost_startable: "list_all (startable sampleEnv sampleCluster lostStore) bs"
  using sample_built stored_fix lost_held by (fastforce simp: list_all_iff startable_def)

lemma lost_growable: "growable sampleEnv sampleCluster lostStore"
  unfolding growable_def
proof (intro allI impI)
  fix cur
  have sts: "targetId sampleCluster StatefulSetBuilder = (KStatefulSet, stsKey sampleCluster)"
    by (simp add: targetId_def stsKey_def)
  assume "lostStore (KStatefulSet, stsKey sampleCluster) = Some (OStatefulSet cur)"
  with lost_held [of StatefulSetBuilder] sts have cur: "stored StatefulSetBuilder = OStatefulSet cur" by simp
  then have "cur = settledSts" by (simp add: settledSts_def)
  with sample_settled [of "[]"] have m: "matchingSts (sampleReconciler settledApi) sampleCluster [] cur" by (simp add: settled_def)
  from m obtain new desired where "builder_Build sampleEnv sampleCluster StatefulSetBuilder = Ok new"
    "builder_Update sampleEnv sampleCluster StatefulSetBuilder new = Ok (OStatefulSet desired)"
    "st_Replicas desired = st_Replicas cur"
    "capacityLoop (st_VolumeClaimTemplates desired) = capacityLoop (st_VolumeClaimTemplates cur)"
    unfolding matchingSts_def sampleReconciler_def by auto
  moreover from matching_replicas [OF m] obtain n where "st_Replicas cur = Some n" by blast
  moreover from stored_id [of StatefulSetBuilder] cur sts have "metaKey (st_Meta cur) = stsKey sampleCluster"
    by (simp add: objectId_def)
  ultimately show "metaKey (st_Meta cur) = stsKey sampleCluster
    \<and> (\<exists>new desired m n. builder_Build sampleEnv sampleCluster StatefulSetBuilder = Ok new
        \<and> builder_Update sampleEnv sampleCluster StatefulSetBuilder new = Ok (OStatefulSet desired)
        \<and> st_Replicas cur = Some m \<and> st_Replicas desired = Some n \<and> m \<le> n
        \<and> acceptable (capacityLoop (st_VolumeClaimTemplates desired)) cur)"
    by (auto simp: acceptable_def)
qed

theorem pass_succeeds_witness:
  "\<exists>w'. reconcileBuilders (sampleReconciler (servingApi lostStore Scaling.sampleStore)) (ResourceBuilders sampleCluster) sampleWorld
       = (Ok None, w')
     \<and> list_all (satisfied (sampleReconciler (servingApi lostStore Scaling.sampleStore)) sampleCluster (heldAfter lostStore (w_log w')))
         (ResourceBuilders sampleCluster)
     \<and> storeAfter Scaling.sampleStore (w_log w') (''ns'', PVCName sampleCluster 0) = Some (raise (units 10) (claimOf 0 1))"
proof -
  let ?R = "sampleReconciler (servingApi lostStore Scaling.sampleStore)"
  have env: "rec_env ?R = sampleEnv" "rec_Client ?R = servingApi lostStore Scaling.sampleStore" by (simp_all add: sampleReconciler_def)
  have "usable Scaling.sampleStore"
    using store_named by (auto simp: usable_def Scaling.sampleStore_def claimOf_def)
  with pass_succeeds [of ?R sampleWorld lostStore Scaling.sampleStore] serving_pass serving_obliges lost_startable lost_growable
  obtain w' where w': "reconcileBuilders ?R (ResourceBuilders sampleCluster) sampleWorld = (Ok None, w')"
    "list_all (satisfied ?R sampleCluster (heldAfter lostStore (w_log w'))) (ResourceBuilders sampleCluster)"
    "storeAfter Scaling.sampleStore (w_log w') = grow (askedStorage sampleCluster) (claimKeys sampleCluster) Scaling.sampleStore"
    by (auto simp: env)
  have "askedStorage sampleCluster = units 10" by (simp add: askedStorage_def sampleCluster_def sampleSpec_def)
  moreover have "(''ns'', PVCName sampleCluster 0) \<in> claimKeys sampleCluster"
    unfolding claimKeys_def
    by (rule image_eqI [of _ _ 0]) (simp_all add: replicasOrOne_def sampleCluster_def sampleSpec_def)
  moreover have "storage (claimOf 0 1) < units 10" by (simp add: claimOf_def mindex_def)
  ultimately show ?thesis using w' by (simp add: grow_def Scaling.sampleStore_def)
qed

end
