(* ===== verification/Maintaining.thy ===== *)
theory Maintaining
  imports Reconcile_Gate
begin

text \<open>
  Invariants of the memory of a pass. \<open>maintains I P m\<close> says that a run of \<open>m\<close> from a
  cluster and an object being built with \<open>I\<close> ends with such and leaves only events with
  \<open>P\<close>; there is one rule for each way to build a program.
\<close>

section \<open>Maintaining an invariant\<close>

definition maintains :: "(rabbitmqCluster \<Rightarrow> object \<Rightarrow> bool) \<Rightarrow> (event \<Rightarrow> bool) \<Rightarrow> 'a prog \<Rightarrow> bool" where
  "maintains I P m \<longleftrightarrow> (\<forall>w r w'. m w = (r, w') \<longrightarrow> I (w_rmq w) (w_resource w) \<longrightarrow>
     I (w_rmq w') (w_resource w') \<and> (\<exists>es. w_log w' = w_log w @ es \<and> list_all P es))"

named_theorems maintain_intros

lemma maintainsI:
  "(\<And>w r w'. m w = (r, w') \<Longrightarrow> I (w_rmq w) (w_resource w) \<Longrightarrow> I (w_rmq w') (w_resource w') \<and> (\<exists>es. w_log w' = w_log w @ es \<and> list_all P es))
    \<Longrightarrow> maintains I P m"
  unfolding maintains_def by blast

lemma maintainsD:
  "maintains I P m \<Longrightarrow> m w = (r, w') \<Longrightarrow> I (w_rmq w) (w_resource w)
    \<Longrightarrow> I (w_rmq w') (w_resource w') \<and> (\<exists>es. w_log w' = w_log w @ es \<and> list_all P es)"
  unfolding maintains_def by blast

lemma maintains_quiet: "logsOnly m \<Longrightarrow> only P m \<Longrightarrow> maintains I P m"
  by (rule maintainsI) (auto dest!: logsOnly_run only_runD)

lemma maintains_then:
  assumes "I (w_rmq w1) (w_resource w1) \<and> (\<exists>es. w_log w1 = w_log w @ es \<and> list_all P es)"
    and "maintains I P m" and "m w1 = (r, w2)"
  shows "I (w_rmq w2) (w_resource w2) \<and> (\<exists>es. w_log w2 = w_log w @ es \<and> list_all P es)"
proof -
  from assms maintainsD obtain es fs where "w_log w1 = w_log w @ es" "list_all P es"
    "I (w_rmq w2) (w_resource w2)" "w_log w2 = w_log w1 @ fs" "list_all P fs" by metis
  then show ?thesis by (intro conjI exI [of _ "es @ fs"]) simp_all
qed

lemma maintains_bind [maintain_intros]:
  assumes "maintains I P m" and "\<And>a. maintains I P (f a)"
  shows "maintains I P (bindM m f)"
proof (rule maintainsI)
  fix w r w2
  assume run: "bindM m f w = (r, w2)" and I: "I (w_rmq w) (w_resource w)"
  from run show "I (w_rmq w2) (w_resource w2) \<and> (\<exists>es. w_log w2 = w_log w @ es \<and> list_all P es)"
  proof (cases rule: bind_cases)
    case (val a w1)
    from maintains_then [OF maintainsD [OF assms(1) val(1) I] assms(2) val(2)] show ?thesis .
  qed (use maintainsD [OF assms(1) _ I] in blast)+
qed

lemma maintains_get:
  assumes "\<And>c ob. I c ob \<Longrightarrow> maintains I P (f c)"
  shows "maintains I P (bindM getRmq f)"
  by (rule maintainsI) (use assms in \<open>auto simp: bindM_def run_simps dest: maintainsD\<close>)

lemma maintains_try [maintain_intros]:
  assumes "maintains I P m" and "\<And>r. maintains I P (g r)"
  shows "maintains I P (tryM m g)"
proof (rule maintainsI)
  fix w r w2
  assume run: "tryM m g w = (r, w2)" and I: "I (w_rmq w) (w_resource w)"
  from run show "I (w_rmq w2) (w_resource w2) \<and> (\<exists>es. w_log w2 = w_log w @ es \<and> list_all P es)"
  proof (cases rule: try_cases)
    case (val a w1)
    from maintains_then [OF maintainsD [OF assms(1) val(1) I] assms(2) val(2)] show ?thesis .
  next
    case (err e w1)
    from maintains_then [OF maintainsD [OF assms(1) err(1) I] assms(2) err(2)] show ?thesis .
  qed (use maintainsD [OF assms(1) _ I] in blast)
qed

lemma maintains_silent [maintain_intros]:
  "maintains I P (ret a)" "maintains I P (throw e)" "maintains I P (fromOutcome p)" "maintains I P getRmq"
  "maintains I P getResource" "maintains I P getOperationResult"
  "maintains I P (setOperationResult res)"
  by (rule maintainsI; force simp: run_simps)+

lemma maintains_modify [maintain_intros]:
  "(\<And>c ob. I c ob \<Longrightarrow> I (f c) ob) \<Longrightarrow> maintains I P (modifyRmq f)"
  "(\<And>c ob. I c ob \<Longrightarrow> I c ob') \<Longrightarrow> maintains I P (setResource ob')"
  by (rule maintainsI; auto simp: run_simps)+

lemma maintains_splits [maintain_intros]:
  "(b \<Longrightarrow> maintains I P m) \<Longrightarrow> (\<not> b \<Longrightarrow> maintains I P m') \<Longrightarrow> maintains I P (if b then m else m')"
  "(x = None \<Longrightarrow> maintains I P n) \<Longrightarrow> (\<And>y. x = Some y \<Longrightarrow> maintains I P (s y)) \<Longrightarrow> maintains I P (case_option n s x)"
  "(\<And>e. t = Inl e \<Longrightarrow> maintains I P (f e)) \<Longrightarrow> (\<And>y. t = Inr y \<Longrightarrow> maintains I P (g y)) \<Longrightarrow> maintains I P (case_sum f g t)"
  "(\<And>a b. p = (a, b) \<Longrightarrow> maintains I P (h a b)) \<Longrightarrow> maintains I P (case_prod h p)"
  by (simp, cases x, simp_all, cases t, simp_all, cases p, simp)

lemma maintains_checked [maintain_intros]:
  "maintains I P m \<Longrightarrow> (\<And>a. maintains I P (k a)) \<Longrightarrow> maintains I P (checked d m k)"
  unfolding checked_def by (intro maintain_intros)

lemma maintains_when [maintain_intros]: "maintains I P m \<Longrightarrow> maintains I P (whenM b m)"
  unfolding whenM_def by (intro maintain_intros)

lemma maintains_onError [maintain_intros]:
  assumes "documented S" and "maintains I P m"
  shows "maintains I P (lib_onError S Q m)"
proof -
  have "maintains I P (attempts n Q m)" for n
    by (induction n) (auto intro!: maintain_intros assms(2))
  then show ?thesis using documentedD(5) [OF assms(1), of Q m] by auto
qed

lemma maintains_objectCalls [maintain_intros]:
  "(\<And>r. P (ReadObject i r)) \<Longrightarrow> maintains I P (readObject S i)"
  "(\<And>r. P (CreateObject ob r)) \<Longrightarrow> maintains I P (createObject S ob)"
  "(\<And>r. P (UpdateObject ob r)) \<Longrightarrow> maintains I P (updateObject S ob)"
  by (rule maintainsI; auto simp: run_objectCalls)+

text \<open>An invariant that does not depend on the object being built survives \<^verbatim>\<open>CreateOrUpdate\<close>.\<close>

lemma maintains_createOrUpdate:
  assumes "documented S" and free: "\<And>c ob ob'. I c ob \<Longrightarrow> I c ob'"
    and "\<And>i r. P (ReadObject i r)" and "\<And>ob r. P (CreateObject ob r)" and "\<And>ob r. P (UpdateObject ob r)"
  shows "maintains I P (lib_createOrUpdate S f)"
  unfolding documentedD(6) [OF assms(1)] documentedCreateOrUpdate_def mutateResource_def
  by (intro maintain_intros assms(3-5); rule free)

lemma maintains_call: "(\<And>r. P (ev r)) \<Longrightarrow> maintains I P (call ask ev)"
  by (intro maintains_quiet frame_intros only_intros)

lemma maintains_emit [maintain_intros]:
  "P (Recorded ty reason msg) \<Longrightarrow> maintains I P (record_event ty reason msg)"
  "P (Sleep n) \<Longrightarrow> maintains I P (sleep n)" "(\<And>t. P (Clock t)) \<Longrightarrow> maintains I P (now S)"
  by (intro maintains_quiet frame_intros only_intros; simp)+

lemma maintains_wrap [maintain_intros]: "maintains I P m \<Longrightarrow> maintains I P (wrapM msg m)"
  by (rule maintainsI) (auto simp: wrapM_def split: prod.splits dest: maintainsD)

lemma maintains_forEach: "(\<And>x. x \<in> set xs \<Longrightarrow> maintains I P (f x)) \<Longrightarrow> maintains I P (forEach f xs)"
  by (induction xs) (auto intro!: maintain_intros)

text \<open>A part of the program may keep more, once an object is being built.\<close>

lemma maintains_building:
  assumes "maintains J P m" and "\<And>c x. I c x \<Longrightarrow> J c ob" and "\<And>c x. J c x \<Longrightarrow> I c x"
  shows "maintains I P (bindM (setResource ob) (\<lambda>_. m))"
  by (rule maintainsI) (use assms in \<open>auto simp: bindM_def run_simps dest!: maintainsD\<close>)

section \<open>What is known of a result\<close>

text \<open>Every value \<open>m\<close> returns has \<open>Q\<close>.\<close>

definition yields :: "(rabbitmqCluster \<Rightarrow> object \<Rightarrow> bool) \<Rightarrow> ('a \<Rightarrow> bool) \<Rightarrow> 'a prog \<Rightarrow> bool" where
  "yields I Q m \<longleftrightarrow> (\<forall>w a w'. I (w_rmq w) (w_resource w) \<longrightarrow> m w = (Ok a, w') \<longrightarrow> Q a)"

lemma yieldsD: "yields I Q m \<Longrightarrow> I (w_rmq w) (w_resource w) \<Longrightarrow> m w = (Ok a, w') \<Longrightarrow> Q a"
  unfolding yields_def by blast

lemma yields_call: "(\<And>l x. ask l = Inr x \<Longrightarrow> Q x) \<Longrightarrow> yields I Q (call ask ev)"
  by (auto simp: yields_def run_call)

lemma yields_get: "(\<And>c ob. I c ob \<Longrightarrow> yields I Q (f c)) \<Longrightarrow> yields I Q (bindM getRmq f)"
  by (auto simp: yields_def bindM_def run_simps)

lemma yields_wrap: "yields I Q m \<Longrightarrow> yields I Q (wrapM msg m)"
  unfolding yields_def wrapM_def by (auto split: prod.splits)

lemma yields_from: "(\<And>x. p = Ok x \<Longrightarrow> Q x) \<Longrightarrow> yields I Q (fromOutcome p)"
  "(\<And>c ob. I c ob \<Longrightarrow> Q' ob) \<Longrightarrow> yields I Q' getResource"
  by (auto simp: yields_def run_simps)

lemma yields_silent: "yields I Q (throw e)" "Q a \<Longrightarrow> yields I Q (ret a)"
  by (simp_all add: yields_def run_simps)

lemma yields_trying:
  assumes "maintains I P m" and "yields I Q m" and "\<And>e. yields I Q' (f e)" and "\<And>a. Q a \<Longrightarrow> yields I Q' (g a)"
  shows "yields I Q' (tryM m (case_sum f g))"
  unfolding yields_def
proof (intro allI impI)
  fix w b w2
  assume I: "I (w_rmq w) (w_resource w)" and run: "tryM m (case_sum f g) w = (Ok b, w2)"
  from run show "Q' b"
  proof (cases rule: try_cases)
    case (val a w1)
    from yieldsD [OF assms(2) I val(1)] have "Q a" .
    from assms(4) [OF this] val maintainsD [OF assms(1) val(1) I] show ?thesis by (auto simp: yields_def)
  next
    case (err e w1)
    with assms(3) maintainsD [OF assms(1) err(1) I] show ?thesis by (auto simp: yields_def)
  qed simp
qed

lemma maintains_knowing:
  assumes "maintains I P m" and "yields I Q m" and "\<And>a. Q a \<Longrightarrow> maintains I P (f a)"
  shows "maintains I P (bindM m f)"
proof (rule maintainsI)
  fix w r w2
  assume run: "bindM m f w = (r, w2)" and I: "I (w_rmq w) (w_resource w)"
  from run show "I (w_rmq w2) (w_resource w2) \<and> (\<exists>es. w_log w2 = w_log w @ es \<and> list_all P es)"
  proof (cases rule: bind_cases)
    case (val a w1)
    with assms(2) I have "Q a" unfolding yields_def by blast
    from maintains_then [OF maintainsD [OF assms(1) val(1) I] assms(3) [OF this] val(2)] show ?thesis .
  qed (use maintainsD [OF assms(1) _ I] in blast)+
qed

lemma maintains_trying:
  assumes "maintains I P m" and "yields I Q m"
    and "\<And>e. maintains I P (f e)" and "\<And>a. Q a \<Longrightarrow> maintains I P (g a)"
  shows "maintains I P (tryM m (case_sum f g))"
proof (rule maintainsI)
  fix w r w2
  assume run: "tryM m (case_sum f g) w = (r, w2)" and I: "I (w_rmq w) (w_resource w)"
  from run show "I (w_rmq w2) (w_resource w2) \<and> (\<exists>es. w_log w2 = w_log w @ es \<and> list_all P es)"
  proof (cases rule: try_cases)
    case (val a w1)
    with assms(2) I have "Q a" unfolding yields_def by blast
    with val(2) maintains_then [OF maintainsD [OF assms(1) val(1) I] assms(4)] show ?thesis by simp
  next
    case (err e w1)
    with maintains_then [OF maintainsD [OF assms(1) err(1) I] assms(3)] show ?thesis by simp
  qed (use maintainsD [OF assms(1) _ I] in blast)
qed

end
