(* ===== verification/Reconcile_Invariant.thy ===== *)
theory Reconcile_Invariant
  imports Maintaining
begin

text \<open>
  An invariant of the cluster in memory, by the rules of \<open>Maintaining\<close>: the shape of the
  status conditions.
\<close>

section \<open>The status conditions\<close>

definition conditionTypes :: "rabbitmqCluster \<Rightarrow> conditionType list" where
  "conditionTypes c = map cond_Type (cst_Conditions (rc_Status c))"

text \<open>The four conditions of the operator, once each and in order.\<close>

definition typed :: "rabbitmqCluster \<Rightarrow> bool" where
  "typed c \<longleftrightarrow> conditionTypes c = [AllReplicasReady, ClusterAvailable, NoWarnings, ReconcileSuccess]"

definition typedStatus :: "event \<Rightarrow> bool" where
  "typedStatus e = (case e of UpdateClusterStatus c r \<Rightarrow> typed c | _ \<Rightarrow> True)"

text \<open>A server that keeps the conditions it is sent, whatever else of the resource it changes.\<close>

definition keepsConditions :: "api \<Rightarrow> bool" where
  "keepsConditions S \<longleftrightarrow> (\<forall>c l d. api_updateCluster S c l = Inr d \<or> api_updateStatus S c l = Inr d
     \<longrightarrow> conditionTypes d = conditionTypes c)"

lemma typedStatus_others [simp]:
  "typedStatus (Clock t)" "typedStatus (Sleep n)" "typedStatus (Recorded ty reason msg)"
  "typedStatus (GetCluster k r1)" "typedStatus (UpdateCluster c r1)" "typedStatus (GetSts k r2)"
  "typedStatus (UpdateSts s r2)" "typedStatus (DeleteSts k opts u)" "typedStatus (GetConfigMap k r3)"
  "typedStatus (UpdateConfigMap cm r3)" "typedStatus (GetSecret k r4)" "typedStatus (GetEndpoints k r5)"
  "typedStatus (ListPods sel r6)" "typedStatus (UpdatePod p r7)" "typedStatus (GetPVC k r8)" "typedStatus (UpdatePVC ns p' r8)"
  "typedStatus (ReadObject i r9)" "typedStatus (CreateObject ob r9)" "typedStatus (UpdateObject ob r9)"
  "typedStatus (Exec k con cmd u)"
  by (simp_all add: typedStatus_def)

lemma typedStatus_update [simp]: "typedStatus (UpdateClusterStatus c r) = typed c"
  by (simp add: typedStatus_def)

lemma typed_cong: "conditionTypes c = conditionTypes d \<Longrightarrow> typed c \<longleftrightarrow> typed d"
  by (simp add: typed_def)

lemma types_SetCondition [simp]:
  "map cond_Type (cst_Conditions (SetCondition t ty st reason msgs s)) = map cond_Type (cst_Conditions s)"
proof -
  have "map cond_Type (setFirst ty f cs) = map cond_Type cs" if "\<And>c. cond_Type (f c) = cond_Type c" for f cs
    using that by (induction cs) auto
  then show ?thesis by (simp add: SetCondition_def UpdateReason_def UpdateState_def Let_def)
qed

lemma typed_changes [simp]:
  "typed (c\<lparr>rc_Meta := m\<rparr>) = typed c" "typed (c\<lparr>rc_Spec := s\<rparr>) = typed c"
  "typed (c\<lparr>rc_Status := (rc_Status c)\<lparr>cst_ObservedGeneration := g\<rparr>\<rparr>) = typed c"
  "typed (c\<lparr>rc_Status := (rc_Status c)\<lparr>cst_DefaultUser := u, cst_Binding := b\<rparr>\<rparr>) = typed c"
  "typed (c\<lparr>rc_Status := SetCondition t ty st reason msgs (rc_Status c)\<rparr>) = typed c"
  by (simp_all add: typed_def conditionTypes_def)

abbreviation keepsTyped :: "'a prog \<Rightarrow> bool" where
  "keepsTyped \<equiv> maintains (\<lambda>c ob. typed c) typedStatus"

lemma updates_typed [maintain_intros]:
  assumes "keepsConditions S"
  shows "keepsTyped (updateStatus S)" "keepsTyped (updateCluster S)"
proof -
  note keep = assms [unfolded keepsConditions_def, rule_format]
  show "keepsTyped (updateStatus S)"
  proof (rule maintainsI)
    fix w r w'
    assume run: "updateStatus S w = (r, w')" and I: "typed (w_rmq w)"
    show "typed (w_rmq w') \<and> (\<exists>es. w_log w' = w_log w @ es \<and> list_all typedStatus es)"
    proof (cases "api_updateStatus S (w_rmq w) (w_log w)")
      case (Inr d)
      with keep [of "w_rmq w" "w_log w" d] I have "typed d" using typed_cong by blast
      with run Inr I show ?thesis by (auto simp: run_simps)
    next
      case (Inl x)
      with run I show ?thesis by (cases x) (auto simp: run_simps)
    qed
  qed
  show "keepsTyped (updateCluster S)"
  proof (rule maintainsI)
    fix w r w'
    assume run: "updateCluster S w = (r, w')" and I: "typed (w_rmq w)"
    show "typed (w_rmq w') \<and> (\<exists>es. w_log w' = w_log w @ es \<and> list_all typedStatus es)"
    proof (cases "api_updateCluster S (w_rmq w) (w_log w)")
      case (Inr d)
      with keep [of "w_rmq w" "w_log w" d] I have "typed d" using typed_cong by blast
      with run Inr show ?thesis by (auto simp: run_simps)
    next
      case (Inl x)
      with run I show ?thesis by (cases x) (auto simp: run_simps)
    qed
  qed
qed

lemma calls_typed [maintain_intros]:
  "keepsTyped (getStatefulSet S k)" "keepsTyped (now S)" "keepsTyped (record_event ty reason msg)"
  "keepsTyped (statefulSet R)" "keepsTyped (configMap R name)" "keepsTyped (timeStamp R)"
  by (rule maintains_quiet; (intro frame_intros)?; (intro only_intros)?; simp)+

lemma conditions_typed [maintain_intros]:
  assumes "keepsConditions (rec_Client R)"
  shows "keepsTyped (updateStatusOrLog R)" "keepsTyped (setCondition R ty st reason msgs)"
    "keepsTyped (setReconcileSuccess R st reason msg)"
proof -
  show log: "keepsTyped (updateStatusOrLog R)" unfolding updateStatusOrLog_def by (intro maintain_intros assms)
  show set: "keepsTyped (setCondition R ty st reason msgs)" for ty st reason msgs
    unfolding setCondition_def modifyStatus_def by (intro maintain_intros) simp
  show "keepsTyped (setReconcileSuccess R st reason msg)" unfolding setReconcileSuccess_def by (intro maintain_intros log set)
qed

lemma quiet_typed [maintain_intros]:
  "documented (rec_Client R) \<Longrightarrow> keepsTyped (annotateIfNeeded R b res)"
  "documented (rec_Client R) \<Longrightarrow> keepsTyped (restartStatefulSetIfNeeded R)"
  "keepsTyped (reconcilePVC R sts)" "keepsTyped (logAndRecordOperationResult ob res err)"
  "keepsTyped (checkTLSSecrets R)" "keepsTyped (tlsError msg)"
proof -
  show "documented (rec_Client R) \<Longrightarrow> keepsTyped (annotateIfNeeded R b res)"
    "documented (rec_Client R) \<Longrightarrow> keepsTyped (restartStatefulSetIfNeeded R)"
    by (rule maintains_quiet; (intro frame_intros; assumption)?; (intro only_intros; simp)?)+
  show "keepsTyped (reconcilePVC R sts)"
    by (rule maintains_quiet, intro frame_intros) (unfold reconcilePVC_def Let_def, intro only_intros; simp)
  show "keepsTyped (logAndRecordOperationResult ob res err)"
    by (rule maintains_quiet, intro frame_intros) (unfold logAndRecordOperationResult_def Let_def, intro only_intros; simp)
  show "keepsTyped (checkTLSSecrets R)"
    by (rule maintains_quiet, intro frame_intros tls_logsOnly)
       (unfold checkTLSSecrets_def getTLSSecret_def requireKeys_def tlsError_def Let_def, intro only_intros; simp)
  show "keepsTyped (tlsError msg)"
    unfolding tlsError_def by (intro maintain_intros)
qed

section \<open>Each part keeps them\<close>

lemma tls_typed: "keepsConditions (rec_Client R) \<Longrightarrow> keepsTyped (reconcileTLS R)"
  unfolding reconcileTLS_def by (intro maintain_intros)

lemma scaleDown_typed: "keepsConditions (rec_Client R) \<Longrightarrow> keepsTyped (scaleDown R current sts)"
  unfolding scaleDown_def Let_def by (intro maintain_intros)

lemma builders_typed:
  assumes "documented (rec_Client R)" and "keepsConditions (rec_Client R)"
  shows "keepsTyped (reconcileBuilders R bs)"
proof (induction bs)
  case Nil
  show ?case unfolding reconcileBuilders.simps by (intro maintain_intros)
next
  case (Cons b bs)
  then show ?case
    unfolding reconcileBuilders.simps orElse_def reconcileBuilder_def recreateSts_def scaleVolumes_def applyBuilder_def
    by (intro maintain_intros maintains_createOrUpdate scaleDown_typed assms; simp)
qed

lemma status_typed: "keepsConditions (rec_Client R) \<Longrightarrow> keepsTyped (reconcileStatus R)"
  unfolding reconcileStatus_def modifyStatus_def by (intro maintain_intros) simp_all

lemma rebalance_typed: "keepsConditions (rec_Client R) \<Longrightarrow> keepsTyped (markForQueueRebalance R)"
  unfolding markForQueueRebalance_def modifyMeta_def by (intro maintain_intros) simp_all

lemma cli_typed:
  assumes "keepsConditions (rec_Client R)"
  shows "keepsTyped (runRabbitmqCLICommandsIfAnnotated R)"
proof -
  have pod: "keepsTyped (runInPod R c cmd msg i)" for c cmd msg i
    by (rule maintains_quiet, intro frame_intros) (intro only_intros; simp)
  have rebalance: "keepsTyped (runQueueRebalanceCommand R)"
    unfolding runQueueRebalanceCommand_def
  proof (rule maintains_get)
    fix c and ob :: object assume "typed c"
    then show "keepsTyped (bindM (runInPod R c [''sh'', ''-c'', ''rabbitmq-queues rebalance all'']
        ''failed to run queue rebalance on pod'' 0) (\<lambda>_. deleteAnnotation (rmqObject (rec_Client R)) c queueRebalanceAnnotation))"
      unfolding deleteAnnotation_def Let_def
      by (intro maintain_intros pod; simp add: rmqObject_def; intro maintain_intros assms; simp)
  qed
  have set: "keepsTyped (runSetPluginsCommand R cfg)" "keepsTyped (runEnableFeatureFlagsCommand R sts)"
for cfg sts
    by (rule maintains_quiet, intro frame_intros,
        unfold runSetPluginsCommand_def runEnableFeatureFlagsCommand_def,
        intro only_intros deleteAnnotation_only; simp)+
  have recent: "keepsTyped (pluginsConfigUpdatedRecently R ocfg)" for ocfg
    by (rule maintains_quiet, intro frame_intros) (intro only_intros; simp)
  show ?thesis
    unfolding runRabbitmqCLICommandsIfAnnotated_def runPendingCommands_def
    by (intro maintain_intros set recent rebalance)
qed

lemma children_typed:
  assumes "documented (rec_Client R)" and "keepsConditions (rec_Client R)"
  shows "keepsTyped (markThenChildren R)"
proof -
  have "keepsTyped (finishReconcile R)"
    unfolding finishReconcile_def by (intro maintain_intros cli_typed assms) simp
  then have "keepsTyped (reconcileChildren R)"
    unfolding reconcileChildren_def unlessRequeued_def
    by (intro maintain_intros builders_typed status_typed assms)
  then show ?thesis unfolding markThenChildren_def by (intro maintain_intros rebalance_typed assms)
qed

section \<open>Every status sent has the four conditions\<close>

lemma getChild_run:
  "getChildResources R w = (r, w') \<Longrightarrow> w_rmq w' = w_rmq w \<and> (\<exists>es. w_log w' = w_log w @ es \<and> list_all typedStatus es)"
proof -
  assume run: "getChildResources R w = (r, w')"
  have "only typedStatus (getChildResources R)"
    unfolding getChildResources_def by (intro only_intros; simp)
  from only_runD [OF this run] run_getChild [OF run] show ?thesis by simp
qed

lemma statusConditions_typed:
  assumes keep: "keepsConditions (rec_Client R)" and run: "updateStatusConditions R w = (r, w')"
  shows "(\<exists>es. w_log w' = w_log w @ es \<and> list_all typedStatus es) \<and> (r = Ok (d, None) \<longrightarrow> typed (w_rmq w'))"
  using run unfolding updateStatusConditions_def
proof (cases rule: checked_cases)
  case (val rs w1)
  from getChild_run [OF val(1)] obtain es where es: "w_log w1 = w_log w @ es" "list_all typedStatus es" by blast
  let ?old = "cst_Conditions (rc_Status (w_rmq w1))"
  let ?tail = "bindM getRmq (\<lambda>c. if cst_Conditions (rc_Status c) \<noteq> ?old
      then tryM (updateStatus (rec_Client R)) (case_sum
            (\<lambda>err. if isConflict err then ret (2, None) else ret (0, Some err)) (\<lambda>_. ret (0, None)))
      else ret (0, None)) :: requeue prog"
  from val(2) have "bindM (setConditions R rs) (\<lambda>_. ?tail) w1 = (r, w')"
    by (simp add: bindM_def run_simps Let_def)
  then show ?thesis
  proof (cases rule: bind_cases)
    case bound: (val u w2)
    from run_setConditions [OF bound(1)] obtain fs now st where fs: "w_log w2 = w_log w1 @ fs" "list_all (\<lambda>e. \<exists>t. e = Clock t) fs"
      and st: "SetConditions now rs (rc_Status (w_rmq w1)) = Ok st" and w2: "w_rmq w2 = (w_rmq w1)\<lparr>rc_Status := st\<rparr>" by blast
    from st have "typed (w_rmq w2)"
      unfolding w2 by (elim SetConditions_cases) (simp add: typed_def conditionTypes_def)
    moreover have "list_all typedStatus fs" using fs(2) by (auto simp: list_all_iff)
    ultimately have "typed (w_rmq w2) \<and> (\<exists>gs. w_log w2 = w_log w @ gs \<and> list_all typedStatus gs)"
      using es fs(1) by (intro conjI exI [of _ "es @ fs"]) simp_all
    moreover have "keepsTyped ?tail" by (intro maintain_intros keep)
    ultimately show ?thesis using maintains_then [of "\<lambda>c ob. typed c" w2 w typedStatus ?tail r w'] bound(2) by blast
  next
    case (err e)
    from run_setConditions [OF err(1)] es err(2) show ?thesis by (fastforce simp: list_all_iff)
  next
    case (pan q)
    from run_setConditions [OF pan(1)] es pan(2) show ?thesis by (fastforce simp: list_all_iff)
  qed
next
  case (err e)
  with getChild_run show ?thesis by auto
next
  case (pan q)
  with getChild_run show ?thesis by auto
qed

lemma guards_typed:
  assumes docs: "documented (rec_Client R)" and keep: "keepsConditions (rec_Client R)" and run: "guardsThen R w = (r, w')"
  shows "\<exists>es. w_log w' = w_log w @ es \<and> list_all typedStatus es"
  using run unfolding guardsThen_def unlessRequeued_def
proof (cases rule: bind_cases)
  case (val p w1)
  obtain d err where p: "p = (d, err)" by (cases p)
  from statusConditions_typed [OF keep val(1)] obtain es where es: "w_log w1 = w_log w @ es" "list_all typedStatus es" by blast
  show ?thesis
  proof (cases "err \<noteq> None \<or> d > 0")
    case True
    with val(2) p es show ?thesis by (auto simp: run_simps)
  next
    case False
    with statusConditions_typed [OF keep val(1), of d] p have "typed (w_rmq w1)" by auto
    moreover have "tryM (reconcileTLS R) (case_sum
        (\<lambda>tlsErr. if isDisableNonTLS tlsErr then ret (0, None) else ret (0, Some tlsErr))
        (\<lambda>_. markThenChildren R)) w1 = (r, w')" using val(2) False p by simp
    moreover have "keepsTyped (tryM (reconcileTLS R) (case_sum
        (\<lambda>tlsErr. if isDisableNonTLS tlsErr then ret (0, None) else ret (0, Some tlsErr))
        (\<lambda>_. markThenChildren R)))" by (intro maintain_intros tls_typed children_typed docs keep)
    ultimately show ?thesis using maintains_then [of "\<lambda>c ob. typed c" w1 w typedStatus] es by blast
  qed
qed (use statusConditions_typed [OF keep] in blast)+

lemma parts_typed: "only typedStatus (reconcileOperatorDefaults R)" "only typedStatus (addFinalizerIfNeeded R)"
  by (intro only_intros; simp)+

text \<open>
  C16. With a server that keeps the conditions of the resources it stores, every status that a
  reconciliation of a resource that is neither paused nor being deleted sends, on whatever path
  it ends, holds exactly the four conditions of the operator, once each and in their order.
\<close>

theorem statuses_typed:
  assumes "documented (rec_Client R)" and "keepsConditions (rec_Client R)"
  shows "list_all typedStatus (events (reconcileActive R) w)"
proof -
  have "traces (list_all typedStatus) (reconcileActive R)"
  proof (rule tracesI)
    fix w r w'
    assume run: "reconcileActive R w = (r, w')"
    have "only typedStatus (reconcileOperatorDefaults R)" by (rule parts_typed)
    show "\<exists>es. w_log w' = w_log w @ es \<and> list_all typedStatus es"
      using run unfolding reconcileActive_def guardsThen_def [symmetric] unlessRequeued_def [of "reconcileOperatorDefaults R"]
    proof (cases rule: bind_cases)
      case (val p w1)
      from only_runD [OF parts_typed(1) val(1)] obtain es where es: "w_log w1 = w_log w @ es" "list_all typedStatus es" by blast
      obtain d err where p: "p = (d, err)" by (cases p)
      show ?thesis
      proof (cases "err \<noteq> None \<or> d > 0")
        case True
        with val(2) p es show ?thesis by (auto simp: run_simps)
      next
        case False
        with val(2) p have "checked 0 (addFinalizerIfNeeded R) (\<lambda>_. guardsThen R) w1 = (r, w')" by simp
        then show ?thesis
        proof (cases rule: checked_cases)
          case fin: (val u w2)
          from only_runD [OF parts_typed(2) fin(1)] guards_typed [OF assms fin(2)] obtain fs gs where
            "w_log w2 = w_log w1 @ fs" "list_all typedStatus fs" "w_log w' = w_log w2 @ gs" "list_all typedStatus gs" by blast
          with es show ?thesis by (intro exI [of _ "es @ fs @ gs"]) simp
        next
          case (err e)
          from only_runD [OF parts_typed(2) err(1)] es show ?thesis by fastforce
        next
          case (pan q)
          from only_runD [OF parts_typed(2) pan(1)] es show ?thesis by fastforce
        qed
      qed
    qed (use only_runD [OF parts_typed(1)] in blast)+
  qed
  then show ?thesis by (rule traces_events)
qed

theorem statuses_typed_witness:
  "list_all typedStatus (events (reconcileActive (sampleReconciler sampleApi)) sampleWorld)"
proof -
  have "keepsConditions sampleApi" using sample_echoes by (simp add: keepsConditions_def echoes_def)
  with statuses_typed [of "sampleReconciler sampleApi"] documented_sample show ?thesis by simp
qed

end
