(* ===== verification/Operator_History.thy ===== *)
theory Operator_History
  imports Reconcile_Gate
begin

text \<open>
  The life of an operator: the logs any sequence of reconciliations can leave, and what is true
  of every one of them.
\<close>

section \<open>Histories\<close>

text \<open>
  The log an operator leaves in its life: any number of reconciliations of any resources, one
  after the other, each with its own settings and its own server behaviour, from any contents
  of memory, and cut anywhere, as when the process is killed in the middle of a pass.
\<close>

inductive history :: "event list \<Rightarrow> bool" where
  start: "history []"
| pass: "history l \<Longrightarrow> documented (rec_Client R) \<Longrightarrow> w_log w = l \<Longrightarrow> Reconcile R key w = (r, w')
     \<Longrightarrow> history (w_log w')"
| killed: "history l \<Longrightarrow> prefix l' l \<Longrightarrow> history l'"

text \<open>What every event of a log can look back on.\<close>

definition lookingBack :: "(event list \<Rightarrow> event \<Rightarrow> bool) \<Rightarrow> event list \<Rightarrow> event list \<Rightarrow> bool" where
  "lookingBack J l es \<longleftrightarrow> (\<forall>pre e post. es = pre @ e # post \<longrightarrow> J (l @ pre) e)"

lemma lookingBack_Nil [simp]: "lookingBack J l []"
  by (simp add: lookingBack_def)

lemma lookingBack_Cons: "lookingBack J l (e # es) \<longleftrightarrow> J l e \<and> lookingBack J (l @ [e]) es"
  by (auto simp: lookingBack_def Cons_eq_append_conv)

lemma lookingBack_append: "lookingBack J l (es @ fs) \<longleftrightarrow> lookingBack J l es \<and> lookingBack J (l @ es) fs"
  by (induction es arbitrary: l) (simp_all add: lookingBack_Cons)

lemma lookingBack_all: "(\<And>pre e. P e \<Longrightarrow> J pre e) \<Longrightarrow> list_all P es \<Longrightarrow> lookingBack J l es"
  by (induction es arbitrary: l) (simp_all add: lookingBack_Cons)

text \<open>An invariant of the events of every pass is one of every history.\<close>

lemma history_lookingBack:
  assumes "\<And>R w key r w'. documented (rec_Client R) \<Longrightarrow> Reconcile R key w = (r, w')
      \<Longrightarrow> \<exists>es. w_log w' = w_log w @ es \<and> lookingBack J (w_log w) es"
    and "history l"
  shows "lookingBack J [] l"
  using assms(2)
proof (induction rule: history.induct)
  case (pass l R w key r w')
  from assms(1) [OF pass.hyps(2,4)] obtain es where "w_log w' = w_log w @ es" "lookingBack J (w_log w) es" by blast
  with pass show ?case by (simp add: lookingBack_append)
next
  case (killed l l')
  then show ?case by (auto simp: prefix_def lookingBack_append)
qed simp

section \<open>Nothing is deleted but on request\<close>

text \<open>The server has said that the cluster is being deleted.\<close>

definition beingDeleted :: "event list \<Rightarrow> rabbitmqCluster \<Rightarrow> bool" where
  "beingDeleted l c \<longleftrightarrow> (\<exists>key. GetCluster key (Inr c) \<in> set l) \<and> \<not> isZeroTime (om_DeletionTimestamp (rc_Meta c))"

definition justified :: "event list \<Rightarrow> event \<Rightarrow> bool" where
  "justified l e = (case e of
      DeleteSts k opts r \<Rightarrow> opts = orphan
        \<or> (\<exists>c sts. beingDeleted l c \<and> k = stsKey c \<and> GetSts k (Inr sts) \<in> set l \<and> controlledBy c sts
             \<and> opts = onUID (om_UID (st_Meta sts)))
    | UpdatePod p r \<Rightarrow> (\<exists>c. beingDeleted l c)
    | _ \<Rightarrow> True)"

text \<open>The events that need no justification.\<close>

definition harmless :: "event \<Rightarrow> bool" where
  "harmless e = (case e of DeleteSts k opts r \<Rightarrow> opts = orphan | UpdatePod p r \<Rightarrow> False | _ \<Rightarrow> True)"

lemma harmless_justified: "harmless e \<Longrightarrow> justified l e"
  by (auto simp: harmless_def justified_def split: event.splits)

lemma harmless_simps [simp]:
  "harmless (DeleteSts k orphan r1)" "harmless (GetSts k r2)" "harmless (GetPVC k r3)" "harmless (UpdatePVC ns p r4)"
  "harmless (Sleep d)" "harmless (Recorded ty q m)" "harmless (Clock t)" "harmless (GetCluster k r5)"
  "harmless (UpdateCluster c r6)" "harmless (UpdateClusterStatus c r7)" "harmless (UpdateSts s r8)"
  "harmless (GetConfigMap k r9)" "harmless (UpdateConfigMap cm r10)" "harmless (GetSecret k r11)"
  "harmless (GetEndpoints k r12)" "harmless (ListPods sel r13)" "harmless (ReadObject i r14)"
  "harmless (CreateObject ob r15)" "harmless (UpdateObject ob r16)" "harmless (Exec k con cmd r17)"
  by (simp_all add: harmless_def)

lemma builders_harmless:
  assumes "documented (rec_Client R)"
  shows "only harmless (reconcileBuilders R bs)"
proof (induction bs)
  case Nil
  show ?case unfolding reconcileBuilders.simps by (intro only_intros)
next
  case (Cons b bs)
  then show ?case
    unfolding reconcileBuilders.simps orElse_def reconcileBuilder_def recreateSts_def scaleVolumes_def reconcilePVC_def
      applyBuilder_def logAndRecordOperationResult_def Let_def
    by (intro only_intros assms; simp)
qed

lemma active_harmless:
  assumes "documented (rec_Client R)"
  shows "only harmless (reconcileActive R)"
  unfolding reconcileActive_def markThenChildren_def reconcileChildren_def markForQueueRebalance_def modifyMeta_def
    unlessRequeued_def finishReconcile_def
  by (intro only_intros builders_harmless assms; simp)

text \<open>Deleting a cluster: every attempt is justified by the resource that was read.\<close>

lemma lookingBack_justified_mono:
  "lookingBack justified l es \<Longrightarrow> set l \<subseteq> set l' \<Longrightarrow> lookingBack justified l' es"
proof (induction es arbitrary: l l')
  case (Cons e es)
  then have "justified l' e"
    unfolding lookingBack_Cons justified_def beingDeleted_def by (auto split: event.splits; blast)
  moreover have "lookingBack justified (l' @ [e]) es"
    using Cons.IH [of "l @ [e]" "l' @ [e]"] Cons.prems by (auto simp: lookingBack_Cons)
  ultimately show ?case by (simp add: lookingBack_Cons)
qed simp

lemma justified_others:
  "beingDeleted l c \<Longrightarrow> list_all (\<lambda>e. \<not> isDelete e) es \<Longrightarrow> lookingBack justified l es"
proof (induction es arbitrary: l)
  case (Cons e es)
  then have "justified l e" by (auto simp: justified_def isDelete_def split: event.splits)
  moreover have "beingDeleted (l @ [e]) c" using Cons.prems(1) by (auto simp: beingDeleted_def)
  ultimately show ?case using Cons by (simp add: lookingBack_Cons)
qed simp

lemma attempt_justified:
  assumes del: "beingDeleted l c" and "deletionAttempt c r es"
  shows "lookingBack justified l es"
  using assms(2) unfolding deletionAttempt_def
proof
  assume "list_all (\<lambda>e. \<not> isDelete e) es \<and> r \<noteq> Ok ()"
  with justified_others [OF del] show ?thesis by blast
next
  assume "\<exists>sts sel pods acks d. controlledBy c sts \<and> list_all2 podAck pods acks
        \<and> es = [GetSts (stsKey c) (Inr sts), ListPods sel (Inr pods)] @ acks
                @ [DeleteSts (stsKey c) (onUID (om_UID (st_Meta sts))) d]
        \<and> (r = Ok () \<longleftrightarrow> (\<forall>q m. d = Inl (q, m) \<longrightarrow> q = ReasonNotFound))"
  then obtain sts sel pods acks d where own: "controlledBy c sts" and acks: "list_all2 podAck pods acks"
    and es: "es = ([GetSts (stsKey c) (Inr sts), ListPods sel (Inr pods)] @ acks)
        @ [DeleteSts (stsKey c) (onUID (om_UID (st_Meta sts))) d]" by auto
  let ?pre = "[GetSts (stsKey c) (Inr sts), ListPods sel (Inr pods)] @ acks"
  from acks have "list_all (\<lambda>e. \<not> isDelete e) acks"
    by (induction rule: list_all2_induct) (auto simp: podAck_def)
  then have "lookingBack justified l ?pre" by (intro justified_others [OF del]) simp
  moreover have "beingDeleted (l @ ?pre) c" using del by (auto simp: beingDeleted_def)
  then have "justified (l @ ?pre) (DeleteSts (stsKey c) (onUID (om_UID (st_Meta sts))) d)"
    unfolding justified_def event.case using own by (intro disjI2 exI [of _ c] exI [of _ sts]) simp
  ultimately show ?thesis unfolding es lookingBack_append by (simp add: lookingBack_Cons)
qed

lemma attempts_justified:
  assumes "beingDeleted l c" and "list_all (\<lambda>es. \<exists>r. deletionAttempt c r es) ess"
  shows "lookingBack justified l (concat ess)"
  using assms(2)
proof (induction ess)
  case (Cons es ess)
  then have "lookingBack justified l es" "lookingBack justified l (concat ess)"
    using attempt_justified [OF assms(1)] by auto
  with lookingBack_justified_mono [of l "concat ess" "l @ es"] show ?case by (simp add: lookingBack_append)
qed simp

lemma prepareForDeletion_justified:
  assumes docs: "documented (rec_Client R)" and del: "beingDeleted (w_log w) (w_rmq w)"
    and run: "prepareForDeletion R w = (r, w')"
  shows "\<exists>es. w_log w' = w_log w @ es \<and> lookingBack justified (w_log w) es"
proof (cases "lib_containsFinalizer (rec_Client R) (rc_Meta (w_rmq w)) deletionFinalizer")
  case False
  with run have "w' = w" by (simp add: prepareForDeletion_def bindM_def run_simps)
  then show ?thesis by simp
next
  case True
  from logs_onError [OF docs deleteOwnedSts_logs [OF docs] refl, of isConflict w] obtain r1 ats where
    at: "lib_onError (rec_Client R) isConflict (deleteOwnedSts R) w = (r1, w\<lparr>w_log := w_log w @ concat ats\<rparr>)"
    and ats: "retried isConflict (deletionAttempt (w_rmq w)) r1 ats" by blast
  have ok: "lookingBack justified (w_log w) (concat ats)"
    using retried_all [OF ats] by (intro attempts_justified [OF del]) (auto simp: list_all_iff)
  let ?w = "w\<lparr>w_log := w_log w @ concat ats\<rparr>"
  have "only harmless (removeFinalizer R)"
    unfolding removeFinalizer_def modifyMeta_def by (intro only_intros; simp)
  moreover from run True have "tryM (lib_onError (rec_Client R) isConflict (deleteOwnedSts R)) (\<lambda>_. removeFinalizer R) w = (r, w')"
    by (simp add: prepareForDeletion_def bindM_def run_simps)
  then have "w' = ?w \<or> (\<exists>r. removeFinalizer R ?w = (r, w'))"
    by (cases rule: try_cases) (use at in auto)
  ultimately have "\<exists>fs. w_log w' = w_log ?w @ fs \<and> list_all harmless fs"
    by (auto dest: only_runD)
  then obtain fs where "w_log w' = w_log w @ (concat ats @ fs)" "list_all harmless fs" by auto
  with ok lookingBack_all [of harmless justified, OF harmless_justified] show ?thesis
    by (intro exI [of _ "concat ats @ fs"]) (simp add: lookingBack_append)
qed

lemma pass_justified:
  assumes docs: "documented (rec_Client R)" and run: "Reconcile R key w = (r, w')"
  shows "\<exists>es. w_log w' = w_log w @ es \<and> lookingBack justified (w_log w) es"
proof (cases "api_getCluster (rec_Client R) key (w_log w)")
  case (Inl q)
  with run show ?thesis
    by (cases q) (auto simp: run_Reconcile lookingBack_Cons harmless_justified)
next
  case (Inr c)
  let ?e = "GetCluster key (Inr c)"
  let ?w = "w\<lparr>w_log := w_log w @ [?e], w_rmq := c\<rparr>"
  from run Inr have disp: "dispatch R c ?w = (r, w')" by (simp add: run_Reconcile)
  have "\<exists>es. w_log w' = w_log ?w @ es \<and> lookingBack justified (w_log ?w) es"
  proof (cases "isZeroTime (om_DeletionTimestamp (rc_Meta c))")
    case False
    then have "beingDeleted (w_log ?w) (w_rmq ?w)"
      unfolding beingDeleted_def by (intro conjI exI [of _ key]) simp_all
    note del = prepareForDeletion_justified [OF docs this]
    from disp False have "checked 0 (prepareForDeletion R) (\<lambda>_. ret (0, None)) ?w = (r, w')" by (simp add: dispatch_def)
    then have "\<exists>r. prepareForDeletion R ?w = (r, w')"
      by (cases rule: checked_cases) (auto simp: run_simps)
    with del show ?thesis by blast
  next
    case True
    have "only harmless (reconcilePaused R)" "only harmless (reconcileActive R)"
      unfolding reconcilePaused_def by (intro only_intros; simp) (rule active_harmless [OF docs])
    with disp True obtain es where "w_log w' = w_log ?w @ es" "list_all harmless es"
      by (auto simp: dispatch_def split: if_splits dest: only_runD)
    with lookingBack_all [of harmless justified, OF harmless_justified] show ?thesis by blast
  qed
  then obtain es where "w_log w' = w_log w @ (?e # es)" "lookingBack justified (w_log w @ [?e]) es" by auto
  moreover have "justified (w_log w) ?e" by (simp add: harmless_justified)
  ultimately show ?thesis by (intro exI [of _ "?e # es"]) (simp add: lookingBack_Cons)
qed

text \<open>
  C6. The operator never deletes data on its own account. In every history, whatever the server
  answers, however the passes of different resources follow one another and wherever the
  process is killed: a StatefulSet is deleted either as an orphaning deletion, which keeps its
  pods and volumes, or after the server has said that its cluster is being deleted, with
  the identity of a StatefulSet that was read and is controlled by that very cluster as
  precondition; and a pod gets the deletion label only when some cluster is being deleted.
\<close>

theorem deletions_justified:
  assumes "history l" and "l = pre @ e # post"
  shows "(\<forall>k opts r. e = DeleteSts k opts r \<longrightarrow> opts = orphan
       \<or> (\<exists>c sts. beingDeleted pre c \<and> k = stsKey c \<and> GetSts k (Inr sts) \<in> set pre \<and> controlledBy c sts
            \<and> opts = onUID (om_UID (st_Meta sts))))
     \<and> (\<forall>p r. e = UpdatePod p r \<longrightarrow> (\<exists>c. beingDeleted pre c))"
proof -
  have "lookingBack justified [] l" by (rule history_lookingBack [OF pass_justified assms(1)])
  with assms(2) have "justified pre e" by (auto simp: lookingBack_def)
  then show ?thesis unfolding justified_def by (auto simp del: split_paired_Ex)
qed

definition deletedApi :: api where
  "deletedApi = withLibraries (sampleBase\<lparr>
     api_getCluster := (\<lambda>k l. if k = (''ns'', ''rmq'') then Inr deletedCluster else absent k l),
     api_getSts := (\<lambda>k l. if k = (''ns'', ''rmq-server'') then Inr ownedSts else absent k l),
     api_listPods := (\<lambda>sel l. Inr [samplePod])\<rparr>)"

lemma deletedApi_documented: "documented deletedApi"
  unfolding deletedApi_def by (rule documented_withLibraries)

lemma deleted_log:
  "\<exists>r w' sel. Reconcile (sampleReconciler deletedApi) (''ns'', ''rmq'') sampleWorld = (r, w')
    \<and> w_log w' = [GetCluster (''ns'', ''rmq'') (Inr deletedCluster), GetSts (stsKey deletedCluster) (Inr ownedSts),
        ListPods sel (Inr [samplePod]), UpdatePod (markPod samplePod) (Inr (markPod samplePod)),
        DeleteSts (stsKey deletedCluster) (onUID (om_UID (st_Meta ownedSts))) (Inr ())]
      @ [UpdateCluster (deletedCluster\<lparr>rc_Meta := (rc_Meta deletedCluster)\<lparr>om_Finalizers := []\<rparr>\<rparr>)
           (Inr (deletedCluster\<lparr>rc_Meta := (rc_Meta deletedCluster)\<lparr>om_Finalizers := []\<rparr>\<rparr>))]"
proof -
  note lib = documentedD [OF deletedApi_documented]
  have key: "rc_Namespace deletedCluster = ''ns''" "ChildResourceName deletedCluster ''server'' = ''rmq-server''"
    by (simp_all add: child_names) (simp_all add: deletedCluster_def sampleCluster_def)
  have ans: "api_getSts deletedApi (''ns'', ''rmq-server'') l = Inr ownedSts" "api_listPods deletedApi sel l = Inr [samplePod]"
    "api_updatePod deletedApi p l = Inr p" "api_deleteSts deletedApi k opts l = Inr ()"
    "api_updateCluster deletedApi c l = Inr c" "lib_parseSelector deletedApi s = None"
    "lib_onError deletedApi P f = attempts 4 P f" "api_getCluster deletedApi (''ns'', ''rmq'') l = Inr deletedCluster"
    for k l sel p opts c s P f by (simp_all add: deletedApi_def withLibraries_def sampleBase_def)
  have fin: "om_Finalizers (rc_Meta deletedCluster) = [deletionFinalizer]"
    and time: "\<not> isZeroTime (om_DeletionTimestamp (rc_Meta deletedCluster))"
    by (simp_all add: deletedCluster_def isZeroTime_def)
  have ref: "List.find (\<lambda>r. or_Controller r = Some True) (om_OwnerReferences (st_Meta ownedSts))
      = Some (ownerOf sampleCluster)" by (simp add: ownedSts_def ownerOf_def)
  have uid: "om_UID (rc_Meta deletedCluster) = or_UID (ownerOf sampleCluster)"
    by (simp add: deletedCluster_def ownerOf_def)
  have labels: "om_Labels (po_Meta samplePod) \<noteq> None" by (simp add: samplePod_def)
  show ?thesis
    by (simp add: run_Reconcile dispatch_def time ans key checked_def prepareForDeletion_def deleteOwnedSts_def
        statefulSetUID_def lib fin ref uid labels addRabbitmqDeletionLabel_def labelPod_def removeFinalizer_def
        modifyMeta_def updateCluster_def bindM_def tryM_def wrapM_def run_simps run_call stsKey_def numeral_eq_Suc)
qed

theorem deletions_justified_witness:
  "\<exists>l pre post. history l
     \<and> l = pre @ DeleteSts (stsKey deletedCluster) (onUID (om_UID (st_Meta ownedSts))) (Inr ()) # post
     \<and> (\<exists>c. beingDeleted pre c)"
proof -
  obtain r w' sel where run: "Reconcile (sampleReconciler deletedApi) (''ns'', ''rmq'') sampleWorld = (r, w')"
    and log: "w_log w' = [GetCluster (''ns'', ''rmq'') (Inr deletedCluster), GetSts (stsKey deletedCluster) (Inr ownedSts),
        ListPods sel (Inr [samplePod]), UpdatePod (markPod samplePod) (Inr (markPod samplePod)),
        DeleteSts (stsKey deletedCluster) (onUID (om_UID (st_Meta ownedSts))) (Inr ())]
      @ [UpdateCluster (deletedCluster\<lparr>rc_Meta := (rc_Meta deletedCluster)\<lparr>om_Finalizers := []\<rparr>\<rparr>)
           (Inr (deletedCluster\<lparr>rc_Meta := (rc_Meta deletedCluster)\<lparr>om_Finalizers := []\<rparr>\<rparr>))]"
    using deleted_log by blast
  have hist: "history (w_log w')"
    by (rule history.pass [OF history.start _ _ run]) (simp_all add: deletedApi_documented)
  have "DeleteSts (stsKey deletedCluster) (onUID (om_UID (st_Meta ownedSts))) (Inr ()) \<in> set (w_log w')"
    by (simp add: log)
  then obtain pre post where
    split: "w_log w' = pre @ DeleteSts (stsKey deletedCluster) (onUID (om_UID (st_Meta ownedSts))) (Inr ()) # post"
    by (meson split_list)
  have "onUID uid \<noteq> orphan" for uid by (simp add: onUID_def orphan_def)
  with deletions_justified [OF hist split] have "\<exists>c. beingDeleted pre c" by blast
  with hist split show ?thesis by (intro exI [of _ "w_log w'"] exI [of _ pre] exI [of _ post]) simp
qed

end
