(* ===== verification/Reconcile_Confined.thy ===== *)
theory Reconcile_Confined
  imports Maintaining Operator_History
begin

text \<open>
  The operator reconciles many clusters with one server. Here: which objects belong to a cluster
  of a given key, when two clusters share one, and that a pass for a key writes only what belongs
  to that key (\<^verbatim>\<open>controllers/*.go\<close>, \<^verbatim>\<open>internal/scaling/scaling.go\<close>).
\<close>

section \<open>What belongs to a cluster\<close>

abbreviation clusterKey :: "rabbitmqCluster \<Rightarrow> nskey" where
  "clusterKey c \<equiv> metaKey (rc_Meta c)"

text \<open>The objects a builder makes, by the key of the cluster alone.\<close>

definition childId :: "nskey \<Rightarrow> builder \<Rightarrow> kind \<times> nskey" where
  "childId k b = (case builderTarget b of
      (kd, s) \<Rightarrow> (kd, (fst k, if s = [] then snd k else snd k @ ''-'' @ s)))"

definition childOf :: "nskey \<Rightarrow> kind \<times> nskey \<Rightarrow> bool" where
  "childOf k i \<longleftrightarrow> i \<in> childId k ` {HeadlessServiceBuilder, ServiceBuilder, ErlangCookieBuilder,
     DefaultUserSecretBuilder, RabbitmqPluginsConfigMapBuilder, ServerConfigMapBuilder,
     ServiceAccountBuilder, RoleBuilder, RoleBindingBuilder, StatefulSetBuilder}"

text \<open>Its pods and their volume claims, numbered from 0.\<close>

definition podOf :: "nskey \<Rightarrow> nskey \<Rightarrow> bool" where
  "podOf k j \<longleftrightarrow> (\<exists>i. j = (fst k, snd k @ ''-server-'' @ natDec i))"

definition claimFor :: "nskey \<Rightarrow> nskey \<Rightarrow> bool" where
  "claimFor k j \<longleftrightarrow> (\<exists>i. j = (fst k, ''persistence-'' @ snd k @ ''-server-'' @ natDec i))"

lemma childOf_id [simp]: "childOf k (childId k b)"
  by (cases b) (simp_all add: childOf_def)

lemma targetId_child: "targetId c b = childId (clusterKey c) b"
  by (cases b) (simp_all add: targetId_def childId_def metaKey_def child_names)

lemma childOf_names:
  assumes "clusterKey c = k" and "clusterKey d = k"
  shows "childOf k (KStatefulSet, (rc_Namespace d, ChildResourceName c ''server''))"
    and "childOf k (KConfigMap, (rc_Namespace d, ChildResourceName c PluginsConfigName))"
    and "childOf k (KConfigMap, (rc_Namespace d, ChildResourceName c ServerConfigMapName))"
    and "childOf k (targetId c b)"
proof -
  have "childOf k (targetId c b)" for b using assms(1) by (simp add: targetId_child)
  note this this [of StatefulSetBuilder] this [of RabbitmqPluginsConfigMapBuilder] this [of ServerConfigMapBuilder]
  moreover from assms have "rc_Namespace d = rc_Namespace c" by (auto simp: metaKey_def)
  ultimately show "childOf k (KStatefulSet, (rc_Namespace d, ChildResourceName c ''server''))"
    and "childOf k (KConfigMap, (rc_Namespace d, ChildResourceName c PluginsConfigName))"
    and "childOf k (KConfigMap, (rc_Namespace d, ChildResourceName c ServerConfigMapName))"
    and "childOf k (targetId c b)"
    by (simp_all add: targetId_def PluginsConfigName_def ServerConfigMapName_def)
qed

lemma last_dash:
  assumes "CHR ''-'' \<notin> set d" and "CHR ''-'' \<notin> set d'" and "n @ CHR ''-'' # d = m @ CHR ''-'' # d'"
  shows "n = m"
proof -
  let ?other = "\<lambda>x. x \<noteq> CHR ''-''"
  have "dropWhile ?other (rev (x @ CHR ''-'' # t)) = CHR ''-'' # rev x" if "CHR ''-'' \<notin> set t" for x t
  proof -
    from that have "dropWhile ?other (rev t @ CHR ''-'' # rev x) = CHR ''-'' # rev x"
      by (subst dropWhile_append2) auto
    then show ?thesis by simp
  qed
  from this [OF assms(1), of n] this [OF assms(2), of m] assms(3) show ?thesis by simp
qed

lemma server_names: "n @ ''-server-'' @ natDec i = m @ ''-server-'' @ natDec j \<Longrightarrow> n = m"
  using last_dash [OF natDec_no_sym(1) natDec_no_sym(1), of "n @ ''-server''" i "m @ ''-server''" j] by simp

text \<open>
  C20. When two clusters meet. The pods and the volume claims of two clusters of different names
  have different names. Two different clusters can have a child object in common in one way only:
  they are in one namespace and the name of one is the name of the other followed by
  \<^verbatim>\<open>-nodes\<close>; then the client service of the one is the headless service of the other.
\<close>

theorem clusters_apart:
  "((\<exists>b b'. targetId c b = targetId d b') \<longleftrightarrow> clusterKey c = clusterKey d
      \<or> rc_Namespace c = rc_Namespace d \<and> (rc_Name d = rc_Name c @ ''-nodes'' \<or> rc_Name c = rc_Name d @ ''-nodes''))
   \<and> ((\<exists>i j. podNamed c (int i) = podNamed d (int j)) \<longleftrightarrow> rc_Name c = rc_Name d)
   \<and> ((\<exists>i j. PVCName c (int i) = PVCName d (int j)) \<longleftrightarrow> rc_Name c = rc_Name d)"
proof (intro conjI)
  have pods: "podNamed c (int i) = rc_Name c @ ''-server-'' @ natDec i" for c i
    by (simp add: podNamed_def child_names itoa_nat)
  show "(\<exists>i j. podNamed c (int i) = podNamed d (int j)) \<longleftrightarrow> rc_Name c = rc_Name d"
    unfolding pods by (metis server_names)
  have "PVCName c (int i) = ''persistence-'' @ podNamed c (int i)" for c :: rabbitmqCluster and i
    by (simp add: PVCName_shape podNamed_def)
  then show "(\<exists>i j. PVCName c (int i) = PVCName d (int j)) \<longleftrightarrow> rc_Name c = rc_Name d"
    unfolding pods by (metis same_append_eq server_names)
  show "(\<exists>b b'. targetId c b = targetId d b') \<longleftrightarrow> clusterKey c = clusterKey d
      \<or> rc_Namespace c = rc_Namespace d \<and> (rc_Name d = rc_Name c @ ''-nodes'' \<or> rc_Name c = rc_Name d @ ''-nodes'')"
    (is "?L \<longleftrightarrow> ?R")
  proof
    have "rc_Namespace c = rc_Namespace d \<and> (rc_Name c = rc_Name d
        \<or> rc_Name d = rc_Name c @ ''-nodes'' \<or> rc_Name c = rc_Name d @ ''-nodes'')" if "targetId c b = targetId d b'" for b b'
      using that by (cases b; cases b') (simp_all add: targetId_child childId_def metaKey_def)
    then show "?L \<Longrightarrow> ?R" by (auto simp: metaKey_def)
    have "targetId c HeadlessServiceBuilder = targetId d ServiceBuilder"
      if "rc_Namespace c = rc_Namespace d" "rc_Name d = rc_Name c @ ''-nodes''" for c d
      using that by (simp add: targetId_child childId_def metaKey_def)
    then show "?R \<Longrightarrow> ?L" by (metis targetId_child)
  qed
qed

section \<open>What a pass may write\<close>

text \<open>
  The selector the pods of a cluster are listed with; it names no namespace. A pod that is
  written is one the server has listed for it, with the mark of a deletion added.
\<close>

definition podSelector :: "string \<Rightarrow> string" where
  "podSelector n = ''app.kubernetes.io/name='' @ n"

definition listedPod :: "api \<Rightarrow> string \<Rightarrow> pod \<Rightarrow> bool" where
  "listedPod S n p \<longleftrightarrow> (\<exists>l ps. api_listPods S (podSelector n) l = Inr ps \<and> p \<in> markPod ` set ps)"

definition confinedTo :: "api \<Rightarrow> nskey \<Rightarrow> event \<Rightarrow> bool" where
  "confinedTo S k e = (case e of
      UpdateCluster c r \<Rightarrow> clusterKey c = k
    | UpdateClusterStatus c r \<Rightarrow> clusterKey c = k
    | UpdateSts s r \<Rightarrow> childOf k (KStatefulSet, metaKey (st_Meta s))
    | DeleteSts j opts r \<Rightarrow> childOf k (KStatefulSet, j)
    | UpdateConfigMap cm r \<Rightarrow> childOf k (KConfigMap, metaKey (cm_Meta cm))
    | CreateObject ob r \<Rightarrow> childOf k (objectId ob)
    | UpdateObject ob r \<Rightarrow> childOf k (objectId ob)
    | UpdatePVC ns p r \<Rightarrow> ns = om_Namespace (pvc_Meta p) \<and> claimFor k (metaKey (pvc_Meta p))
    | Exec j con cmd r \<Rightarrow> podOf k j
    | UpdatePod p r \<Rightarrow> listedPod S (snd k) p
    | _ \<Rightarrow> True)"

lemma confinedTo_simps [simp]:
  "confinedTo S k (Clock t)" "confinedTo S k (Sleep n)" "confinedTo S k (Recorded ty q m)"
  "confinedTo S k (GetCluster j r1)" "confinedTo S k (GetSts j r2)" "confinedTo S k (GetConfigMap j r3)"
  "confinedTo S k (GetSecret j r4)" "confinedTo S k (GetEndpoints j r5)" "confinedTo S k (ListPods sel r6)"
  "confinedTo S k (GetPVC j r7)" "confinedTo S k (ReadObject i r8)"
  "confinedTo S k (UpdateCluster c r1) \<longleftrightarrow> clusterKey c = k" "confinedTo S k (UpdateClusterStatus c r1) \<longleftrightarrow> clusterKey c = k"
  "confinedTo S k (UpdateSts s r2) \<longleftrightarrow> childOf k (KStatefulSet, metaKey (st_Meta s))"
  "confinedTo S k (DeleteSts j opts u) \<longleftrightarrow> childOf k (KStatefulSet, j)"
  "confinedTo S k (UpdateConfigMap cm r3) \<longleftrightarrow> childOf k (KConfigMap, metaKey (cm_Meta cm))"
  "confinedTo S k (CreateObject ob r8) \<longleftrightarrow> childOf k (objectId ob)"
  "confinedTo S k (UpdateObject ob r8) \<longleftrightarrow> childOf k (objectId ob)"
  "confinedTo S k (UpdatePVC ns p r7) \<longleftrightarrow> ns = om_Namespace (pvc_Meta p) \<and> claimFor k (metaKey (pvc_Meta p))"
  "confinedTo S k (Exec j con cmd u) \<longleftrightarrow> podOf k j" "confinedTo S k (UpdatePod pod r9) \<longleftrightarrow> listedPod S (snd k) pod"
  by (simp_all add: confinedTo_def)

text \<open>A server whose answers are about the object it was asked about, or was sent.\<close>

definition answersFor :: "api \<Rightarrow> bool" where
  "answersFor S \<longleftrightarrow> namesKept S
     \<and> (\<forall>k l c. api_getCluster S k l = Inr c \<longrightarrow> clusterKey c = k)
     \<and> (\<forall>c l d. api_updateCluster S c l = Inr d \<or> api_updateStatus S c l = Inr d \<longrightarrow> clusterKey d = clusterKey c)
     \<and> (\<forall>k l s. api_getSts S k l = Inr s \<longrightarrow> metaKey (st_Meta s) = k)
     \<and> (\<forall>k l c. api_getConfigMap S k l = Inr c \<longrightarrow> metaKey (cm_Meta c) = k)
     \<and> (\<forall>k l p. api_getPVC S k l = Inr p \<longrightarrow> metaKey (pvc_Meta p) = k)"

lemma answersForD:
  assumes "answersFor S"
  shows "namesKept S" and "api_getCluster S k l = Inr c \<Longrightarrow> clusterKey c = k"
    and "api_updateCluster S c l = Inr d \<Longrightarrow> clusterKey d = clusterKey c"
    and "api_updateStatus S c l = Inr d \<Longrightarrow> clusterKey d = clusterKey c"
    and "api_getSts S k l = Inr s \<Longrightarrow> metaKey (st_Meta s) = k"
    and "api_getConfigMap S k l = Inr cm \<Longrightarrow> metaKey (cm_Meta cm) = k"
    and "api_getPVC S k l = Inr p \<Longrightarrow> metaKey (pvc_Meta p) = k"
  using assms unfolding answersFor_def by blast+

abbreviation ofKey :: "nskey \<Rightarrow> rabbitmqCluster \<Rightarrow> object \<Rightarrow> bool" where
  "ofKey k \<equiv> (\<lambda>c ob. clusterKey c = k)"

abbreviation stays :: "api \<Rightarrow> nskey \<Rightarrow> 'a prog \<Rightarrow> bool" where
  "stays S k \<equiv> maintains (ofKey k) (confinedTo S k)"

text \<open>An invariant of the passes for a key, that any cluster of this key meets.\<close>

definition keyed :: "nskey \<Rightarrow> (rabbitmqCluster \<Rightarrow> object \<Rightarrow> bool) \<Rightarrow> bool" where
  "keyed k I \<longleftrightarrow> (\<forall>c d ob. I c ob \<longrightarrow> clusterKey c = k \<and> (clusterKey d = k \<longrightarrow> I d ob))"

abbreviation building :: "nskey \<Rightarrow> kind \<times> nskey \<Rightarrow> rabbitmqCluster \<Rightarrow> object \<Rightarrow> bool" where
  "building k i \<equiv> (\<lambda>c ob. clusterKey c = k \<and> objectId ob = i)"

lemma keyed_both [simp, intro]: "keyed k (ofKey k)" "keyed k (building k i)"
  by (simp_all add: keyed_def)

lemma keyedD: "keyed k I \<Longrightarrow> I c ob \<Longrightarrow> clusterKey c = k" "keyed k I \<Longrightarrow> I c ob \<Longrightarrow> clusterKey d = k \<Longrightarrow> I d ob"
  unfolding keyed_def by blast+

lemma modify_stays: "keyed k I \<Longrightarrow> (\<And>c. clusterKey (f c) = clusterKey c) \<Longrightarrow> maintains I P (modifyRmq f)"
  by (rule maintains_modify) (metis keyedD)

lemma updates_stay:
  assumes "answersFor S" and "keyed k I"
  shows "maintains I (confinedTo S k) (updateStatus S)" and "maintains I (confinedTo S k) (updateCluster S)"
proof -
  show "maintains I (confinedTo S k) (updateStatus S)"
  proof (rule maintainsI)
    fix w r w'
    assume run: "updateStatus S w = (r, w')" and I: "I (w_rmq w) (w_resource w)"
    note known = keyedD [OF assms(2) I] answersForD(4) [OF assms(1), of "w_rmq w" "w_log w"]
    from run I known show "I (w_rmq w') (w_resource w') \<and> (\<exists>es. w_log w' = w_log w @ es \<and> list_all (confinedTo S k) es)"
      by (cases "api_updateStatus S (w_rmq w) (w_log w)") (auto simp: updateStatus_def bindM_def run_simps run_call)
  qed
  show "maintains I (confinedTo S k) (updateCluster S)"
  proof (rule maintainsI)
    fix w r w'
    assume run: "updateCluster S w = (r, w')" and I: "I (w_rmq w) (w_resource w)"
    note known = keyedD [OF assms(2) I] answersForD(3) [OF assms(1), of "w_rmq w" "w_log w"]
    from run I known show "I (w_rmq w') (w_resource w') \<and> (\<exists>es. w_log w' = w_log w @ es \<and> list_all (confinedTo S k) es)"
      by (cases "api_updateCluster S (w_rmq w) (w_log w)") (auto simp: updateCluster_def bindM_def run_simps run_call)
  qed
qed

section \<open>Annotations\<close>

lemma annotated_sameKey [simp]: "metaKey (annotated key v m) = metaKey m"
  by (simp add: annotated_def metaKey_def)

lemma reads_yield:
  assumes "answersFor S"
  shows "yields I (\<lambda>s. metaKey (st_Meta s) = j) (getStatefulSet S j)"
    and "yields I (\<lambda>c. metaKey (cm_Meta c) = j) (getConfigMap S j)"
    and "yields I (\<lambda>p. metaKey (pvc_Meta p) = j) (getPVC S j)"
  using answersForD [OF assms]
  by (simp_all add: getStatefulSet_def getConfigMap_def getPVC_def yields_call)

lemma reads_stay [maintain_intros]:
  "maintains I (confinedTo S k) (getStatefulSet S' j)" "maintains I (confinedTo S k) (getConfigMap S' j)"
  "maintains I (confinedTo S k) (getPVC S' j)" "maintains I (confinedTo S k) (timeStamp R)"
  "maintains I (confinedTo S k) (statefulSet R)" "maintains I (confinedTo S k) (configMap R name)"
  by (intro maintains_quiet frame_intros only_intros; simp)+

lemma writes_stay:
  "childOf k (KStatefulSet, metaKey (st_Meta s)) \<Longrightarrow> maintains I (confinedTo S k) (updateStatefulSet S' s)"
  "childOf k (KConfigMap, metaKey (cm_Meta cm)) \<Longrightarrow> maintains I (confinedTo S k) (updateConfigMap S' cm)"
  "childOf k (KStatefulSet, j) \<Longrightarrow> maintains I (confinedTo S k) (deleteStatefulSet S' j opts)"
  "podOf k j \<Longrightarrow> maintains I (confinedTo S k) (execIn S' j con cmd)"
  by (simp_all add: updateStatefulSet_def updateConfigMap_def deleteStatefulSet_def execIn_def maintains_call)

lemma updateAnnotation_stays:
  assumes "documented S" and "answersFor S"
  shows "childOf k (KConfigMap, (ns, name)) \<Longrightarrow> maintains I (confinedTo S k) (updateAnnotation S (cmObject S) ns name key v)"
    and "childOf k (KStatefulSet, (ns, name)) \<Longrightarrow> maintains I (confinedTo S k) (updateAnnotation S (stsObject S) ns name key v)"
  unfolding updateAnnotation_def cmObject_def stsObject_def
  by (intro maintains_onError [OF assms(1)], simp,
      rule maintains_knowing [OF reads_stay(2) reads_yield(2) [OF assms(2)]], intro maintain_intros writes_stay, simp)
     (intro maintains_onError [OF assms(1)], simp,
      rule maintains_knowing [OF reads_stay(1) reads_yield(1) [OF assms(2)]], intro maintain_intros writes_stay, simp)

lemma annotateIfNeeded_stays:
  assumes docs: "documented (rec_Client R)" and ans: "answersFor (rec_Client R)"
    and I: "keyed k I"
  shows "maintains I (confinedTo (rec_Client R) k) (annotateIfNeeded R b res)"
proof -
  let ?S = "rec_Client R"
  have with_key: "maintains I (confinedTo ?S k) (annotateWith R C name ak)"
    if "\<And>c v. clusterKey c = k \<Longrightarrow> maintains I (confinedTo ?S k) (updateAnnotation ?S C (rc_Namespace c) name ak v)"
    for C :: "'o clientObject" and name ak
    unfolding annotateWith_def
    by (rule maintains_get) (intro maintain_intros that keyedD(1) [OF I]; simp)
  show ?thesis
    unfolding annotateIfNeeded_def
  proof (rule maintains_get)
    fix c ob assume "I c ob"
    then have "clusterKey c = k" by (rule keyedD(1) [OF I])
    note own = childOf_names [OF this]
    show "maintains I (confinedTo ?S k)
       (case b of
          RabbitmqPluginsConfigMapBuilder \<Rightarrow>
            if res \<noteq> OperationResultUpdated then ret ()
            else annotateWith R (cmObject ?S) (ChildResourceName c PluginsConfigName) pluginsUpdateAnnotation
        | ServerConfigMapBuilder \<Rightarrow>
            if res \<noteq> OperationResultUpdated then ret ()
            else annotateWith R (cmObject ?S) (ChildResourceName c ServerConfigMapName) serverConfAnnotation
        | StatefulSetBuilder \<Rightarrow>
            if res \<noteq> OperationResultCreated then ret ()
            else annotateWith R (stsObject ?S) (ChildResourceName c ''server'') stsCreateAnnotation
        | _ \<Rightarrow> ret ())"
      by (cases b) (simp_all add: maintains_silent with_key updateAnnotation_stays [OF docs ans] own)
  qed
qed

section \<open>Steps on the cluster itself\<close>

lemma cluster_steps_stay:
  assumes "answersFor (rec_Client R)" and I: "keyed k I" and docs: "documented (rec_Client R)"
  shows "maintains I (confinedTo (rec_Client R) k) (setCondition R ty st reason msgs)"
    and "maintains I (confinedTo (rec_Client R) k) (updateStatusOrLog R)"
    and "maintains I (confinedTo (rec_Client R) k) (setReconcileSuccess R st reason msg)"
    and "maintains I (confinedTo (rec_Client R) k) (reconcileOperatorDefaults R)"
    and "maintains I (confinedTo (rec_Client R) k) (addFinalizerIfNeeded R)"
    and "maintains I (confinedTo (rec_Client R) k) (removeFinalizer R)"
    and "maintains I (confinedTo (rec_Client R) k) (markForQueueRebalance R)"
    and "maintains I (confinedTo (rec_Client R) k) (reconcileStatus R)"
    and "maintains I (confinedTo (rec_Client R) k) (scaleDown R current sts)"
    and "maintains I (confinedTo (rec_Client R) k) (reconcileTLS R)"
    and "maintains I (confinedTo (rec_Client R) k) (updateStatusConditions R)"
    and "maintains I (confinedTo (rec_Client R) k) (reconcilePaused R)"
proof -
  note parts = maintain_intros updates_stay [OF assms(1,2)] modify_stays [OF I]
  show cond: "maintains I (confinedTo (rec_Client R) k) (setCondition R ty st reason msgs)" for ty st reason msgs
    unfolding setCondition_def modifyStatus_def by (intro parts) simp_all
  show log: "maintains I (confinedTo (rec_Client R) k) (updateStatusOrLog R)"
    unfolding updateStatusOrLog_def by (intro parts)
  show "maintains I (confinedTo (rec_Client R) k) (setReconcileSuccess R st reason msg)"
    unfolding setReconcileSuccess_def by (intro parts cond log)
  show "maintains I (confinedTo (rec_Client R) k) (reconcileOperatorDefaults R)"
    unfolding reconcileOperatorDefaults_def applyDefault_def thenUpdate_def updateRabbitmqCluster_def modifySpec_def
    by (intro parts) simp_all
  show "maintains I (confinedTo (rec_Client R) k) (reconcileStatus R)"
    unfolding reconcileStatus_def modifyStatus_def by (intro parts) simp_all
  show "maintains I (confinedTo (rec_Client R) k) (markForQueueRebalance R)"
    unfolding markForQueueRebalance_def modifyMeta_def by (intro parts) (simp_all add: metaKey_def)
  show "maintains I (confinedTo (rec_Client R) k) (addFinalizerIfNeeded R)"
    and "maintains I (confinedTo (rec_Client R) k) (removeFinalizer R)"
    unfolding addFinalizerIfNeeded_def removeFinalizer_def modifyMeta_def
    by (intro parts; simp add: metaKey_def documentedD(2,3) [OF docs])+
  show "maintains I (confinedTo (rec_Client R) k) (scaleDown R current sts)"
    unfolding scaleDown_def Let_def by (intro parts cond log) simp_all
  show "maintains I (confinedTo (rec_Client R) k) (reconcilePaused R)"
    unfolding reconcilePaused_def by (intro parts cond log) simp_all
  have "maintains I (confinedTo (rec_Client R) k) (checkTLSSecrets R)"
    by (rule maintains_quiet, intro frame_intros tls_logsOnly)
       (unfold checkTLSSecrets_def getTLSSecret_def requireKeys_def tlsError_def Let_def, intro only_intros; simp)
  then show "maintains I (confinedTo (rec_Client R) k) (reconcileTLS R)"
    unfolding reconcileTLS_def tlsError_def setReconcileSuccess_def by (intro parts cond log) simp_all
  have "maintains I (confinedTo (rec_Client R) k) (getChildResources R)"
    by (rule maintains_quiet, unfold getChildResources_def, intro frame_intros) (intro only_intros; simp)
  then show "maintains I (confinedTo (rec_Client R) k) (updateStatusConditions R)"
    unfolding updateStatusConditions_def setConditions_def modifyStatus_def Let_def by (intro parts; simp)
qed

section \<open>Volumes\<close>

lemma claimFor_name: "clusterKey c = k \<Longrightarrow> claimFor k (rc_Namespace c, PVCName c (int i))"
  by (auto simp: claimFor_def PVCName_shape child_names metaKey_def itoa_nat)

lemma getSts_yields: "answersFor S \<Longrightarrow> yields I (\<lambda>s. metaKey (st_Meta s) = (rc_Namespace c, ChildResourceName c ''server'')) (getSts S c)"
  unfolding getSts_def by (rule reads_yield(1))

lemma deleteSts_stays:
  assumes "answersFor S" and "clusterKey c = k"
  shows "maintains I (confinedTo S k) (deleteSts S c)"
proof -
  have read: "maintains I (confinedTo S k) (getSts S c)" unfolding getSts_def by (rule reads_stay)
  have "maintains I (confinedTo S k) (retryLoop n t (stsGone S c))" for n t
    by (induction n) (auto intro!: maintain_intros read simp: stsGone_def)
  then have wait: "maintains I (confinedTo S k) (retryWithInterval msg n t (stsGone S c))" for msg n t
    unfolding retryWithInterval_def by (intro maintain_intros)
  have "maintains I (confinedTo S k) (deleteAndWait S c s)"
    if "metaKey (st_Meta s) = (rc_Namespace c, ChildResourceName c ''server'')" for s
    unfolding deleteAndWait_def
    by (intro maintain_intros writes_stay wait) (use that childOf_names(1) [OF assms(2,2)] in \<open>simp add: metaKey_def\<close>)
  then show ?thesis
    unfolding deleteSts_def
    by (intro maintains_trying [OF read getSts_yields [OF assms(1)]]) (auto intro!: maintain_intros)
qed

lemma getPVCLoop_yields:
  assumes "answersFor S" and "clusterKey c = k" and "\<And>p. p \<in> set ps \<Longrightarrow> claimFor k (metaKey (pvc_Meta p))"
  shows "yields I (\<lambda>qs. \<forall>p \<in> set qs. claimFor k (metaKey (pvc_Meta p))) (getPVCLoop S c (map int is) ps)"
  using assms(3)
proof (induction "is" arbitrary: ps)
  case Nil
  then show ?case by (simp add: yields_def run_simps)
next
  case (Cons i "is")
  let ?j = "(rc_Namespace c, PVCName c (int i))"
  have "yields I (\<lambda>qs. \<forall>p \<in> set qs. claimFor k (metaKey (pvc_Meta p))) (getPVCLoop S c (map int is) (ps @ [p]))"
    if "metaKey (pvc_Meta p) = ?j" for p
    by (rule Cons.IH) (use Cons.prems claimFor_name [OF assms(2)] that in auto)
  with Cons.IH [OF Cons.prems] show ?case
    by (auto intro!: yields_trying [OF reads_stay(3) reads_yield(3) [OF assms(1)]] yields_silent)
qed

lemma Scale_stays:
  assumes ans: "answersFor S" and key: "clusterKey c = k"
  shows "maintains I (confinedTo S k) (Scale S c q)"
proof -
  have claims: "yields I (\<lambda>qs. \<forall>p \<in> set qs. claimFor k (metaKey (pvc_Meta p))) (getClusterPVCs S c)"
    unfolding getClusterPVCs_def by (rule getPVCLoop_yields [OF ans key]) simp
  have read: "maintains I (confinedTo S k) (getClusterPVCs S c)"
  proof -
    have "maintains I (confinedTo S k) (getPVCLoop S c is ps)" for "is" ps
      by (induction "is" arbitrary: ps) (auto intro!: maintain_intros)
    then show ?thesis by (simp add: getClusterPVCs_def)
  qed
  have capacity: "maintains I (confinedTo S k) (existingCapacity S c)"
    unfolding existingCapacity_def getSts_def by (intro maintain_intros)
  have up: "maintains I (confinedTo S k) (scaleUpPVC S c q p)" if "claimFor k (metaKey (pvc_Meta p))" for p
  proof -
    have own: "claimFor k (metaKey (pvc_Meta p')) \<and> rc_Namespace c = om_Namespace (pvc_Meta p')"
      if "metaKey (pvc_Meta p') = (om_Namespace (pvc_Meta p), om_Name (pvc_Meta p))" for p'
      using that \<open>claimFor k (metaKey (pvc_Meta p))\<close> key by (auto simp: claimFor_def metaKey_def)
    have put: "maintains I (confinedTo S k) (updatePVC S (rc_Namespace c) (raise q p'))"
      if "metaKey (pvc_Meta p') = (om_Namespace (pvc_Meta p), om_Name (pvc_Meta p))" for p'
      unfolding updatePVC_def by (rule maintains_call) (use own [OF that] in simp)
    show ?thesis
      unfolding scaleUpPVC_def
      by (rule maintains_knowing [OF maintains_wrap [OF reads_stay(3)] yields_wrap [OF reads_yield(3) [OF ans]]])
         (intro maintain_intros put)
  qed
  then have "maintains I (confinedTo S k) (growPVCs S c q)"
    unfolding growPVCs_def scaleUpPVCs_def Let_def
    by (intro maintains_knowing [OF read claims] maintain_intros maintains_forEach deleteSts_stays ans key)
       (auto simp: pvcsNeedingScaling_def)
  then show ?thesis unfolding Scale_def by (intro maintain_intros capacity)
qed

lemma scaleVolumes_stays:
  assumes "answersFor (rec_Client R)" and "keyed k I" and "documented (rec_Client R)"
  shows "maintains I (confinedTo (rec_Client R) k) (scaleVolumes R sts)"
proof -
  have "maintains I (confinedTo (rec_Client R) k) (reconcilePVC R sts)"
    unfolding reconcilePVC_def Let_def
    by (rule maintains_get, intro maintain_intros Scale_stays assms keyedD(1) [OF assms(2)]; simp)
  then show ?thesis unfolding scaleVolumes_def by (intro maintain_intros cluster_steps_stay assms)
qed

section \<open>Restarts, commands and deletion\<close>

lemma sts_yields:
  assumes "answersFor (rec_Client R)" and "keyed k I"
  shows "yields I (\<lambda>s. childOf k (KStatefulSet, metaKey (st_Meta s))) (statefulSet R)"
proof -
  have "yields I (\<lambda>s. childOf k (KStatefulSet, metaKey (st_Meta s)))
      (getStatefulSet (rec_Client R) (rc_Namespace c, ChildResourceName c ''server''))" if "clusterKey c = k" for c
    using reads_yield(1) [OF assms(1)] childOf_names(1) [OF that that] by (fastforce simp: yields_def)
  then show ?thesis unfolding statefulSet_def by (intro yields_get) (metis keyedD(1) [OF assms(2)])
qed

lemma restart_stays:
  assumes "answersFor (rec_Client R)" and "keyed k I" and "documented (rec_Client R)"
  shows "maintains I (confinedTo (rec_Client R) k) (restartStatefulSetIfNeeded R)"
proof -
  have "maintains I (confinedTo (rec_Client R) k) (restartSts R)"
    unfolding restartSts_def
    by (intro maintains_onError assms(3) maintains_knowing [OF reads_stay(5) sts_yields [OF assms(1,2)]]
        maintain_intros writes_stay) (simp add: restartAnnotated_def)
  then show ?thesis
    unfolding restartStatefulSetIfNeeded_def Let_def by (intro maintain_intros) simp_all
qed

lemma runInPod_stays:
  assumes "clusterKey c = k" and "0 \<le> i"
  shows "maintains I (confinedTo S k) (runInPod R c cmd msg i)"
proof -
  from assms have "podOf k (rc_Namespace c, podNamed c i)"
    by (auto simp: podOf_def podNamed_def child_names metaKey_def itoa_def)
  then show ?thesis unfolding runInPod_def by (intro maintain_intros writes_stay(4)) simp_all
qed

lemma deleteAnnotation_stays:
  assumes "answersFor S" and "keyed k I"
  shows "childOf k (KStatefulSet, metaKey (st_Meta s)) \<Longrightarrow> maintains I (confinedTo S k) (deleteAnnotation (stsObject S) s key)"
    and "childOf k (KConfigMap, metaKey (cm_Meta cm)) \<Longrightarrow> maintains I (confinedTo S k) (deleteAnnotation (cmObject S) cm key)"
    and "clusterKey c = k \<Longrightarrow> maintains I (confinedTo S k) (deleteAnnotation (rmqObject S) c key)"
proof -
  have key: "metaKey (m\<lparr>om_Annotations := a\<rparr>) = metaKey m" for m a by (simp add: metaKey_def)
  show "childOf k (KStatefulSet, metaKey (st_Meta s)) \<Longrightarrow> maintains I (confinedTo S k) (deleteAnnotation (stsObject S) s key)"
    unfolding deleteAnnotation_def Let_def stsObject_def by (intro maintain_intros; simp) (intro maintain_intros writes_stay; simp add: key)
  show "childOf k (KConfigMap, metaKey (cm_Meta cm)) \<Longrightarrow> maintains I (confinedTo S k) (deleteAnnotation (cmObject S) cm key)"
    unfolding deleteAnnotation_def Let_def cmObject_def by (intro maintain_intros; simp) (intro maintain_intros writes_stay; simp add: key)
  assume c: "clusterKey c = k"
  have "I (c\<lparr>rc_Meta := (rc_Meta c)\<lparr>om_Annotations := a\<rparr>\<rparr>) ob" if "I d ob" for a d ob
    by (rule keyedD(2) [OF assms(2) that]) (use c key in simp)
  then show "maintains I (confinedTo S k) (deleteAnnotation (rmqObject S) c key)"
    unfolding deleteAnnotation_def Let_def rmqObject_def
    by (auto intro!: maintain_intros updates_stay [OF assms])
qed

lemma commands_stay:
  assumes ans: "answersFor (rec_Client R)" and I: "keyed k I" and s: "childOf k (KStatefulSet, metaKey (st_Meta sts))"
    and cfg: "\<And>cfg. ocfg = Some cfg \<Longrightarrow> childOf k (KConfigMap, metaKey (cm_Meta cfg))"
  shows "maintains I (confinedTo (rec_Client R) k) (runPendingCommands R sts ocfg)"
proof -
  let ?P = "confinedTo (rec_Client R) k"
  have flags: "maintains I ?P (runEnableFeatureFlagsCommand R sts)"
    unfolding runEnableFeatureFlagsCommand_def
    by (rule maintains_get, intro maintain_intros runInPod_stays deleteAnnotation_stays(1) ans I s keyedD(1) [OF I]) simp_all
  have plugins: "maintains I ?P (runSetPluginsCommand R cfg)" if "ocfg = Some cfg" for cfg
    unfolding runSetPluginsCommand_def
    by (rule maintains_get, intro maintain_intros maintains_forEach runInPod_stays deleteAnnotation_stays(2) ans I
        cfg that keyedD(1) [OF I]) auto
  have rebalance: "maintains I ?P (runQueueRebalanceCommand R)"
    unfolding runQueueRebalanceCommand_def
    by (rule maintains_get, intro maintain_intros runInPod_stays deleteAnnotation_stays(3) ans I keyedD(1) [OF I]) simp_all
  have recent: "maintains I ?P (pluginsConfigUpdatedRecently R ocfg)"
    by (rule maintains_quiet, intro frame_intros) (intro only_intros; simp)
  have "yields I (\<lambda>cfg. ocfg = Some cfg) (fromOutcome (deref ocfg))"
    by (rule yields_from) (cases ocfg; simp)
  note known = maintains_knowing [OF maintains_silent(3) this]
  show ?thesis
    unfolding runPendingCommands_def
    by (intro maintains_checked recent maintains_splits(1) maintains_silent known)
       (intro maintain_intros flags plugins rebalance; simp)+
qed

lemma cli_stays:
  assumes ans: "answersFor (rec_Client R)" and I: "keyed k I"
  shows "maintains I (confinedTo (rec_Client R) k) (runRabbitmqCLICommandsIfAnnotated R)"
proof -
  have cfg: "yields I (\<lambda>cm. childOf k (KConfigMap, metaKey (cm_Meta cm))) (configMap R (ChildResourceName c PluginsConfigName))"
    if "clusterKey c = k" for c
    unfolding configMap_def
  proof (rule yields_get)
    fix d ob assume "I d ob"
    with reads_yield(2) [OF ans] childOf_names(2) [OF that keyedD(1) [OF I]]
    show "yields I (\<lambda>cm. childOf k (KConfigMap, metaKey (cm_Meta cm)))
        (getConfigMap (rec_Client R) (rc_Namespace d, ChildResourceName c PluginsConfigName))"
      by (fastforce simp: yields_def)
  qed
  have "maintains I (confinedTo (rec_Client R) k)
      (bindM (fromOutcome (allReplicasReadyAndUpdated sts)) (\<lambda>ready.
         if \<not> ready then ret (15, None)
         else bindM getRmq (\<lambda>rmq. tryM (configMap R (ChildResourceName rmq PluginsConfigName)) (case_sum
           (\<lambda>err. if \<not> isNotFound err then ret (0, Some err) else runPendingCommands R sts None)
           (\<lambda>cfg. runPendingCommands R sts (Some cfg))))))"
    if "childOf k (KStatefulSet, metaKey (st_Meta sts))" for sts
    by (intro maintains_bind maintains_splits(1) maintains_silent maintains_get
        maintains_trying [OF reads_stay(6) cfg] commands_stay ans I that keyedD(1) [OF I]) auto
  then show ?thesis
    unfolding runRabbitmqCLICommandsIfAnnotated_def checked_def
    by (intro maintains_trying [OF reads_stay(5) sts_yields [OF ans I]] maintains_silent)
qed

text \<open>Deletion: the pods that are marked are those the server lists.\<close>

lemma labelPods_stay:
  assumes key: "clusterKey c = k"
  shows "maintains I (confinedTo (rec_Client R) k)
    (bindM (listPods (rec_Client R) (''app.kubernetes.io/name='' @ rc_Name c)) (forEach (labelPod R)))"
proof (rule maintains_knowing)
  let ?S = "rec_Client R"
  show "maintains I (confinedTo ?S k) (listPods ?S (''app.kubernetes.io/name='' @ rc_Name c))"
    unfolding listPods_def by (rule maintains_call) simp
  show "yields I (\<lambda>ps. \<forall>p \<in> set ps. listedPod ?S (snd k) (markPod p)) (listPods ?S (''app.kubernetes.io/name='' @ rc_Name c))"
    unfolding listPods_def
  proof (rule yields_call)
    fix l ps
    assume "api_listPods ?S (''app.kubernetes.io/name='' @ rc_Name c) l = Inr ps"
    moreover from key have "podSelector (snd k) = ''app.kubernetes.io/name='' @ rc_Name c"
      by (auto simp: podSelector_def metaKey_def)
    ultimately show "\<forall>p \<in> set ps. listedPod ?S (snd k) (markPod p)" unfolding listedPod_def by auto
  qed
  have "maintains I (confinedTo ?S k) (updatePod ?S q)" if "listedPod ?S (snd k) q" for q
    unfolding updatePod_def by (rule maintains_call) (use that in simp)
  then show "maintains I (confinedTo ?S k) (forEach (labelPod R) ps)"
    if "\<forall>p \<in> set ps. listedPod ?S (snd k) (markPod p)" for ps
    unfolding labelPod_def by (intro maintains_forEach maintain_intros) (use that in auto)
qed

lemma deletion_stays:
  assumes ans: "answersFor (rec_Client R)" and I: "keyed k I" and docs: "documented (rec_Client R)"
  shows "maintains I (confinedTo (rec_Client R) k) (prepareForDeletion R)"
proof -
  let ?P = "confinedTo (rec_Client R) k"
  have uid: "maintains I ?P (statefulSetUID R)"
    unfolding statefulSetUID_def by (intro maintain_intros)
  have label: "maintains I ?P (addRabbitmqDeletionLabel R)"
    unfolding addRabbitmqDeletionLabel_def Let_def
    by (rule maintains_get, intro maintains_splits maintains_silent labelPods_stay keyedD(1) [OF I])
  have del: "maintains I ?P (bindM getRmq (\<lambda>c.
      tryM (deleteStatefulSet (rec_Client R) (rc_Namespace c, ChildResourceName c ''server'') (onUID uid)) (case_sum
        (\<lambda>err. if isNotFound err then ret () else throw (Wrap ''cannot delete StatefulSet'' err)) (\<lambda>_. ret ()))))" for uid
    by (rule maintains_get, intro maintain_intros writes_stay(3) childOf_names keyedD(1) [OF I])
  show ?thesis
    unfolding prepareForDeletion_def deleteOwnedSts_def
    by (intro maintain_intros uid label del cluster_steps_stay assms)
qed

section \<open>The child objects\<close>

lemma objects_yield:
  assumes "answersFor S"
  shows "yields I (\<lambda>x. objectId x = i) (readObject S i)"
    and "objectId ob = i \<Longrightarrow> yields I (\<lambda>x. objectId x = i) (createObject S ob)"
    and "objectId ob = i \<Longrightarrow> yields I (\<lambda>x. objectId x = i) (updateObject S ob)"
  using answersForD(1) [OF assms] unfolding namesKept_def readObject_def createObject_def updateObject_def
  by (intro yields_call; simp only: split_paired_all split_paired_All; metis)+

lemma mutate_stays:
  assumes "keepsId f"
  shows "maintains (building k i) P (mutateResource f)" and "yields (building k i) (\<lambda>x. objectId x = i) (mutateResource f)"
proof -
  have "objectId y = i" if "objectId x = i" "f x = Ok y" for x y using assms that by (auto simp: keepsId_def)
  then show "maintains (building k i) P (mutateResource f)"
    unfolding mutateResource_def
    by (intro maintains_knowing [OF maintains_silent(5) yields_from(2) [where Q' = "\<lambda>x. objectId x = i"]]
        maintains_knowing [OF maintains_silent(3) yields_from(1) [where Q = "\<lambda>x. objectId x = i"]] maintain_intros) auto
  show "yields (building k i) (\<lambda>x. objectId x = i) (mutateResource f)"
    using assms by (auto simp: yields_def mutateResource_def bindM_def run_simps keepsId_def split: outcome.splits)
qed

lemma createOrUpdate_stays:
  assumes "documented S" and ans: "answersFor S" and keep: "keepsId f" and own: "childOf k i"
  shows "maintains (building k i) (confinedTo S k) (lib_createOrUpdate S f)"
proof -
  let ?I = "building k i" and ?P = "confinedTo S k"
  have put: "maintains ?I ?P (setResource x)" if "objectId x = i" for x
    by (rule maintains_modify(2)) (use that in simp)
  have create: "maintains ?I ?P (bindM (createObject S y) (\<lambda>x. bindM (setResource x) (\<lambda>_. setOperationResult res)))"
    if "objectId y = i" for y res
    by (rule maintains_knowing [OF _ objects_yield(2) [OF ans that]]) (intro maintain_intros put; use own that in simp)+
  have update: "maintains ?I ?P (bindM (updateObject S y) (\<lambda>x. bindM (setResource x) (\<lambda>_. setOperationResult res)))"
    if "objectId y = i" for y res
    by (rule maintains_knowing [OF _ objects_yield(3) [OF ans that]]) (intro maintain_intros put; use own that in simp)+
  note mutate = maintains_knowing [OF mutate_stays(1) [OF keep] mutate_stays(2) [OF keep]]
  have "maintains ?I ?P (tryM (readObject S i) (case_sum
       (\<lambda>e. if isNotFound e
            then bindM (mutateResource f) (\<lambda>ob'. bindM (createObject S ob') (\<lambda>ob''.
                 bindM (setResource ob'') (\<lambda>_. setOperationResult OperationResultCreated)))
            else throw e)
       (\<lambda>found. bindM (setResource found) (\<lambda>_. bindM (mutateResource f) (\<lambda>ob'.
            if ob' = found then ret ()
            else bindM (updateObject S ob') (\<lambda>ob''.
                 bindM (setResource ob'') (\<lambda>_. setOperationResult OperationResultUpdated)))))))"
    by (rule maintains_trying [OF _ objects_yield(1) [OF ans]])
       (intro maintains_objectCalls mutate create update maintains_splits(1) maintains_silent maintains_bind [OF put]; simp)+
  then have "maintains ?I ?P (tryM (readObject S (objectId ob)) (case_sum
       (\<lambda>e. if isNotFound e
            then bindM (mutateResource f) (\<lambda>ob'. bindM (createObject S ob') (\<lambda>ob''.
                 bindM (setResource ob'') (\<lambda>_. setOperationResult OperationResultCreated)))
            else throw e)
       (\<lambda>found. bindM (setResource found) (\<lambda>_. bindM (mutateResource f) (\<lambda>ob'.
            if ob' = found then ret ()
            else bindM (updateObject S ob') (\<lambda>ob''.
                 bindM (setResource ob'') (\<lambda>_. setOperationResult OperationResultUpdated)))))))"
    if "objectId ob = i" for ob using that by simp
  then show ?thesis
    unfolding documentedD(6) [OF assms(1)] documentedCreateOrUpdate_def
    by (intro maintains_bind maintains_silent
        maintains_knowing [OF maintains_silent(5) yields_from(2) [where Q' = "\<lambda>x. objectId x = i"]]) simp_all
qed

lemma applyBuilder_stays:
  assumes "documented (rec_Client R)" and "answersFor (rec_Client R)" and own: "setsOwnerOnly (rec_env R)"
  shows "maintains (building k (childId k b)) (confinedTo (rec_Client R) k) (applyBuilder R b)"
proof -
  have "keepsId (builder_Update (rec_env R) c b)" for c using update_id [OF own] by (simp add: keepsId_def)
  then have put: "maintains (building k (childId k b)) (confinedTo (rec_Client R) k)
      (lib_onError (rec_Client R) isConflict (lib_createOrUpdate (rec_Client R) (builder_Update (rec_env R) c b)))" for c
    by (intro maintains_onError createOrUpdate_stays assms childOf_id)
  show ?thesis
    unfolding applyBuilder_def logAndRecordOperationResult_def Let_def
    by (intro maintain_intros put annotateIfNeeded_stays cluster_steps_stay keyed_both assms) simp_all
qed

lemma recreateSts_stays:
  assumes "documented (rec_Client R)" and "answersFor (rec_Client R)" and own: "setsOwnerOnly (rec_env R)"
  shows "maintains (building k i) (confinedTo (rec_Client R) k) (recreateSts R b)"
proof -
  let ?I = "building k i" and ?P = "confinedTo (rec_Client R) k"
  have more: "maintains ?I ?P (bindM (setResource ob) (\<lambda>_. bindM (fromOutcome (asStatefulSet ob)) (\<lambda>sts.
      bindM (scaleDown R current sts) (\<lambda>down. if down then ret (Some (0, None)) else scaleVolumes R sts))))"
    if "objectId ob = i" for ob current
    by (intro maintain_intros cluster_steps_stay scaleVolumes_stays keyed_both assms) (use that in simp)
  have "yields ?I (\<lambda>y. objectId y = i) (fromOutcome (builder_Update (rec_env R) c b ob))" if "objectId ob = i" for c ob
    by (rule yields_from(1)) (use update_id [OF own] that in auto)
  note updated = maintains_trying [OF maintains_silent(3) this]
  have "maintains ?I ?P
     (bindM (fromOutcome (asStatefulSet ob)) (\<lambda>sts.
     tryM (statefulSet R) (case_sum
       (\<lambda>err. if \<not> isNotFound err then ret (Some (0, Some err)) else scaleVolumes R sts)
       (\<lambda>current. bindM getRmq (\<lambda>c.
          tryM (fromOutcome (builder_Update (rec_env R) c b ob)) (case_sum
            (\<lambda>err. ret (Some (0, Some err)))
            (\<lambda>ob. bindM (setResource ob) (\<lambda>_. bindM (fromOutcome (asStatefulSet ob)) (\<lambda>sts.
                  bindM (scaleDown R current sts) (\<lambda>down.
                  if down then ret (Some (0, None)) else scaleVolumes R sts))))))))))"
    if "objectId ob = i" for ob
    by (intro maintains_bind maintains_silent maintains_splits(1) scaleVolumes_stays keyed_both assms
        maintains_try [OF reads_stay(5)] maintains_splits(3) updated more that)
  then show ?thesis
    unfolding recreateSts_def
    by (intro maintains_knowing [OF maintains_silent(5) yields_from(2) [where Q' = "\<lambda>x. objectId x = i"]]) simp_all
qed

lemma reconcileBuilders_stay:
  assumes "documented (rec_Client R)" and "answersFor (rec_Client R)" and "setsOwnerOnly (rec_env R)"
  shows "maintains (ofKey k) (confinedTo (rec_Client R) k) (reconcileBuilders R bs)"
proof -
  let ?P = "confinedTo (rec_Client R) k"
  have made: "maintains (ofKey k) ?P (bindM (setResource ob) (\<lambda>_.
      orElse (if UpdateMayRequireStsRecreate b then recreateSts R b else ret None) (applyBuilder R b)))"
    if "objectId ob = childId k b" for ob b
  proof (rule maintains_building)
    show "maintains (building k (childId k b)) ?P
       (orElse (if UpdateMayRequireStsRecreate b then recreateSts R b else ret None) (applyBuilder R b))"
      unfolding orElse_def by (intro maintain_intros recreateSts_stays applyBuilder_stays assms)
  qed (use that in simp_all)
  have "maintains (ofKey k) ?P (reconcileBuilder R b)" for b
    unfolding reconcileBuilder_def
  proof (rule maintains_get)
    fix c and ob :: object
    assume "clusterKey c = k"
    then have "yields (ofKey k) (\<lambda>ob. objectId ob = childId k b) (fromOutcome (builder_Build (rec_env R) c b))"
      by (intro yields_from(1)) (auto dest: build_id simp: targetId_child)
    from maintains_trying [OF maintains_silent(3) this maintains_silent(1) made]
    show "maintains (ofKey k) ?P
      (tryM (fromOutcome (builder_Build (rec_env R) c b)) (case_sum (\<lambda>err. ret (Some (0, Some err)))
       (\<lambda>ob. bindM (setResource ob) (\<lambda>_.
             orElse (if UpdateMayRequireStsRecreate b then recreateSts R b else ret None) (applyBuilder R b)))))" .
  qed
  then show ?thesis by (induction bs) (auto simp: orElse_def intro!: maintain_intros)
qed

section \<open>The whole pass\<close>

lemma dispatch_stays:
  assumes docs: "documented (rec_Client R)" and ans: "answersFor (rec_Client R)" and own: "setsOwnerOnly (rec_env R)"
  shows "maintains (ofKey k) (confinedTo (rec_Client R) k) (dispatch R c)"
proof -
  let ?P = "confinedTo (rec_Client R) k"
  note steps = cluster_steps_stay [OF ans keyed_both(1) docs]
  have "maintains (ofKey k) ?P (finishReconcile R)"
    unfolding finishReconcile_def by (intro maintain_intros cli_stays steps ans keyed_both) simp
  then have children: "maintains (ofKey k) ?P (reconcileChildren R)"
    unfolding reconcileChildren_def unlessRequeued_def
    by (intro maintain_intros reconcileBuilders_stay restart_stays steps assms keyed_both)
  then have "maintains (ofKey k) ?P (reconcileActive R)"
    unfolding reconcileActive_def markThenChildren_def unlessRequeued_def by (intro maintain_intros steps)
  then show ?thesis
    unfolding dispatch_def by (intro maintain_intros deletion_stays steps ans docs keyed_both)
qed

text \<open>
  C9. A pass keeps to its own cluster. With a server whose answers are about what was asked, a
  reconciliation of a key, whatever path it takes and wherever it fails, updates only the
  cluster of this key, writes only child objects of this cluster, grows only the volume claims
  and runs commands only in the pods of its StatefulSet. The one exception is the mark of a
  deletion: the pods that get it are all those the server lists for the cluster's name, of
  whatever namespace.
\<close>

theorem pass_confined:
  assumes "documented (rec_Client R)" and "answersFor (rec_Client R)" and "setsOwnerOnly (rec_env R)"
  shows "list_all (confinedTo (rec_Client R) k) (events (Reconcile R k) w)"
proof -
  obtain r w' where run: "Reconcile R k w = (r, w')" by (cases "Reconcile R k w")
  have "\<exists>es. w_log w' = w_log w @ es \<and> list_all (confinedTo (rec_Client R) k) es"
  proof (cases "api_getCluster (rec_Client R) k (w_log w)")
    case (Inl q)
    with run show ?thesis by (cases q) (auto simp: run_Reconcile)
  next
    case (Inr c)
    let ?w = "w\<lparr>w_log := w_log w @ [GetCluster k (Inr c)], w_rmq := c\<rparr>"
    from run Inr have "dispatch R c ?w = (r, w')" by (simp add: run_Reconcile)
    moreover from answersForD(2) [OF assms(2) Inr] have "clusterKey c = k" .
    ultimately have "\<exists>es. w_log w' = w_log ?w @ es \<and> list_all (confinedTo (rec_Client R) k) es"
      using maintainsD [OF dispatch_stays [OF assms, of k c], of ?w r w'] by simp
    then obtain es where "w_log w' = w_log w @ (GetCluster k (Inr c) # es)" "list_all (confinedTo (rec_Client R) k) es" by auto
    then show ?thesis by (intro exI [of _ "GetCluster k (Inr c) # es"]) simp
  qed
  with run show ?thesis by (auto simp: events_def)
qed

theorem pass_confined_witness:
  "let es = events (Reconcile (sampleReconciler deletedApi) (''ns'', ''rmq'')) sampleWorld in
     list_all (confinedTo deletedApi (''ns'', ''rmq'')) es
     \<and> DeleteSts (''ns'', ''rmq-server'') (onUID (om_UID (st_Meta ownedSts))) (Inr ()) \<in> set es
     \<and> UpdatePod (markPod samplePod) (Inr (markPod samplePod)) \<in> set es"
proof -
  have "metaKey (rc_Meta deletedCluster) = (''ns'', ''rmq'')" "metaKey (st_Meta ownedSts) = (''ns'', ''rmq-server'')"
    by (simp_all add: deletedCluster_def sampleCluster_def ownedSts_def smallSts_def metaKey_def)
  then have ans: "answersFor deletedApi"
    by (simp add: answersFor_def namesKept_def deletedApi_def withLibraries_def sampleBase_def absent_def)
  obtain r w' sel where run: "Reconcile (sampleReconciler deletedApi) (''ns'', ''rmq'') sampleWorld = (r, w')"
    and log: "w_log w' = [GetCluster (''ns'', ''rmq'') (Inr deletedCluster), GetSts (stsKey deletedCluster) (Inr ownedSts),
        ListPods sel (Inr [samplePod]), UpdatePod (markPod samplePod) (Inr (markPod samplePod)),
        DeleteSts (stsKey deletedCluster) (onUID (om_UID (st_Meta ownedSts))) (Inr ())]
      @ [UpdateCluster (deletedCluster\<lparr>rc_Meta := (rc_Meta deletedCluster)\<lparr>om_Finalizers := []\<rparr>\<rparr>)
           (Inr (deletedCluster\<lparr>rc_Meta := (rc_Meta deletedCluster)\<lparr>om_Finalizers := []\<rparr>\<rparr>))]"
    using deleted_log by blast
  have "stsKey deletedCluster = (''ns'', ''rmq-server'')"
    by (simp add: stsKey_def child_names) (simp add: deletedCluster_def sampleCluster_def)
  with run log pass_confined [of "sampleReconciler deletedApi" "(''ns'', ''rmq'')" sampleWorld] ans
    deletedApi_documented sampleEnv_owner
  show ?thesis by (simp add: events_def)
qed

end
