(* ===== verification/Operator_Main.thy ===== *)
theory Operator_Main
  imports Reconcile Api_Samples
begin

text \<open>
  The process around the reconciler: \<^verbatim>\<open>main.go\<close>, \<^verbatim>\<open>SetupWithManager\<close> of
  \<^verbatim>\<open>controllers/rabbitmqcluster_controller.go\<close>, \<^verbatim>\<open>AddDebugPprofEndpoints\<close> of
  \<^verbatim>\<open>pkg/profiling/pprof.go\<close> and the pod executor. What the process reads (environment,
  flags) are arguments, what it asks of the controller manager are calls in a log, and it ends
  with an exit status. Lines of the operator's own log are not modelled.
\<close>

section \<open>Numbers, truth values and durations in the environment\<close>

text \<open>\<^verbatim>\<open>os.LookupEnv\<close> is the map itself; \<^verbatim>\<open>os.Getenv\<close> reads an unset variable as empty.\<close>

type_synonym environ = "string \<Rightarrow> string option"

definition getenv :: "environ \<Rightarrow> string \<Rightarrow> string" where
  "getenv v name = (case v name of None \<Rightarrow> [] | Some s \<Rightarrow> s)"

definition isDigit :: "char \<Rightarrow> bool" where
  "isDigit c \<longleftrightarrow> (48 :: nat) \<le> of_char c \<and> of_char c \<le> (57 :: nat)"

text \<open>
  \<^verbatim>\<open>strconv.ParseInt(s, 10, 64)\<close>: an optional sign and at least one decimal digit, within the
  64 bits; \<^const>\<open>None\<close> stands for its errors, which \<^verbatim>\<open>main\<close> does not tell apart.
\<close>

definition parseUint :: "string \<Rightarrow> int option" where
  "parseUint s = (if s \<noteq> [] \<and> list_all isDigit s then Some (int (natVal s)) else None)"

definition inInt64 :: "int \<Rightarrow> bool" where
  "inInt64 n \<longleftrightarrow> - (2 ^ 63) \<le> n \<and> n < 2 ^ 63"

definition signedPart :: "string \<Rightarrow> int option" where
  "signedPart s = (case s of
      [] \<Rightarrow> None
    | c # cs \<Rightarrow> if c = CHR ''-'' then map_option uminus (parseUint cs)
        else if c = CHR ''+'' then parseUint cs else parseUint s)"

definition parseInt64 :: "string \<Rightarrow> int option" where
  "parseInt64 s = (case signedPart s of
      None \<Rightarrow> None
    | Some n \<Rightarrow> if inInt64 n then Some n else None)"

text \<open>\<^verbatim>\<open>strconv.ParseBool\<close>.\<close>

definition parseBool :: "string \<Rightarrow> bool option" where
  "parseBool s =
     (if s \<in> {''1'', ''t'', ''T'', ''TRUE'', ''true'', ''True''} then Some True
      else if s \<in> {''0'', ''f'', ''F'', ''FALSE'', ''false'', ''False''} then Some False
      else None)"

text \<open>A \<^verbatim>\<open>time.Duration\<close> is a signed 64-bit count of nanoseconds.\<close>

type_synonym duration = "64 word"

definition second :: duration where
  "second = 1000000000"

text \<open>A function that may call \<^verbatim>\<open>os.Exit\<close> or panic: the exit status or a value.\<close>

type_synonym 'a exiting = "nat + 'a"

definition getEnvInDuration :: "environ \<Rightarrow> string \<Rightarrow> duration exiting" where
  "getEnvInDuration v envName =
     (if getenv v envName = [] then Inr (word_of_int 0 * second)
      else case parseInt64 (getenv v envName) of
          None \<Rightarrow> Inl 1
        | Some durationInt \<Rightarrow> Inr (word_of_int durationInt * second))"

lemma isDigit_digit: "d < 10 \<Longrightarrow> isDigit (digit d)"
  by (simp add: isDigit_def of_char_digit)

lemma natDec_all_digits: "list_all isDigit (natDec n)"
  using natDec_digits [of n] isDigit_digit by (auto simp: list_all_iff)

lemma parseUint_natDec [simp]: "parseUint (natDec n) = Some (int n)"
  by (simp add: parseUint_def natDec_all_digits)

lemma isDigit_not_sign: "isDigit c \<Longrightarrow> c \<noteq> CHR ''-'' \<and> c \<noteq> CHR ''+''"
  by (auto simp: isDigit_def)

text \<open>Reading a printed number gives the number back, within the 64 bits.\<close>

lemma signedPart_itoa: "signedPart (itoa n) = Some n"
proof (cases "n < 0")
  case True
  then show ?thesis by (simp add: itoa_def signedPart_def)
next
  case False
  then have eq: "itoa n = natDec (nat n)" by (simp add: itoa_def)
  obtain c cs where s: "natDec (nat n) = c # cs"
    by (cases "natDec (nat n)") simp_all
  with natDec_all_digits [of "nat n"] have "isDigit c" by simp
  then have "signedPart (itoa n) = parseUint (natDec (nat n))"
    using s isDigit_not_sign [of c] by (auto simp: eq signedPart_def)
  with False show ?thesis by simp
qed

lemma parseInt64_itoa: "parseInt64 (itoa n) = (if inInt64 n then Some n else None)"
  by (simp add: parseInt64_def signedPart_itoa)

lemma parseInt64_range: "parseInt64 s = Some n \<Longrightarrow> inInt64 n"
  by (auto simp: parseInt64_def split: option.splits if_splits)

lemma itoa_nonempty: "itoa n \<noteq> []"
  by (simp add: itoa_def)

text \<open>Multiplying by a second wraps around at 64 bits.\<close>

lemma second_int: "(word_of_int n * second :: duration) = word_of_int (n * 10 ^ 9)"
  by (simp add: second_def)

lemma sint_second: "sint (word_of_int n * second :: duration) = signed_take_bit 63 (n * 10 ^ 9)"
  unfolding second_int signed_of_int by simp

lemma sint_second_exact:
  "sint (word_of_int n * second :: duration) = n * 10 ^ 9 \<longleftrightarrow> \<bar>n\<bar> \<le> 9223372036"
proof -
  have "signed_take_bit 63 (n * 10 ^ 9) = n * 10 ^ 9 \<longleftrightarrow> - (2 ^ 63) \<le> n * 10 ^ 9 \<and> n * 10 ^ 9 < 2 ^ 63"
    by (metis signed_take_bit_int_eq_self_iff)
  also have "\<dots> \<longleftrightarrow> \<bar>n\<bar> \<le> 9223372036" by auto
  finally show ?thesis unfolding sint_second .
qed

lemma second_zero: "(word_of_int n * second :: duration) = 0 \<longleftrightarrow> 2 ^ 55 dvd n"
proof -
  have "(word_of_int n * second :: duration) = 0 \<longleftrightarrow> (2 :: int) ^ 64 dvd n * 10 ^ 9"
    unfolding second_int word_of_int_eq_0_iff by simp
  also have "n * 10 ^ 9 = (2 ^ 9 * (5 ^ 9 * n) :: int)" by simp
  also have "(2 :: int) ^ 64 dvd 2 ^ 9 * (5 ^ 9 * n) \<longleftrightarrow> 2 ^ 55 dvd 5 ^ 9 * n"
    using dvd_mult_cancel_left [of "(2 :: int) ^ 9" "2 ^ 55" "5 ^ 9 * n"] by (simp flip: power_add)
  also have "\<dots> \<longleftrightarrow> 2 ^ 55 dvd n"
    by (rule coprime_dvd_mult_right_iff, subst coprime_power_left_iff, subst coprime_power_right_iff)
      (simp add: coprime_left_2_iff_odd)
  finally show ?thesis .
qed

lemma duration_of_number:
  assumes "getenv v name = itoa n"
  shows "getEnvInDuration v name = (if inInt64 n then Inr (word_of_int n * second) else Inl 1)"
  by (simp add: getEnvInDuration_def assms itoa_nonempty parseInt64_itoa)

text \<open>
  C38. What an operator gets for a duration in the environment. A decimal number of seconds
  within 64 bits is accepted, whatever its sign, and is the duration of that many seconds
  exactly when it is at most 9223372036 in absolute value; beyond that the product wraps around
  silently, and for a multiple of 2 ^ 55 it is zero, which the caller takes for an unset
  variable. A number outside 64 bits and a text that is no number end the process with
  status 1; an unset or empty variable is zero.
\<close>

theorem duration_bounds:
  "(getenv v name = itoa n \<longrightarrow> inInt64 n \<longrightarrow> (\<exists>d. getEnvInDuration v name = Inr d
       \<and> (sint d = n * 10 ^ 9 \<longleftrightarrow> \<bar>n\<bar> \<le> 9223372036) \<and> (d = 0 \<longleftrightarrow> 2 ^ 55 dvd n)))
   \<and> (getenv v name = itoa n \<longrightarrow> \<not> inInt64 n \<longrightarrow> getEnvInDuration v name = Inl 1)
   \<and> (getenv v name \<noteq> [] \<longrightarrow> signedPart (getenv v name) = None \<longrightarrow> getEnvInDuration v name = Inl 1)
   \<and> (getenv v name = [] \<longrightarrow> getEnvInDuration v name = Inr 0)"
proof (intro conjI impI)
  assume "getenv v name = itoa n" and "inInt64 n"
  then have "getEnvInDuration v name = Inr (word_of_int n * second)" by (simp add: duration_of_number)
  then show "\<exists>d. getEnvInDuration v name = Inr d
       \<and> (sint d = n * 10 ^ 9 \<longleftrightarrow> \<bar>n\<bar> \<le> 9223372036) \<and> (d = 0 \<longleftrightarrow> 2 ^ 55 dvd n)"
    using sint_second_exact second_zero by blast
qed (simp_all add: duration_of_number, simp_all add: getEnvInDuration_def parseInt64_def)

theorem duration_bounds_witness:
  "\<exists>d. getEnvInDuration [''LEASE_DURATION'' \<mapsto> itoa 36028797018963968] ''LEASE_DURATION'' = Inr d
     \<and> d = 0 \<and> sint d \<noteq> 36028797018963968 * 10 ^ 9"
  using duration_bounds [of "[''LEASE_DURATION'' \<mapsto> itoa 36028797018963968]" "''LEASE_DURATION''"
      36028797018963968]
  by (auto simp: getenv_def inInt64_def)

section \<open>The controller manager\<close>

text \<open>What \<^verbatim>\<open>main\<close> decides: the options of the manager and the fields of the reconciler.\<close>

record managerOptions =
  mo_MetricsBindAddress :: string
  mo_LeaderElection :: bool
  mo_LeaderElectionNamespace :: string
  mo_LeaderElectionID :: string
  mo_Namespace :: string
  mo_LeaseDuration :: "duration option"
  mo_RenewDeadline :: "duration option"
  mo_RetryPeriod :: "duration option"

record operatorConfig =
  oc_Namespace :: string
  oc_DefaultRabbitmqImage :: string
  oc_DefaultUserUpdaterImage :: string
  oc_DefaultImagePullSecrets :: string

datatype pprofHandler = PprofIndex | PprofCmdline | PprofProfile | PprofSymbol | PprofTrace

text \<open>
  The calls to the libraries that may fail, in the order they are made, each with its answer
  (\<^const>\<open>None\<close> is a nil error). \<open>GetConfigOrDie\<close> and \<open>NewForConfigOrDie\<close> end the process
  themselves when they fail.
\<close>

datatype managerCall =
    GetConfigOrDie
  | NewManager managerOptions
  | AddMetricsExtraHandler string pprofHandler
  | NewForConfigOrDie
  | IndexField kind string
  | CompleteController operatorConfig "kind list"
  | StartManager

type_synonym callLog = "(managerCall \<times> error option) list"
type_synonym answers = "callLog \<Rightarrow> managerCall \<Rightarrow> error option"

definition ask :: "answers \<Rightarrow> managerCall \<Rightarrow> callLog \<Rightarrow> error option \<times> callLog" where
  "ask A c l = (A l c, l @ [(c, A l c)])"

text \<open>A loop of calls that returns the first error.\<close>

fun askAll :: "answers \<Rightarrow> managerCall list \<Rightarrow> callLog \<Rightarrow> error option \<times> callLog" where
  "askAll A [] l = (None, l)"
| "askAll A (c # cs) l =
     (case ask A c l of (Some e, l') \<Rightarrow> (Some e, l') | (None, l') \<Rightarrow> askAll A cs l')"

definition pprofEndpoints :: "(string, pprofHandler) gomap" where
  "pprofEndpoints = mlit [
     (''/debug/pprof'', PprofIndex),
     (''/debug/pprof/allocs'', PprofIndex),
     (''/debug/pprof/block'', PprofIndex),
     (''/debug/pprof/cmdline'', PprofCmdline),
     (''/debug/pprof/goroutine'', PprofIndex),
     (''/debug/pprof/heap'', PprofIndex),
     (''/debug/pprof/mutex'', PprofIndex),
     (''/debug/pprof/profile'', PprofProfile),
     (''/debug/pprof/symbol'', PprofSymbol),
     (''/debug/pprof/threadcreate'', PprofIndex),
     (''/debug/pprof/trace'', PprofTrace)]"

text \<open>\<open>visit\<close> is the order in which the loop over the map visits its entries.\<close>

definition AddDebugPprofEndpoints ::
    "answers \<Rightarrow> (string \<times> pprofHandler) list \<Rightarrow> callLog \<Rightarrow> error option \<times> callLog" where
  "AddDebugPprofEndpoints A visit l = askAll A (map (\<lambda>(path, h). AddMetricsExtraHandler path h) visit) l"

definition ownerKey :: string where "ownerKey = ''.metadata.controller''"

definition indexedKinds :: "kind list" where
  "indexedKinds = [KStatefulSet, KConfigMap, KService]"

definition ownedKinds :: "kind list" where
  "ownedKinds = [KStatefulSet, KConfigMap, KService, KRole, KRoleBinding, KServiceAccount, KSecret]"

definition SetupWithManager :: "answers \<Rightarrow> operatorConfig \<Rightarrow> callLog \<Rightarrow> error option \<times> callLog" where
  "SetupWithManager A r l =
     (case askAll A (map (\<lambda>k. IndexField k ownerKey) indexedKinds) l of
        (Some e, l') \<Rightarrow> (Some e, l')
      | (None, l') \<Rightarrow> ask A (CompleteController r ownedKinds) l')"

section \<open>The entry point\<close>

text \<open>
  A process: its environment, the metrics address \<^verbatim>\<open>flag.Parse\<close> makes of the command line
  and the default given with the flag (or the status with which the flag package ends the
  process), the visit of the map of endpoints, and the statuses with which the two \<^verbatim>\<open>OrDie\<close>
  functions of the libraries end it.
\<close>

record process =
  pr_env :: environ
  pr_flag :: "string \<Rightarrow> string exiting"
  pr_visit :: "(string \<times> pprofHandler) list"
  pr_configDied :: nat
  pr_clientsetDied :: nat

definition durationOption :: "duration \<Rightarrow> duration option" where
  "durationOption d = (if d \<noteq> 0 then Some d else None)"

definition envOr :: "environ \<Rightarrow> string \<Rightarrow> string \<Rightarrow> string" where
  "envOr v name dflt = (case v name of Some s \<Rightarrow> s | None \<Rightarrow> dflt)"

definition exitingBind :: "'a exiting \<Rightarrow> ('a \<Rightarrow> 'b exiting) \<Rightarrow> 'b exiting" where
  "exitingBind r f = (case r of Inl st \<Rightarrow> Inl st | Inr a \<Rightarrow> f a)"

definition controllerOptions :: "environ \<Rightarrow> string \<Rightarrow> managerOptions exiting" where
  "controllerOptions v metricsAddr =
     exitingBind (getEnvInDuration v ''LEASE_DURATION'') (\<lambda>leaseDuration.
     exitingBind (getEnvInDuration v ''RENEW_DEADLINE'') (\<lambda>renewDeadline.
     exitingBind (getEnvInDuration v ''RETRY_PERIOD'') (\<lambda>retryPeriod.
     Inr \<lparr>mo_MetricsBindAddress = metricsAddr, mo_LeaderElection = True,
       mo_LeaderElectionNamespace = getenv v ''OPERATOR_NAMESPACE'',
       mo_LeaderElectionID = ''rabbitmq-cluster-operator-leader-election'',
       mo_Namespace = getenv v ''OPERATOR_SCOPE_NAMESPACE'',
       mo_LeaseDuration = durationOption leaseDuration,
       mo_RenewDeadline = durationOption renewDeadline,
       mo_RetryPeriod = durationOption retryPeriod\<rparr>)))"

definition operatorConfigOf :: "environ \<Rightarrow> operatorConfig" where
  "operatorConfigOf v = \<lparr>oc_Namespace = getenv v ''OPERATOR_NAMESPACE'',
     oc_DefaultRabbitmqImage = envOr v ''DEFAULT_RABBITMQ_IMAGE'' ''rabbitmq:3.10.2-management'',
     oc_DefaultUserUpdaterImage = envOr v ''DEFAULT_USER_UPDATER_IMAGE''
       ''rabbitmqoperator/default-user-credential-updater:1.0.2'',
     oc_DefaultImagePullSecrets = envOr v ''DEFAULT_IMAGE_PULL_SECRETS'' []\<rparr>"

text \<open>An error that ends the process with a status, or the rest of the function.\<close>

definition orExit :: "nat \<Rightarrow> error option \<times> callLog \<Rightarrow> (callLog \<Rightarrow> nat \<times> callLog) \<Rightarrow> nat \<times> callLog" where
  "orExit st r k = (case r of (Some e, l) \<Rightarrow> (st, l) | (None, l) \<Rightarrow> k l)"

definition debugEndpoints :: "process \<Rightarrow> answers \<Rightarrow> callLog \<Rightarrow> error option \<times> callLog" where
  "debugEndpoints P A l =
     (case pr_env P ''ENABLE_DEBUG_PPROF'' of
        Some enableDebugPprof \<Rightarrow>
          if parseBool enableDebugPprof = Some True then AddDebugPprofEndpoints A (pr_visit P) l
          else (None, l)
      | None \<Rightarrow> (None, l))"

definition startManager :: "process \<Rightarrow> answers \<Rightarrow> managerOptions \<Rightarrow> callLog \<Rightarrow> nat \<times> callLog" where
  "startManager P A options l =
     orExit (pr_configDied P) (ask A GetConfigOrDie l) (\<lambda>l.
     orExit 1 (ask A (NewManager options) l) (\<lambda>l.
     orExit 1 (debugEndpoints P A l) (\<lambda>l.
     orExit (pr_configDied P) (ask A GetConfigOrDie l) (\<lambda>l.
     orExit (pr_clientsetDied P) (ask A NewForConfigOrDie l) (\<lambda>l.
     orExit 1 (SetupWithManager A (operatorConfigOf (pr_env P)) l) (\<lambda>l.
     orExit 1 (ask A StartManager l) (\<lambda>l. (0, l))))))))"

text \<open>The exit status of the process, and the calls it has made.\<close>

definition operatorMain :: "process \<Rightarrow> answers \<Rightarrow> nat \<times> callLog" where
  "operatorMain P A =
     (case pr_flag P '':9782'' of
        Inl st \<Rightarrow> (st, [])
      | Inr metricsAddr \<Rightarrow>
          if getenv (pr_env P) ''OPERATOR_NAMESPACE'' = [] then (1, [])
          else (case controllerOptions (pr_env P) metricsAddr of
              Inl st \<Rightarrow> (st, [])
            | Inr options \<Rightarrow> startManager P A options []))"

text \<open>The calls of a start in which none fails.\<close>

definition startupPlan :: "process \<Rightarrow> managerOptions \<Rightarrow> managerCall list" where
  "startupPlan P options =
     [GetConfigOrDie, NewManager options]
     @ (if Option.bind (pr_env P ''ENABLE_DEBUG_PPROF'') parseBool = Some True
        then map (\<lambda>(path, h). AddMetricsExtraHandler path h) (pr_visit P) else [])
     @ [GetConfigOrDie, NewForConfigOrDie]
     @ map (\<lambda>k. IndexField k ownerKey) indexedKinds
     @ [CompleteController (operatorConfigOf (pr_env P)) ownedKinds, StartManager]"

lemma askAll_append:
  "askAll A (cs @ ds) l = (case askAll A cs l of (Some e, l') \<Rightarrow> (Some e, l') | (None, l') \<Rightarrow> askAll A ds l')"
  by (induction cs arbitrary: l) (auto split: prod.splits option.splits)

lemma askAll_one: "askAll A [c] l = ask A c l"
  by (simp add: ask_def split: option.split)

lemma SetupWithManager_askAll: "SetupWithManager A r l =
    askAll A (map (\<lambda>k. IndexField k ownerKey) indexedKinds @ [CompleteController r ownedKinds]) l"
  by (simp add: SetupWithManager_def askAll_append ask_def split: prod.split option.split)

lemma debugEndpoints_askAll: "debugEndpoints P A l =
    askAll A (if Option.bind (pr_env P ''ENABLE_DEBUG_PPROF'') parseBool = Some True
        then map (\<lambda>(path, h). AddMetricsExtraHandler path h) (pr_visit P) else []) l"
  by (auto simp: debugEndpoints_def AddDebugPprofEndpoints_def split: option.split)

text \<open>A function that makes the calls \<open>cs\<close> until one fails, with status 0 when none does.\<close>

definition follows :: "answers \<Rightarrow> managerCall list \<Rightarrow> (callLog \<Rightarrow> nat \<times> callLog) \<Rightarrow> bool" where
  "follows A cs m \<longleftrightarrow> (\<forall>l. snd (m l) = snd (askAll A cs l) \<and> (fst (m l) = 0 \<longleftrightarrow> fst (askAll A cs l) = None))"

lemma follows_done: "follows A [] (\<lambda>l. (0, l))"
  by (simp add: follows_def)

lemma follows_orExit:
  assumes "st \<noteq> 0" and "\<And>l. r l = askAll A cs l" and "follows A ds k"
  shows "follows A (cs @ ds) (\<lambda>l. orExit st (r l) k)"
  using assms by (auto simp: follows_def orExit_def askAll_append split: prod.split option.split)

lemma follows_ask:
  assumes "st \<noteq> 0" and "follows A ds k"
  shows "follows A (c # ds) (\<lambda>l. orExit st (ask A c l) k)"
  by (rule follows_orExit [where cs = "[c]", unfolded append_Cons append_Nil,
        OF assms(1) askAll_one [symmetric] assms(2)])

lemma startManager_follows:
  assumes "pr_configDied P \<noteq> 0" and "pr_clientsetDied P \<noteq> 0"
  shows "follows A (startupPlan P options) (startManager P A options)"
proof -
  have registration: "follows A (map (\<lambda>k. IndexField k ownerKey) indexedKinds
       @ [CompleteController (operatorConfigOf (pr_env P)) ownedKinds, StartManager])
     (\<lambda>l. orExit 1 (SetupWithManager A (operatorConfigOf (pr_env P)) l) (\<lambda>l.
          orExit 1 (ask A StartManager l) (\<lambda>l. (0, l))))"
    using follows_orExit [OF one_neq_zero SetupWithManager_askAll follows_ask [OF one_neq_zero follows_done]]
    by simp
  show ?thesis
    unfolding startupPlan_def startManager_def [abs_def] append_Cons append_Nil
    by (intro follows_ask [OF assms(1)] follows_ask [OF one_neq_zero] follows_ask [OF assms(2)]
        follows_orExit [OF one_neq_zero debugEndpoints_askAll] registration)
qed

lemma askAll_log:
  "\<exists>es. snd (askAll A cs l) = l @ es \<and> prefix (map fst es) cs \<and> list_all (\<lambda>e. snd e = None) (butlast es)
     \<and> (fst (askAll A cs l) = None \<longleftrightarrow> map fst es = cs \<and> list_all (\<lambda>e. snd e = None) es)"
proof (induction cs arbitrary: l)
  case (Cons c cs)
  show ?case
  proof (cases "A l c")
    case (Some e)
    then show ?thesis by (intro exI [of _ "[(c, Some e)]"]) (simp add: ask_def)
  next
    case None
    obtain es where "snd (askAll A cs (l @ [(c, None)])) = (l @ [(c, None)]) @ es"
      and "prefix (map fst es) cs" and "list_all (\<lambda>e. snd e = None) (butlast es)"
      and "fst (askAll A cs (l @ [(c, None)])) = None
        \<longleftrightarrow> map fst es = cs \<and> list_all (\<lambda>e. snd e = None) es"
      using Cons.IH by blast
    with None show ?thesis by (intro exI [of _ "(c, None) # es"]) (simp add: ask_def)
  qed
qed simp

text \<open>
  C39. How the operator starts. With a valid environment the process makes the calls of its
  plan in order: the manager with its leader election options, the profiling endpoints when
  they are enabled, the clients, the three owner indices, the controller with the defaults from
  the environment, and the start of the manager last. It goes on only after a call that has
  succeeded, so the manager is started only with the whole registration done, and the
  process ends with status 0 exactly when every call has succeeded.
\<close>

theorem operator_startup:
  assumes "pr_configDied P \<noteq> 0" and "pr_clientsetDied P \<noteq> 0"
    and "pr_flag P '':9782'' = Inr addr" and "getenv (pr_env P) ''OPERATOR_NAMESPACE'' \<noteq> []"
    and "controllerOptions (pr_env P) addr = Inr options" and run: "operatorMain P A = (st, l)"
  shows "prefix (map fst l) (startupPlan P options)
     \<and> list_all (\<lambda>e. snd e = None) (butlast l)
     \<and> (st = 0 \<longleftrightarrow> map fst l = startupPlan P options \<and> list_all (\<lambda>e. snd e = None) l)"
proof -
  have "startManager P A options [] = (st, l)" using assms by (simp add: operatorMain_def)
  with startManager_follows [OF assms(1,2), of A options]
  have "l = snd (askAll A (startupPlan P options) [])"
    and "st = 0 \<longleftrightarrow> fst (askAll A (startupPlan P options) []) = None"
    unfolding follows_def by (metis fst_conv snd_conv)+
  with askAll_log [of A "startupPlan P options" "[]"] show ?thesis by auto
qed

definition sampleProcess :: process where
  "sampleProcess = \<lparr>pr_env = [''OPERATOR_NAMESPACE'' \<mapsto> ''rabbitmq-system'', ''LEASE_DURATION'' \<mapsto> itoa 30],
     pr_flag = Inr, pr_visit = [], pr_configDied = 1, pr_clientsetDied = 2\<rparr>"

theorem operator_startup_witness:
  "\<exists>options. controllerOptions (pr_env sampleProcess) '':9782'' = Inr options
     \<and> mo_LeaseDuration options = Some (30 * second)
     \<and> map fst (snd (operatorMain sampleProcess (\<lambda>l c. None))) = startupPlan sampleProcess options"
proof -
  let ?v = "pr_env sampleProcess"
  have "getEnvInDuration ?v ''LEASE_DURATION'' = Inr (30 * second)"
    and "getEnvInDuration ?v ''RENEW_DEADLINE'' = Inr 0" and "getEnvInDuration ?v ''RETRY_PERIOD'' = Inr 0"
    using duration_of_number [of ?v "''LEASE_DURATION''" 30]
    by (simp_all add: getEnvInDuration_def getenv_def sampleProcess_def inInt64_def)
  then obtain options where options: "controllerOptions ?v '':9782'' = Inr options"
    and "mo_LeaseDuration options = Some (30 * second)"
    by (simp add: controllerOptions_def exitingBind_def durationOption_def second_def)
  moreover obtain st l where run: "operatorMain sampleProcess (\<lambda>l c. None) = (st, l)" by fastforce
  moreover have "st = 0"
    using run options by (simp add: operatorMain_def sampleProcess_def getenv_def startManager_def
        orExit_def ask_def debugEndpoints_def SetupWithManager_def indexedKinds_def)
  ultimately show ?thesis
    using operator_startup [OF _ _ _ _ options run]
    by (simp add: sampleProcess_def getenv_def)
qed

section \<open>Watched objects\<close>

text \<open>
  \<^verbatim>\<open>SetControllerReference\<close> records the cluster, with the group, version and kind it is
  registered under, as the controller of the object.
\<close>

definition setsController :: "env \<Rightarrow> bool" where
  "setsController E \<longleftrightarrow>
     (\<forall>c m m'. env_setControllerReference E c m = Inr m' \<longrightarrow>
        (\<exists>ref. List.find (\<lambda>r. or_Controller r = Some True) (om_OwnerReferences m') = Some ref
           \<and> or_APIVersion ref = ''rabbitmq.com/v1beta1'' \<and> or_Kind ref = ''RabbitmqCluster''
           \<and> or_Name ref = rc_Name c))"

text \<open>The owner reference is the last thing every update writes to the metadata.\<close>

lemma builder_Update_owner:
  assumes "builder_Update E c b ob = Ok ob'"
  shows "\<exists>m. setOwner E c m = Ok (objMeta ob')"
proof (cases b)
  case ServiceBuilder
  with assms obtain sv sv' where "Service_Update E c sv = Ok sv'" and "ob' = OService sv'" by auto
  with Service_Update_meta show ?thesis by (intro exI) simp
next
  case StatefulSetBuilder
  with assms obtain sts sts' where "StatefulSet_Update E c sts = Ok sts'" and "ob' = OStatefulSet sts'"
    by auto
  with StatefulSet_Update_meta show ?thesis by (intro exI) simp
qed (use assms in \<open>auto simp: HeadlessService_Update_def ErlangCookie_Update_def
       DefaultUserSecret_Update_def PluginsConfigMap_Update_def putPlugins_def ServerConfigMap_Update_def
       ServiceAccount_Update_def Role_Update_def RoleBinding_Update_def Let_def\<close>)



section \<open>The pod executor\<close>

text \<open>
  The request the executor posts. Building the executor for it and streaming (with the output
  collected on both streams and no input) are \<^verbatim>\<open>client-go\<close>; the commands of the controller
  look at the error only.
\<close>

record execRequest =
  er_Method :: string
  er_Resource :: string
  er_SubResource :: string
  er_Namespace :: string
  er_Name :: string
  er_Container :: string
  er_Command :: "string list"
  er_Stdin :: bool
  er_Stdout :: bool
  er_Stderr :: bool

definition execRequestFor :: "string \<Rightarrow> string \<Rightarrow> string \<Rightarrow> string list \<Rightarrow> execRequest" where
  "execRequestFor namespace podName containerName command =
     \<lparr>er_Method = ''POST'', er_Resource = ''pods'', er_SubResource = ''exec'',
      er_Namespace = namespace, er_Name = podName, er_Container = containerName,
      er_Command = command, er_Stdin = False, er_Stdout = True, er_Stderr = True\<rparr>"

definition PodExec :: "(execRequest \<Rightarrow> error + 'x) \<Rightarrow> ('x \<Rightarrow> string \<times> string \<times> error option)
    \<Rightarrow> string \<Rightarrow> string \<Rightarrow> string \<Rightarrow> string list \<Rightarrow> string \<times> string \<times> error option" where
  "PodExec newSPDYExecutor stream namespace podName containerName command =
     (case newSPDYExecutor (execRequestFor namespace podName containerName command) of
        Inl e \<Rightarrow> ([], [], Some e)
      | Inr ex \<Rightarrow> stream ex)"

end
