(* ===== verification/Test_Bed.thy ===== *)
theory Test_Bed
  imports Operator_Main
begin

text \<open>
  The effects of the helpers of the system tests, \<^verbatim>\<open>system_tests/utils.go\<close>. A helper is a
  run \<open>'a run = tevent list \<Rightarrow> 'a outcome \<times> tevent list\<close>: it appends every call to the
  outside, with its answer, to a log. The outside (\<^verbatim>\<open>kubectl\<close>, the API server as the
  clientset sees it, HTTP and AMQP endpoints, files, the certificate library) is the record
  \<open>testbed\<close>, whose functions answer from the log so far.

  A returned error is \<open>Err\<close>. A failed expectation ends the test by a panic and is
  \<open>Panic\<close>, as is a panic of the helper itself. Printing is not an event, and neither is the
  depth of the call stack that a failure is attributed to, or closing the body of a response. The
  constant options of a call (time limits, quality of service, durability, acknowledgement, content
  type) belong to the call and are not repeated in its event.
\<close>

section \<open>The outside\<close>

record httpRequest =
  hq_Method :: string
  hq_Url :: string
  hq_User :: "(string \<times> string) option"
  hq_Body :: string

text \<open>The body of a response, or the error of reading it.\<close>

record httpResponse =
  hp_StatusCode :: int
  hp_Body :: "string + string"

text \<open>What the helpers send as JSON.\<close>

datatype json = JStr string | JNum int | JObj "(string \<times> json) list"

record message =
  msg_Payload :: string
  msg_MessageCount :: int

record featureFlag =
  ff_Name :: string
  ff_State :: string

datatype addressType = NodeExternalIP | NodeInternalIP | OtherAddress string

type_synonym nodeAddress = "addressType \<times> string"

record certName =
  cn_C :: string
  cn_ST :: string
  cn_L :: string
  cn_O :: string
  cn_OU :: string

text \<open>\<open>KeyRequest\<close>: the algorithm and the size of the key.\<close>

record certificateRequest =
  cq_Names :: "certName list"
  cq_CN :: string
  cq_Hosts :: "string list"
  cq_KeyRequest :: "string \<times> int"

text \<open>A connection or a channel is known by a name; an error of the outside by its text.\<close>

type_synonym handle = string

text \<open>What the clients of the other protocols are asked to do, and a message delivered to a handler.\<close>

record mqttOptions =
  mo_Brokers :: "string list"
  mo_Username :: string
  mo_Password :: string
  mo_ClientID :: string
  mo_ProtocolVersion :: int
  mo_TLSConfig :: "string option"

datatype clientOp =
    MqttConnect mqttOptions | MqttSubscribe string | MqttPublish string string | MqttUnsubscribe string | MqttDisconnect
  | TlsDial string string | StompConnect handle string string | StompDial string string string
  | StompSubscribe handle string | StompSend handle string string | StompUnsubscribe handle | StompDisconnect handle
  | StreamEnvironment string int string string | DeclareStream handle string int | NewProducer handle string
  | BatchSend handle string | ConfirmedBy handle | CloseProducer handle | NewConsumer handle string
  | CloseConsumer handle | DeleteStream handle string | CloseEnvironment handle

type_synonym delivery = "string + string \<times> string list"

datatype tevent =
    Kubectl "string list" string "string option"
  | HttpDo httpRequest "string + httpResponse"
  | HttpsOverview string string string string "string + unit"
  | ReadFile string "string + string"
  | DialTLS string string "string + handle"
  | OpenChannel handle "string + handle"
  | QueueDeclare handle string "string + string"
  | PublishTo handle string string "string option"
  | ConsumeFrom handle string "string + handle"
  | Received handle "string option"
  | Closed handle
  | Waited int
  | SecretRead nskey "secret response"
  | ServiceRead nskey "service response"
  | NodesListed "nodeAddress list list response"
  | PodRead nskey "pod response"
  | ClusterRead nskey "rabbitmqCluster response"
  | ClusterUpdated rabbitmqCluster "rabbitmqCluster response"
  | ClusterCreated rabbitmqCluster "rabbitmqCluster response"
  | TempDir "string + string"
  | OpenFile string "string + unit"
  | WriteFile string string "string + unit"
  | RemoveFile string "string + unit"
  | NewCA certificateRequest "string + string \<times> string"
  | NewKey certificateRequest "string + string \<times> string"
  | Signed string "string list" string "string + string"
  | Client clientOp "string + handle"
  | Delivered handle "delivery list"

type_synonym 'a run = "tevent list \<Rightarrow> 'a outcome \<times> tevent list"

record testbed =
  tb_kubectl :: "string list \<Rightarrow> tevent list \<Rightarrow> string \<times> string option"
  tb_http :: "httpRequest \<Rightarrow> tevent list \<Rightarrow> string + httpResponse"
  tb_overview :: "string \<Rightarrow> string \<Rightarrow> string \<Rightarrow> string \<Rightarrow> tevent list \<Rightarrow> string + unit"
  tb_readFile :: "string \<Rightarrow> tevent list \<Rightarrow> string + string"
  tb_dialTLS :: "string \<Rightarrow> string \<Rightarrow> tevent list \<Rightarrow> string + handle"
  tb_channel :: "handle \<Rightarrow> tevent list \<Rightarrow> string + handle"
  tb_queueDeclare :: "handle \<Rightarrow> string \<Rightarrow> tevent list \<Rightarrow> string + string"
  tb_publish :: "handle \<Rightarrow> string \<Rightarrow> string \<Rightarrow> tevent list \<Rightarrow> string option"
  tb_consume :: "handle \<Rightarrow> string \<Rightarrow> tevent list \<Rightarrow> string + handle"
  tb_receive :: "handle \<Rightarrow> tevent list \<Rightarrow> string option"
  tb_getSecret :: "nskey \<Rightarrow> tevent list \<Rightarrow> secret response"
  tb_getService :: "nskey \<Rightarrow> tevent list \<Rightarrow> service response"
  tb_listNodes :: "tevent list \<Rightarrow> nodeAddress list list response"
  tb_getPod :: "nskey \<Rightarrow> tevent list \<Rightarrow> pod response"
  tb_getCluster :: "nskey \<Rightarrow> tevent list \<Rightarrow> rabbitmqCluster response"
  tb_updateCluster :: "rabbitmqCluster \<Rightarrow> tevent list \<Rightarrow> rabbitmqCluster response"
  tb_createCluster :: "rabbitmqCluster \<Rightarrow> tevent list \<Rightarrow> rabbitmqCluster response"
  tb_tempDir :: "tevent list \<Rightarrow> string + string"
  tb_openFile :: "string \<Rightarrow> tevent list \<Rightarrow> string + unit"
  tb_writeFile :: "string \<Rightarrow> string \<Rightarrow> tevent list \<Rightarrow> string + unit"
  tb_removeFile :: "string \<Rightarrow> tevent list \<Rightarrow> string + unit"
  tb_newCA :: "certificateRequest \<Rightarrow> tevent list \<Rightarrow> string + string \<times> string"
  tb_newKey :: "certificateRequest \<Rightarrow> tevent list \<Rightarrow> string + string \<times> string"
  tb_sign :: "string \<Rightarrow> string list \<Rightarrow> string \<Rightarrow> tevent list \<Rightarrow> string + string"
  tb_polls :: "int \<Rightarrow> int \<Rightarrow> tevent list \<Rightarrow> nat"
  tb_conflictRetries :: nat
  tb_validRequest :: "string \<Rightarrow> string \<Rightarrow> bool"
  tb_tlsClient :: "string \<Rightarrow> string + unit"
  tb_marshal :: "json \<Rightarrow> string + string"
  tb_messages :: "string \<Rightarrow> string + message list"
  tb_health :: "string \<Rightarrow> string + string"
  tb_flags :: "string \<Rightarrow> string + featureFlag list"
  tb_iniHash :: "string \<Rightarrow> string + (string \<times> string) list"
  tb_peerCertificates :: "handle \<Rightarrow> string list"
  tb_parsePrivateKey :: "string \<Rightarrow> string + string"
  tb_parseCertificate :: "string \<Rightarrow> string + string"
  tb_newSigner :: "string \<Rightarrow> string \<Rightarrow> string + string"
  tb_client :: "clientOp \<Rightarrow> tevent list \<Rightarrow> string + handle"
  tb_delivered :: "handle \<Rightarrow> tevent list \<Rightarrow> delivery list"

section \<open>Runs\<close>

definition val :: "'a \<Rightarrow> 'a run" where
  "val a l = (Ok a, l)"

definition failWith :: "error \<Rightarrow> 'a run" where
  "failWith e l = (Err e, l)"

definition failNow :: "string \<Rightarrow> 'a run" where
  "failNow msg l = (Panic msg, l)"

definition andThen :: "'a run \<Rightarrow> ('a \<Rightarrow> 'b run) \<Rightarrow> 'b run" where
  "andThen m f l =
     (case m l of (Ok a, l') \<Rightarrow> f a l' | (Err e, l') \<Rightarrow> (Err e, l') | (Panic p, l') \<Rightarrow> (Panic p, l'))"

text \<open>\<^verbatim>\<open>x, err := m()\<close>, with the error in hand.\<close>

definition trying :: "'a run \<Rightarrow> (error + 'a) run" where
  "trying m l =
     (case m l of (Ok a, l') \<Rightarrow> (Ok (Inr a), l') | (Err e, l') \<Rightarrow> (Ok (Inl e), l') | (Panic p, l') \<Rightarrow> (Panic p, l'))"

text \<open>\<^verbatim>\<open>defer d()\<close>, after which \<open>m\<close> is run.\<close>

definition deferring :: "unit run \<Rightarrow> 'a run \<Rightarrow> 'a run" where
  "deferring d m l = (case m l of (r, l') \<Rightarrow> (r, snd (d l')))"

definition asks :: "(tevent list \<Rightarrow> 'r) \<Rightarrow> ('r \<Rightarrow> tevent) \<Rightarrow> 'r run" where
  "asks question ev l = (Ok (question l), l @ [ev (question l)])"

fun orErr :: "string + 'a \<Rightarrow> 'a run" where
  "orErr (Inl e) = failWith (ErrMsg e)"
| "orErr (Inr a) = val a"

fun orApiErr :: "'a response \<Rightarrow> 'a run" where
  "orApiErr (Inl q) = failWith (ApiError (fst q) (snd q))"
| "orApiErr (Inr a) = val a"

text \<open>\<^verbatim>\<open>Expect(b).To(BeTrue())\<close>, and \<^verbatim>\<open>Expect(err).NotTo(HaveOccurred())\<close>.\<close>

definition expect :: "bool \<Rightarrow> string \<Rightarrow> unit run" where
  "expect b msg = (if b then val () else failNow msg)"

definition mustSucceed :: "'a run \<Rightarrow> 'a run" where
  "mustSucceed m l = (case m l of (Err e, l') \<Rightarrow> (Panic (errString e), l') | r \<Rightarrow> r)"

text \<open>
  \<^verbatim>\<open>Eventually(f, timeout, interval)\<close>: asks at once, and again after the interval as long as
  the time has not run out; a failed expectation inside \<open>f\<close> ends the test.
\<close>

fun poll :: "nat \<Rightarrow> int \<Rightarrow> 'a run \<Rightarrow> ('a \<Rightarrow> bool) \<Rightarrow> 'a run" where
  "poll 0 interval f p = andThen f (\<lambda>a. if p a then val a else failNow ''Timed out'')"
| "poll (Suc n) interval f p = andThen f (\<lambda>a. if p a then val a
     else andThen (asks (\<lambda>l. ()) (\<lambda>u. Waited interval)) (\<lambda>_. poll n interval f p))"

definition Eventually :: "testbed \<Rightarrow> int \<Rightarrow> int \<Rightarrow> 'a run \<Rightarrow> ('a \<Rightarrow> bool) \<Rightarrow> 'a run" where
  "Eventually T timeout interval f p l = poll (tb_polls T timeout interval l) interval f p l"

text \<open>\<^verbatim>\<open>for retry := 0; retry < n; retry++\<close> around an attempt and a sleep.\<close>

fun tries :: "nat \<Rightarrow> int \<Rightarrow> 'a run \<Rightarrow> (error option \<Rightarrow> 'a run) \<Rightarrow> error option \<Rightarrow> 'a run" where
  "tries 0 interval f giveUp err = giveUp err"
| "tries (Suc n) interval f giveUp err = andThen (trying f) (case_sum
     (\<lambda>e. andThen (asks (\<lambda>l. ()) (\<lambda>u. Waited interval)) (\<lambda>_. tries n interval f giveUp (Some e)))
     val)"

text \<open>\<^verbatim>\<open>retry.RetryOnConflict\<close>.\<close>

fun conflictAttempts :: "nat \<Rightarrow> 'a run \<Rightarrow> 'a run" where
  "conflictAttempts 0 f = f"
| "conflictAttempts (Suc n) f = andThen (trying f) (case_sum
     (\<lambda>e. if isConflict e then conflictAttempts n f else failWith e) val)"

section \<open>Running them\<close>

named_theorems run_rules
named_theorems log_intros

lemma run_basics [run_rules]:
  "val a l = (Ok a, l)" "failWith e l = (Err e, l)" "failNow msg l = (Panic msg, l)"
  "asks question ev l = (Ok (question l), l @ [ev (question l)])"
  "orErr (Inl t) l = (Err (ErrMsg t), l)" "orErr (Inr a) l = (Ok a, l)"
  "orApiErr (Inl (q, m)) l = (Err (ApiError q m), l)" "orApiErr (Inr a) l = (Ok a, l)"
  "expect b msg l = (if b then Ok () else Panic msg, l)"
  by (simp_all add: val_def failWith_def failNow_def asks_def expect_def)

lemma andThen_Ok:
  "andThen m f l = (Ok b, l') \<longleftrightarrow> (\<exists>a l1. m l = (Ok a, l1) \<and> f a l1 = (Ok b, l'))"
  by (auto simp: andThen_def split: prod.splits outcome.splits)

lemma trying_Ok:
  "trying m l = (Ok r, l') \<longleftrightarrow> (case r of Inl e \<Rightarrow> m l = (Err e, l') | Inr a \<Rightarrow> m l = (Ok a, l'))"
  by (auto simp: trying_def split: prod.splits outcome.splits sum.splits)

lemma mustSucceed_Ok: "mustSucceed m l = (Ok a, l') \<longleftrightarrow> m l = (Ok a, l')"
  by (auto simp: mustSucceed_def split: prod.splits outcome.splits)

lemma steps_Ok:
  "val b l = (Ok a, l') \<longleftrightarrow> a = b \<and> l' = l" "expect p msg l = (Ok u, l') \<longleftrightarrow> p \<and> l' = l"
  "asks question ev l = (Ok a, l') \<longleftrightarrow> a = question l \<and> l' = l @ [ev a]"
  by (auto simp: run_rules)

lemma answers_Ok:
  "orErr t l = (Ok a, l') \<longleftrightarrow> t = Inr a \<and> l' = l" "orApiErr q l = (Ok a, l') \<longleftrightarrow> q = Inr a \<and> l' = l"
  by (cases t; auto simp: run_rules) (cases q; auto simp: run_rules)

lemmas ok_rules = andThen_Ok trying_Ok mustSucceed_Ok steps_Ok answers_Ok

section \<open>What a run appends to the log\<close>

definition emits :: "(tevent \<Rightarrow> bool) \<Rightarrow> 'a run \<Rightarrow> bool" where
  "emits P m \<longleftrightarrow> (\<forall>l r l'. m l = (r, l') \<longrightarrow> (\<exists>es. l' = l @ es \<and> list_all P es))"

lemma emitsD: "emits P m \<Longrightarrow> m l = (r, l') \<Longrightarrow> \<exists>es. l' = l @ es \<and> list_all P es"
  unfolding emits_def by blast

lemma emits_basic [log_intros]:
  "emits P (val a)" "emits P (failWith e)" "emits P (failNow msg)" "emits P (expect b msg)"
  "(\<And>x. P (ev x)) \<Longrightarrow> emits P (asks question ev)"
  by (auto simp: emits_def run_rules)

lemma emits_answers [log_intros]: "emits P (orErr t)" "emits P (orApiErr q)"
  by (cases t; auto simp: emits_def run_rules) (cases q; auto simp: emits_def run_rules)

lemma emits_andThen [log_intros]:
  assumes "emits P m" and "\<And>a. emits P (f a)"
  shows "emits P (andThen m f)"
  unfolding emits_def
proof (intro allI impI)
  fix l r l'
  assume run: "andThen m f l = (r, l')"
  obtain q l1 where m: "m l = (q, l1)" by (cases "m l")
  from emitsD [OF assms(1) m] obtain es where es: "l1 = l @ es" "list_all P es" by blast
  show "\<exists>es. l' = l @ es \<and> list_all P es"
  proof (cases q)
    case (Ok a)
    with run m have "f a l1 = (r, l')" by (simp add: andThen_def)
    from emitsD [OF assms(2) this] es show ?thesis by (metis append_assoc list_all_append)
  qed (use run m es in \<open>auto simp: andThen_def\<close>)
qed

lemma emits_trying [log_intros]: "emits P m \<Longrightarrow> emits P (trying m)"
  by (auto simp: emits_def trying_def split: prod.splits outcome.splits)

lemma emits_mustSucceed [log_intros]: "emits P m \<Longrightarrow> emits P (mustSucceed m)"
  by (auto simp: emits_def mustSucceed_def split: prod.splits outcome.splits)

lemma emits_deferring [log_intros]:
  assumes "emits P d" and "emits P m"
  shows "emits P (deferring d m)"
  unfolding emits_def
proof (intro allI impI)
  fix l r l'
  assume run: "deferring d m l = (r, l')"
  obtain q l1 where m: "m l = (q, l1)" by (cases "m l")
  obtain u l2 where d: "d l1 = (u, l2)" by (cases "d l1")
  from run m d have "l' = l2" by (simp add: deferring_def)
  with emitsD [OF assms(2) m] emitsD [OF assms(1) d] show "\<exists>es. l' = l @ es \<and> list_all P es"
    by (metis append_assoc list_all_append)
qed

lemma emits_splits [log_intros]:
  "(b \<Longrightarrow> emits P m) \<Longrightarrow> (\<not> b \<Longrightarrow> emits P n) \<Longrightarrow> emits P (if b then m else n)"
  "(\<And>e. t = Inl e \<Longrightarrow> emits P (f e)) \<Longrightarrow> (\<And>a. t = Inr a \<Longrightarrow> emits P (g a)) \<Longrightarrow> emits P (case_sum f g t)"
  "(x = None \<Longrightarrow> emits P m) \<Longrightarrow> (\<And>y. x = Some y \<Longrightarrow> emits P (k y)) \<Longrightarrow> emits P (case_option m k x)"
  "(\<And>a b. q = (a, b) \<Longrightarrow> emits P (h a b)) \<Longrightarrow> emits P (case_prod h q)"
  by (simp, cases t, simp_all, cases x, simp_all, cases q, simp)

lemma emits_poll: "emits P f \<Longrightarrow> P (Waited interval) \<Longrightarrow> emits P (poll n interval f p)"
  by (induction n) (auto intro!: log_intros)

lemma emits_Eventually [log_intros]:
  "emits P f \<Longrightarrow> P (Waited interval) \<Longrightarrow> emits P (Eventually T timeout interval f p)"
  using emits_poll unfolding emits_def Eventually_def by blast

lemma emits_tries [log_intros]:
  "emits P f \<Longrightarrow> P (Waited interval) \<Longrightarrow> (\<And>e. emits P (g e)) \<Longrightarrow> emits P (tries n interval f g err)"
  by (induction n arbitrary: err) (auto intro!: log_intros)

lemma emits_attempts [log_intros]: "emits P f \<Longrightarrow> emits P (conflictAttempts n f)"
  by (induction n) (auto intro!: log_intros)

text \<open>A polling that succeeds ends with an answer that passes.\<close>

lemma poll_Ok:
  assumes "emits P f" and "P (Waited interval)"
  shows "poll n interval f p l = (Ok a, l') \<Longrightarrow> p a \<and> (\<exists>es. list_all P es \<and> f (l @ es) = (Ok a, l'))"
proof (induction n arbitrary: l)
  case 0
  then show ?case by (auto simp: andThen_Ok run_rules split: if_splits intro!: exI [of _ "[]"])
next
  case (Suc n)
  then obtain b l1 where f: "f l = (Ok b, l1)"
    and rest: "(if p b then val b else andThen (asks (\<lambda>l. ()) (\<lambda>u. Waited interval)) (\<lambda>_. poll n interval f p)) l1 = (Ok a, l')"
    by (auto simp: andThen_Ok)
  show ?case
  proof (cases "p b")
    case True
    with f rest show ?thesis by (auto simp: run_rules intro!: exI [of _ "[]"])
  next
    case False
    with rest have "poll n interval f p (l1 @ [Waited interval]) = (Ok a, l')" by (simp add: andThen_def run_rules)
    from Suc.IH [OF this] obtain es where es: "p a" "list_all P es" "f ((l1 @ [Waited interval]) @ es) = (Ok a, l')" by blast
    from emitsD [OF assms(1) f] obtain fs where "l1 = l @ fs" "list_all P fs" by blast
    with es assms(2) show ?thesis by (intro conjI exI [of _ "fs @ [Waited interval] @ es"]) simp_all
  qed
qed

lemma Eventually_Ok:
  assumes "emits P f" and "P (Waited interval)" and "Eventually T timeout interval f p l = (Ok a, l')"
  shows "p a" and "\<exists>es. list_all P es \<and> f (l @ es) = (Ok a, l')"
  using poll_Ok [OF assms(1,2)] assms(3) unfolding Eventually_def by blast+

text \<open>Attempts end with one that succeeds, or are given up with the error of the last one.\<close>

lemma tries_ends:
  assumes never: "\<And>l p. fst (f l) \<noteq> Panic p" and run: "tries n interval f g err l = (r, l')"
  shows "(\<exists>a l1. f l1 = (Ok a, l') \<and> r = Ok a) \<or> (\<exists>err' l1. g err' l1 = (r, l') \<and> (err' = None \<longrightarrow> n = 0))"
  using run
proof (induction n arbitrary: err l)
  case 0
  then show ?case by auto
next
  case (Suc n)
  show ?case
  proof (cases "f l")
    case (Pair q l1)
    show ?thesis
    proof (cases q)
      case (Ok a)
      with Suc.prems Pair show ?thesis by (auto simp: andThen_def trying_def run_rules)
    next
      case (Err e)
      with Suc.prems Pair have step: "tries n interval f g (Some e) (l1 @ [Waited interval]) = (r, l')"
        by (simp add: andThen_def trying_def run_rules)
      show ?thesis
      proof (cases n)
        case 0
        with step show ?thesis by auto
      next
        case (Suc m)
        with Suc.IH [OF step] show ?thesis by auto
      qed
    next
      case (Panic p)
      with never [of l p] Pair show ?thesis by simp
    qed
  qed
qed

end
