(* ===== verification/System_Tests.thy ===== *)
theory System_Tests
  imports Test_Bed
begin

text \<open>
  \<^verbatim>\<open>system_tests/utils.go\<close>: the helpers of the system tests that drive a cluster through
  \<^verbatim>\<open>kubectl\<close>, the API server and the management API.
\<close>

section \<open>Commands\<close>

definition podCreationTimeout :: int where "podCreationTimeout = 10 * 60 * 1000000000"
definition portReadinessTimeout :: int where "portReadinessTimeout = 60 * 1000000000"
definition seconds :: "int \<Rightarrow> int" where "seconds n = n * 1000000000"

definition MustHaveEnv :: "environ \<Rightarrow> string \<Rightarrow> string outcome" where
  "MustHaveEnv v name =
     (let value = getenv v name in
      if value = [] then Panic (''Environment variable '' @ quoted name @ '' not found'') else Ok value)"

text \<open>The two library calls that make a clientset; \<^verbatim>\<open>log.Fatalf\<close> ends the process.\<close>

definition createClientSet :: "string + string \<Rightarrow> (string \<Rightarrow> string + string) \<Rightarrow> string outcome" where
  "createClientSet getConfig newForConfig = (case getConfig of
      Inl err \<Rightarrow> Err (ErrMsg err)
    | Inr config \<Rightarrow> (case newForConfig config of
        Inl err \<Rightarrow> Panic ''exit status 1'' | Inr clientset \<Rightarrow> Ok clientset))"

text \<open>The combined output of a command, and its error.\<close>

definition kubectl :: "testbed \<Rightarrow> string list \<Rightarrow> (string \<times> string option) run" where
  "kubectl T args = asks (tb_kubectl T args) (\<lambda>r. Kubectl args (fst r) (snd r))"

definition kubectlExec :: "testbed \<Rightarrow> string \<Rightarrow> string \<Rightarrow> string \<Rightarrow> string list \<Rightarrow> (string \<times> string option) run" where
  "kubectlExec T namespace podname containerName args =
     kubectl T ([''-n'', namespace, ''exec'', podname, ''-c'', containerName, ''--''] @ args)"

definition statefulSetPodName :: "rabbitmqCluster \<Rightarrow> int \<Rightarrow> string" where
  "statefulSetPodName cluster index = ChildResourceName cluster (strJoin [''server'', itoa index] ''-'')"

text \<open>The keys of the section without a name.\<close>

definition getConfigFileFromPod :: "testbed \<Rightarrow> string \<Rightarrow> rabbitmqCluster \<Rightarrow> string \<Rightarrow> (string \<times> string) list run" where
  "getConfigFileFromPod T namespace cluster path =
     andThen (kubectlExec T namespace (statefulSetPodName cluster 0) ''rabbitmq'' [''cat'', path]) (\<lambda>(out, err).
     andThen (expect (err = None) ''unexpected error'') (\<lambda>_.
     mustSucceed (orErr (tb_iniHash T out))))"

section \<open>Waiting\<close>

definition readyArgs :: "rabbitmqCluster \<Rightarrow> string list" where
  "readyArgs cluster = [''-n'', rc_Namespace cluster, ''get'', ''rabbitmqclusters'', rc_Name cluster,
     ''-ojsonpath='' @ quoted (''{.status.conditions[?(@.type=='' @ [CHR 0x22] @ ''AllReplicasReady''
       @ [CHR 0x22] @ '')].status}'')]"

definition readyStatus :: "testbed \<Rightarrow> rabbitmqCluster \<Rightarrow> string run" where
  "readyStatus T cluster = andThen (kubectl T (readyArgs cluster)) (\<lambda>(out, err).
     andThen (if err \<noteq> None then expect (strContains out ''not found'') out else val ()) (\<lambda>_.
     val out))"

text \<open>The variable \<^verbatim>\<open>err\<close> that is checked after the polling is never assigned: it stays nil.\<close>

definition waitForRabbitmqNotRunning :: "testbed \<Rightarrow> rabbitmqCluster \<Rightarrow> unit run" where
  "waitForRabbitmqNotRunning T cluster =
     andThen (Eventually T podCreationTimeout (seconds 1) (readyStatus T cluster) (\<lambda>s. s = quoted ''False'')) (\<lambda>_.
     val ())"

definition waitForRabbitmqRunning :: "testbed \<Rightarrow> rabbitmqCluster \<Rightarrow> unit run" where
  "waitForRabbitmqRunning T cluster =
     andThen (Eventually T podCreationTimeout (seconds 1) (readyStatus T cluster) (\<lambda>s. s = quoted ''True'')) (\<lambda>_.
     val ())"

definition waitForRabbitmqUpdate :: "testbed \<Rightarrow> rabbitmqCluster \<Rightarrow> unit run" where
  "waitForRabbitmqUpdate T cluster =
     andThen (waitForRabbitmqNotRunning T cluster) (\<lambda>_. waitForRabbitmqRunning T cluster)"

definition diagnosed :: "testbed \<Rightarrow> rabbitmqCluster \<Rightarrow> string list \<Rightarrow> unit run" where
  "diagnosed T cluster args =
     andThen (Eventually T portReadinessTimeout (seconds 3)
       (andThen (kubectlExec T (rc_Namespace cluster) (statefulSetPodName cluster 0) ''rabbitmq'' (''rabbitmq-diagnostics'' # args))
         (\<lambda>(out, err). val err))
       (\<lambda>err. err = None)) (\<lambda>_. val ())"

definition waitForPortConnectivity :: "testbed \<Rightarrow> rabbitmqCluster \<Rightarrow> unit run" where
  "waitForPortConnectivity T cluster = diagnosed T cluster [''check_port_connectivity'']"

definition waitForPortReadiness :: "testbed \<Rightarrow> rabbitmqCluster \<Rightarrow> int \<Rightarrow> unit run" where
  "waitForPortReadiness T cluster port = diagnosed T cluster [''check_port_listener'', itoa port]"

fun flagEnabled :: "string \<Rightarrow> featureFlag list \<Rightarrow> bool" where
  "flagEnabled name [] = False"
| "flagEnabled name (v # flags) = (if ff_Name v = name \<and> ff_State v = ''enabled'' then True else flagEnabled name flags)"

definition hasFeatureEnabled :: "testbed \<Rightarrow> rabbitmqCluster \<Rightarrow> string \<Rightarrow> bool run" where
  "hasFeatureEnabled T cluster featureFlagName =
     andThen (kubectlExec T (rc_Namespace cluster) (statefulSetPodName cluster 0) ''rabbitmq''
       [''rabbitmqctl'', ''list_feature_flags'', ''--formatter=json'']) (\<lambda>(out, err).
     andThen (expect (err = None) ''unexpected error'') (\<lambda>_.
     andThen (mustSucceed (orErr (tb_flags T out))) (\<lambda>flags. val (flagEnabled featureFlagName flags))))"

definition tlsEventArgs :: "rabbitmqCluster \<Rightarrow> string list" where
  "tlsEventArgs cluster = [''-n'', rc_Namespace cluster, ''get'', ''events'', ''--field-selector'',
     ''involvedObject.name='' @ rc_Name cluster @ '',involvedObject.namespace='' @ rc_Namespace cluster
       @ '',reason=TLSError'']"

definition assertTLSError :: "testbed \<Rightarrow> rabbitmqCluster \<Rightarrow> unit run" where
  "assertTLSError T cluster =
     andThen (Eventually T podCreationTimeout (seconds 1)
       (andThen (kubectl T (tlsEventArgs cluster)) (\<lambda>(out, err). val out))
       (\<lambda>out. strContains out ''TLSError'')) (\<lambda>_. val ())"

section \<open>Secrets\<close>

definition secretArgs :: "string \<Rightarrow> string \<Rightarrow> string \<Rightarrow> string list" where
  "secretArgs verb secretName secretNamespace = [''-n'', secretNamespace, verb, ''secret'', secretName]"

definition failedWith :: "string \<Rightarrow> string \<Rightarrow> error" where
  "failedWith err out = ErrMsg (''Failed with error: '' @ err @ [CHR 0x0A] @ ''Output: '' @ out @ [CHR 0x0A])"

definition k8sSecretExists :: "testbed \<Rightarrow> string \<Rightarrow> string \<Rightarrow> bool run" where
  "k8sSecretExists T secretName secretNamespace =
     andThen (kubectl T (secretArgs ''get'' secretName secretNamespace)) (\<lambda>(out, err).
     if err \<noteq> None then andThen (expect (strContains out ''not found'') out) (\<lambda>_. val False) else val True)"

definition k8sDeleteSecret :: "testbed \<Rightarrow> string \<Rightarrow> string \<Rightarrow> unit run" where
  "k8sDeleteSecret T secretName secretNamespace =
     andThen (kubectl T (secretArgs ''delete'' secretName secretNamespace)) (\<lambda>(out, err).
     case err of Some e \<Rightarrow> failWith (failedWith e out) | None \<Rightarrow> val ())"

definition createArgs :: "string \<Rightarrow> string \<Rightarrow> string \<Rightarrow> string \<Rightarrow> string list" where
  "createArgs secretName secretNamespace certPath keyPath =
     [''-n'', secretNamespace, ''create'', ''secret'', ''tls'', secretName, ''--cert='' @ certPath, ''--key='' @ keyPath]"

definition k8sCreateTLSSecret :: "testbed \<Rightarrow> string \<Rightarrow> string \<Rightarrow> string \<Rightarrow> string \<Rightarrow> unit run" where
  "k8sCreateTLSSecret T secretName secretNamespace certPath keyPath =
     andThen (k8sSecretExists T secretName secretNamespace) (\<lambda>secretExists.
     andThen (if secretExists then mustSucceed (k8sDeleteSecret T secretName secretNamespace) else val ()) (\<lambda>_.
     andThen (kubectl T (createArgs secretName secretNamespace certPath keyPath)) (\<lambda>(out, err).
     case err of Some e \<Rightarrow> failWith (failedWith e out) | None \<Rightarrow> val ())))"

section \<open>The management API\<close>

text \<open>
  The request is used although the error of making it is dropped: a URL that cannot be parsed is
  a nil pointer. No caller looks at a body that is returned beside an error.
\<close>

definition makeRequest :: "testbed \<Rightarrow> string \<Rightarrow> string \<Rightarrow> string \<Rightarrow> string \<Rightarrow> string \<Rightarrow> string run" where
  "makeRequest T url httpMethod rabbitmqUsername rabbitmqPassword body =
     (if \<not> tb_validRequest T httpMethod url then failNow ''invalid memory address or nil pointer dereference''
      else let req = \<lparr>hq_Method = httpMethod, hq_Url = url, hq_User = Some (rabbitmqUsername, rabbitmqPassword), hq_Body = body\<rparr> in
      andThen (asks (tb_http T req) (HttpDo req)) (case_sum
        (\<lambda>err. failWith (ErrMsg (''failed with err: '' @ err @ '' to api endpoint: '' @ url)))
        (\<lambda>resp. andThen (orErr (hp_Body resp)) (\<lambda>responseBody.
           if hp_StatusCode resp \<ge> 400
           then failWith (ErrMsg (''make request failed with api endpoint: '' @ url @ '' and statusCode: '' @ itoa (hp_StatusCode resp)))
           else val responseBody))))"

definition apiUrl :: "string \<Rightarrow> string \<Rightarrow> string \<Rightarrow> string" where
  "apiUrl host port path = ''http://'' @ host @ '':'' @ port @ path"

definition getMessageFromQueue :: "testbed \<Rightarrow> string \<Rightarrow> string \<Rightarrow> string \<Rightarrow> string \<Rightarrow> message run" where
  "getMessageFromQueue T rabbitmqHostName rabbitmqPort rabbitmqUsername rabbitmqPassword =
     andThen (orErr (tb_marshal T (JObj [(''vhost'', JStr ''/''), (''name'', JStr ''test-queue''), (''encoding'', JStr ''auto''),
         (''ackmode'', JStr ''ack_requeue_false''), (''truncate'', JStr ''50000''), (''count'', JStr ''1'')]))) (\<lambda>dataJSON.
     andThen (makeRequest T (apiUrl rabbitmqHostName rabbitmqPort ''/api/queues/%2F/test-queue/get'') ''POST''
         rabbitmqUsername rabbitmqPassword dataJSON) (\<lambda>response.
     andThen (orErr (tb_messages T response)) (\<lambda>messages.
     case messages of [] \<Rightarrow> failNow ''index out of range [0] with length 0'' | m # ms \<Rightarrow> val m)))"

definition declareQueueBody :: string where
  "declareQueueBody = ''{'' @ [CHR 0x22] @ ''durable'' @ [CHR 0x22] @ '': true}''"

definition publishToQueue :: "testbed \<Rightarrow> string \<Rightarrow> string \<Rightarrow> string \<Rightarrow> string \<Rightarrow> unit run" where
  "publishToQueue T rabbitmqHostName rabbitmqPort rabbitmqUsername rabbitmqPassword =
     andThen (makeRequest T (apiUrl rabbitmqHostName rabbitmqPort ''/api/queues/%2F/test-queue'') ''PUT''
         rabbitmqUsername rabbitmqPassword declareQueueBody) (\<lambda>_.
     andThen (orErr (tb_marshal T (JObj [(''vhost'', JStr ''/''), (''name'', JStr ''amq.default''),
         (''properties'', JObj [(''delivery_mode'', JNum 2), (''headers'', JObj [])]),
         (''routing_key'', JStr ''test-queue''), (''delivery_mode'', JStr ''2''), (''payload'', JStr ''hello''),
         (''headers'', JObj []), (''props'', JObj []), (''payload_encoding'', JStr ''string'')]))) (\<lambda>dataJSON.
     andThen (makeRequest T (apiUrl rabbitmqHostName rabbitmqPort ''/api/exchanges/%2F/amq.default/publish'') ''POST''
         rabbitmqUsername rabbitmqPassword dataJSON) (\<lambda>_. val ())))"

text \<open>A response that is not an error of the transport, and its status.\<close>

definition alivenessTest :: "testbed \<Rightarrow> string \<Rightarrow> string \<Rightarrow> string \<Rightarrow> string \<Rightarrow> string run" where
  "alivenessTest T rabbitmqHostName rabbitmqPort rabbitmqUsername rabbitmqPassword =
     (let url = apiUrl rabbitmqHostName rabbitmqPort ''/api/aliveness-test/%2F'';
          req = \<lparr>hq_Method = ''GET'', hq_Url = url, hq_User = Some (rabbitmqUsername, rabbitmqPassword), hq_Body = []\<rparr> in
      andThen (expect (tb_validRequest T ''GET'' url) url) (\<lambda>_.
      andThen (andThen (asks (tb_http T req) (HttpDo req)) (\<lambda>r. mustSucceed (orErr r))) (\<lambda>resp.
      andThen (expect (hp_StatusCode resp = 200) (itoa (hp_StatusCode resp))) (\<lambda>_.
      andThen (mustSucceed (orErr (hp_Body resp))) (\<lambda>b.
      mustSucceed (orErr (tb_health T b)))))))"

definition assertHttpReady :: "testbed \<Rightarrow> string \<Rightarrow> string \<Rightarrow> unit run" where
  "assertHttpReady T hostname port =
     (let rabbitURL = apiUrl hostname port [];
          req = \<lparr>hq_Method = ''GET'', hq_Url = rabbitURL, hq_User = None, hq_Body = []\<rparr> in
      andThen (Eventually T podCreationTimeout (seconds 5)
        (andThen (expect (tb_validRequest T ''GET'' rabbitURL) rabbitURL) (\<lambda>_. asks (tb_http T req) (HttpDo req)))
        (\<lambda>r. case r of Inl err \<Rightarrow> False | Inr resp \<Rightarrow> hp_StatusCode resp = 200)) (\<lambda>_. val ()))"

definition connectHTTPS :: "testbed \<Rightarrow> string \<Rightarrow> string \<Rightarrow> string \<Rightarrow> string \<Rightarrow> string \<Rightarrow> unit run" where
  "connectHTTPS T username password hostname httpsNodePort caFilePath =
     andThen (andThen (asks (tb_readFile T caFilePath) (ReadFile caFilePath)) orErr) (\<lambda>ca.
     let url = ''https://'' @ hostname @ '':'' @ httpsNodePort in
     andThen (orErr (tb_tlsClient T url)) (\<lambda>_.
     andThen (asks (tb_overview T url username password ca) (HttpsOverview url username password ca)) orErr))"

section \<open>The API server\<close>

definition getUsernameAndPassword :: "testbed \<Rightarrow> string \<Rightarrow> string \<Rightarrow> (string \<times> string) run" where
  "getUsernameAndPassword T namespace instanceName =
     (let key = (namespace, instanceName @ ''-default-user'') in
      andThen (andThen (asks (tb_getSecret T key) (SecretRead key)) orApiErr) (\<lambda>secret.
      case mget (se_Data secret) ''username'' of
        None \<Rightarrow> failWith (ErrMsg (''cannot find '' @ quoted ''username'' @ '' in '' @ instanceName @ ''-default-user''))
      | Some username \<Rightarrow> (case mget (se_Data secret) ''password'' of
          None \<Rightarrow> failWith (ErrMsg (''cannot find '' @ quoted ''password'' @ '' in '' @ instanceName @ ''-default-user''))
        | Some password \<Rightarrow> val (username, password))))"

definition zeroSpec :: clusterSpec where
  "zeroSpec = \<lparr>spec_Replicas = None, spec_Image = [], spec_ImagePullSecrets = None,
     spec_Service = \<lparr>cs_Type = [], cs_Annotations = None\<rparr>,
     spec_Persistence = \<lparr>pe_StorageClassName = None, pe_Storage = None\<rparr>,
     spec_Resources = None, spec_Affinity = None, spec_Tolerations = [],
     spec_Rabbitmq = \<lparr>cf_AdditionalPlugins = [], cf_AdditionalConfig = [], cf_AdvancedConfig = [], cf_EnvConfig = []\<rparr>,
     spec_TLS = \<lparr>tls_SecretName = [], tls_CaSecretName = [], tls_DisableNonTLSListeners = False\<rparr>,
     spec_Override = \<lparr>ov_StatefulSet = None, ov_Service = None\<rparr>,
     spec_SkipPostDeploySteps = False, spec_TerminationGracePeriodSeconds = None, spec_Vault = None\<rparr>"

definition openshiftOverride :: overrideSpec where
  "openshiftOverride = \<lparr>ov_StatefulSet = Some \<lparr>sto_Meta = None, sto_Spec = Some
      \<lparr>sso_Replicas = None, sso_Selector = None,
       sso_Template = Some \<lparr>pto_Meta = None, pto_Spec = Some (emptyPodSpec\<lparr>
          ps_SecurityContext := Some \<lparr>psc_FSGroup = None, psc_RunAsUser = None, psc_Others = None\<rparr>,
          ps_Containers := [emptyContainer\<lparr>co_Name := ''rabbitmq''\<rparr>]\<rparr>)\<rparr>,
       sso_VolumeClaimTemplates = [], sso_ServiceName = [], sso_PodManagementPolicy = [], sso_UpdateStrategy = None\<rparr>\<rparr>,
     ov_Service = None\<rparr>"

definition overrideSecurityContextForOpenshift :: "rabbitmqCluster \<Rightarrow> rabbitmqCluster" where
  "overrideSecurityContextForOpenshift cluster = cluster\<lparr>rc_Spec := (rc_Spec cluster)\<lparr>spec_Override := openshiftOverride\<rparr>\<rparr>"

text \<open>Quantities are in thousandths: \<^verbatim>\<open>100m\<close>, \<^verbatim>\<open>2000m\<close> and \<^verbatim>\<open>500M\<close>.\<close>

definition testSpec :: clusterSpec where
  "testSpec = zeroSpec\<lparr>spec_Service := \<lparr>cs_Type = ''NodePort'', cs_Annotations = None\<rparr>,
     spec_Resources := Some \<lparr>rr_Limits = mlit [(''cpu'', Quantity 2000), (''memory'', units 500000000)],
       rr_Requests = mlit [(''cpu'', Quantity 100), (''memory'', units 500000000)]\<rparr>\<rparr>"

definition newRabbitmqCluster :: "environ \<Rightarrow> string \<Rightarrow> string \<Rightarrow> rabbitmqCluster" where
  "newRabbitmqCluster v namespace instanceName =
     (let cluster = \<lparr>rc_Meta = emptyMeta\<lparr>om_Name := instanceName, om_Namespace := namespace\<rparr>, rc_Spec = testSpec,
            rc_Status = \<lparr>cst_Conditions = [], cst_DefaultUser = None, cst_Binding = None, cst_ObservedGeneration = 0\<rparr>\<rparr>;
          cluster = (if getenv v ''ENVIRONMENT'' = ''openshift'' then overrideSecurityContextForOpenshift cluster else cluster);
          image = getenv v ''RABBITMQ_IMAGE'';
          cluster = (if image \<noteq> [] then cluster\<lparr>rc_Spec := (rc_Spec cluster)\<lparr>spec_Image := image\<rparr>\<rparr> else cluster);
          secret = getenv v ''RABBITMQ_IMAGE_PULL_SECRET''
      in if secret \<noteq> [] then cluster\<lparr>rc_Spec := (rc_Spec cluster)\<lparr>spec_ImagePullSecrets := Some [secret]\<rparr>\<rparr> else cluster)"

definition updateTestCluster :: "testbed \<Rightarrow> string \<Rightarrow> string \<Rightarrow> (rabbitmqCluster \<Rightarrow> rabbitmqCluster) \<Rightarrow> unit run" where
  "updateTestCluster T name namespace updateFn =
     conflictAttempts (tb_conflictRetries T)
       (andThen (andThen (asks (tb_getCluster T (namespace, name)) (ClusterRead (namespace, name))) orApiErr) (\<lambda>result.
        andThen (andThen (asks (tb_updateCluster T (updateFn result)) (ClusterUpdated (updateFn result))) orApiErr) (\<lambda>_.
        val ())))"

definition createRabbitmqCluster :: "testbed \<Rightarrow> rabbitmqCluster \<Rightarrow> unit run" where
  "createRabbitmqCluster T rabbitmqCluster =
     andThen (andThen (asks (tb_createCluster T rabbitmqCluster) (ClusterCreated rabbitmqCluster)) orApiErr) (\<lambda>_. val ())"

text \<open>The addresses of a node: an external one is returned at once, the last internal one kept.\<close>

fun nodeIpLoop :: "nodeAddress list \<Rightarrow> string \<Rightarrow> string" where
  "nodeIpLoop [] nodeIp = nodeIp"
| "nodeIpLoop ((ty, address) # addresses) nodeIp = (case ty of
      NodeExternalIP \<Rightarrow> address
    | NodeInternalIP \<Rightarrow> nodeIpLoop addresses address
    | OtherAddress t \<Rightarrow> nodeIpLoop addresses nodeIp)"

definition kubernetesNodeIp :: "testbed \<Rightarrow> string run" where
  "kubernetesNodeIp T =
     andThen (andThen (asks (tb_listNodes T) NodesListed) (\<lambda>r. mustSucceed (orApiErr r))) (\<lambda>nodes.
     case nodes of [] \<Rightarrow> failNow ''expected more than 0 nodes'' | addresses # rest \<Rightarrow> val (nodeIpLoop addresses []))"

fun containsPort :: "servicePort list \<Rightarrow> string \<Rightarrow> bool" where
  "containsPort [] portName = False"
| "containsPort (p # ports) portName = (if sp_Name p = portName then True else containsPort ports portName)"

fun nodePortLoop :: "servicePort list \<Rightarrow> string \<Rightarrow> string" where
  "nodePortLoop [] portName = []"
| "nodePortLoop (port # ports) portName =
     (if sp_Name port = portName then itoa (sp_NodePort port) else nodePortLoop ports portName)"

definition rabbitmqNodePort :: "testbed \<Rightarrow> rabbitmqCluster \<Rightarrow> string \<Rightarrow> string run" where
  "rabbitmqNodePort T cluster portName =
     (let key = (rc_Namespace cluster, ChildResourceName cluster []) in
      andThen (andThen (asks (tb_getService T key) (ServiceRead key)) (\<lambda>r. mustSucceed (orApiErr r))) (\<lambda>service.
      val (nodePortLoop (ss_Ports (sv_Spec service)) portName)))"

text \<open>\<^verbatim>\<open>pod\<close>: ten seconds, and the default interval of ten milliseconds.\<close>

definition podOf :: "testbed \<Rightarrow> rabbitmqCluster \<Rightarrow> int \<Rightarrow> pod run" where
  "podOf T r i =
     (let key = (rc_Namespace r, statefulSetPodName r i) in
      andThen (Eventually T (seconds 10) 10000000 (asks (tb_getPod T key) (PodRead key)) (case_sum (\<lambda>e. False) (\<lambda>p. True)))
        (\<lambda>q. case q of Inl e \<Rightarrow> failNow (snd e) | Inr p \<Rightarrow> val p))"

section \<open>What the helpers have seen when they return\<close>

lemma kubectl_run [run_rules]:
  "kubectl T args l = (Ok (tb_kubectl T args l), l @ [Kubectl args (fst (tb_kubectl T args l)) (snd (tb_kubectl T args l))])"
  by (simp add: kubectl_def run_rules)

lemma kubectl_Ok: "kubectl T args l = (Ok r, l') \<longleftrightarrow> r = tb_kubectl T args l \<and> l' = l @ [Kubectl args (fst r) (snd r)]"
  by (auto simp: run_rules)

text \<open>The events of a wait: the question about the condition, and sleeping.\<close>

definition waiting :: "rabbitmqCluster \<Rightarrow> tevent \<Rightarrow> bool" where
  "waiting c e = (case e of Kubectl args out err \<Rightarrow> args = readyArgs c | Waited d \<Rightarrow> True | _ \<Rightarrow> False)"

lemma readyStatus_Ok:
  "readyStatus T c l = (Ok s, l') \<Longrightarrow> \<exists>err. l' = l @ [Kubectl (readyArgs c) s err]"
  by (auto simp: readyStatus_def andThen_Ok kubectl_Ok run_rules split: prod.splits if_splits)

lemma readyStatus_emits: "emits (waiting c) (readyStatus T c)"
  unfolding readyStatus_def kubectl_def by (intro log_intros) (simp add: waiting_def)

lemma wait_Ok:
  assumes "Eventually T timeout interval (readyStatus T c) p l = (Ok s, l')"
  shows "p s \<and> (\<exists>es err. l' = l @ es @ [Kubectl (readyArgs c) s err] \<and> list_all (waiting c) es)"
proof -
  have w: "waiting c (Waited interval)" by (simp add: waiting_def)
  from Eventually_Ok(2) [OF readyStatus_emits w assms] obtain es where
    es: "list_all (waiting c) es" "readyStatus T c (l @ es) = (Ok s, l')" by blast
  from readyStatus_Ok [OF es(2)] es(1) Eventually_Ok(1) [OF readyStatus_emits w assms] show ?thesis by auto
qed

text \<open>
  C37. A test that waits for an update goes on only after it has seen the update begin and end: the
  helper returns when a reading of the condition \<^verbatim>\<open>AllReplicasReady\<close> has said false and
  a later one, the last, has said true. It asks nothing else and changes nothing.
\<close>

theorem update_observed:
  assumes "waitForRabbitmqUpdate T c l = (Ok (), l')"
  shows "\<exists>es fs e1 e2. l' = l @ es @ [Kubectl (readyArgs c) (quoted ''False'') e1] @ fs
         @ [Kubectl (readyArgs c) (quoted ''True'') e2]
     \<and> list_all (waiting c) (es @ fs)"
proof -
  from assms obtain a l1 b where
    "Eventually T podCreationTimeout (seconds 1) (readyStatus T c) (\<lambda>s. s = quoted ''False'') l = (Ok a, l1)"
    and "Eventually T podCreationTimeout (seconds 1) (readyStatus T c) (\<lambda>s. s = quoted ''True'') l1 = (Ok b, l')"
    by (auto simp: waitForRabbitmqUpdate_def waitForRabbitmqNotRunning_def waitForRabbitmqRunning_def andThen_Ok run_rules)
  from wait_Ok [OF this(1)] wait_Ok [OF this(2)] obtain es fs e1 e2 where
    "l1 = l @ es @ [Kubectl (readyArgs c) (quoted ''False'') e1]" "list_all (waiting c) es"
    "l' = l1 @ fs @ [Kubectl (readyArgs c) (quoted ''True'') e2]" "list_all (waiting c) fs" by auto
  then show ?thesis by (intro exI [of _ es] exI [of _ fs] exI [of _ e1] exI [of _ e2]) simp
qed

section \<open>Replacing a secret\<close>

text \<open>
  A TLS secret is created where there is none: the one that was found has been deleted before.
\<close>

lemma command_Ok:
  assumes "andThen (kubectl T args) (\<lambda>(out, err). case err of Some e \<Rightarrow> failWith (failedWith e out) | None \<Rightarrow> val ()) l = (Ok (), l')"
  shows "\<exists>out. l' = l @ [Kubectl args out None]"
  using assms by (auto simp: andThen_Ok kubectl_Ok run_rules split: prod.splits option.splits)

lemma k8sSecretExists_Ok:
  assumes "k8sSecretExists T name ns l = (Ok b, l')"
  shows "\<exists>out err. l' = l @ [Kubectl (secretArgs ''get'' name ns) out err] \<and> b = (err = None)
    \<and> (err \<noteq> None \<longrightarrow> strContains out ''not found'')"
  using assms by (auto simp: k8sSecretExists_def andThen_Ok kubectl_Ok run_rules split: prod.splits if_splits)

lemma secret_replaced:
  assumes "k8sCreateTLSSecret T name ns cert key l = (Ok (), l')"
  shows "\<exists>found out1 out2 err. l' = l @ Kubectl (secretArgs ''get'' name ns) found err
       # (if err = None then [Kubectl (secretArgs ''delete'' name ns) out1 None] else [])
       @ [Kubectl (createArgs name ns cert key) out2 None]
     \<and> (err \<noteq> None \<longrightarrow> strContains found ''not found'')"
proof -
  from assms obtain b l1 l2 where b: "k8sSecretExists T name ns l = (Ok b, l1)"
    and del: "(if b then mustSucceed (k8sDeleteSecret T name ns) else val ()) l1 = (Ok (), l2)"
    and create: "andThen (kubectl T (createArgs name ns cert key))
      (\<lambda>(out, err). case err of Some e \<Rightarrow> failWith (failedWith e out) | None \<Rightarrow> val ()) l2 = (Ok (), l')"
    unfolding k8sCreateTLSSecret_def by (subst (asm) andThen_Ok, elim exE conjE, subst (asm) andThen_Ok) auto
  from k8sSecretExists_Ok [OF b] obtain found err where
    found: "l1 = l @ [Kubectl (secretArgs ''get'' name ns) found err]" "b = (err = None)" "err \<noteq> None \<longrightarrow> strContains found ''not found''"
    by blast
  from command_Ok [OF create] obtain out2 where out2: "l' = l2 @ [Kubectl (createArgs name ns cert key) out2 None]" by blast
  have "\<exists>out1. l2 = l1 @ (if err = None then [Kubectl (secretArgs ''delete'' name ns) out1 None] else [])"
  proof (cases b)
    case True
    with del have "k8sDeleteSecret T name ns l1 = (Ok (), l2)" by (simp add: mustSucceed_Ok)
    then show ?thesis using command_Ok True found(2) unfolding k8sDeleteSecret_def by fastforce
  qed (use del found(2) in \<open>simp add: run_rules\<close>)
  then obtain out1 where "l2 = l1 @ (if err = None then [Kubectl (secretArgs ''delete'' name ns) out1 None] else [])" ..
  with found out2 show ?thesis
    by (intro exI [of _ found] exI [of _ out1] exI [of _ out2] exI [of _ err]) simp
qed

section \<open>What the readers find\<close>

text \<open>The external address of a node goes before an internal one, and a host name is never used.\<close>

lemma nodeIpLoop_spec:
  "nodeIpLoop addresses ip = (case List.find (\<lambda>a. fst a = NodeExternalIP) addresses of
      Some a \<Rightarrow> snd a
    | None \<Rightarrow> last (ip # map snd (filter (\<lambda>a. fst a = NodeInternalIP) addresses)))"
proof (induction addresses ip rule: nodeIpLoop.induct)
  case (2 ty address addresses ip)
  then show ?case by (cases ty) (auto split: option.split)
qed simp

lemma containsPort_iff [simp]: "containsPort ports name \<longleftrightarrow> name \<in> sp_Name ` set ports"
  by (induction ports) auto

lemma nodePortLoop_spec:
  "nodePortLoop ports name = (case List.find (\<lambda>p. sp_Name p = name) ports of None \<Rightarrow> [] | Some p \<Rightarrow> itoa (sp_NodePort p))"
  by (induction ports) auto

lemma flagEnabled_iff [simp]: "flagEnabled name flags \<longleftrightarrow> (\<exists>v \<in> set flags. ff_Name v = name \<and> ff_State v = ''enabled'')"
  by (induction flags) auto

text \<open>An empty queue is not an error of the helper but an index out of range.\<close>

lemma empty_queue_panics:
  assumes "tb_marshal T j = Inr d" and "makeRequest T (apiUrl h p ''/api/queues/%2F/test-queue/get'') ''POST'' u pw d l = (Ok body, l')"
    and "tb_messages T body = Inr []"
    and "j = JObj [(''vhost'', JStr ''/''), (''name'', JStr ''test-queue''), (''encoding'', JStr ''auto''),
         (''ackmode'', JStr ''ack_requeue_false''), (''truncate'', JStr ''50000''), (''count'', JStr ''1'')]"
  shows "getMessageFromQueue T h p u pw l = (Panic ''index out of range [0] with length 0'', l')"
  using assms by (simp add: getMessageFromQueue_def andThen_def run_rules)

text \<open>
  The helpers look where the operator writes: the names under which they read the secret of
  the default user, the client service and the pods are those of the objects the builders make
  and of the pods the operator runs its commands in.
\<close>

theorem helpers_find_objects:
  "targetId c DefaultUserSecretBuilder = (KSecret, (rc_Namespace c, rc_Name c @ ''-default-user''))
   \<and> targetId c ServiceBuilder = (KService, (rc_Namespace c, ChildResourceName c []))
   \<and> statefulSetPodName c i = podNamed c i"
proof -
  have "last (itoa i) \<in> set (natDec (nat (if i < 0 then - i else i)))"
    by (simp add: itoa_def)
  then have "last (''server-'' @ itoa i) \<noteq> CHR ''-''"
    using natDec_no_sym(1) by (auto simp: itoa_def)
  then have "ChildResourceName c (''server-'' @ itoa i) = rc_Name c @ ''-'' @ ''server-'' @ itoa i"
    by (intro ChildResourceName_suffix) simp_all
  then show ?thesis by (simp add: targetId_def statefulSetPodName_def podNamed_def child_names)
qed

section \<open>A concrete outside\<close>

text \<open>
  Everything succeeds: the cluster is first seen updating and then ready, and there is no secret
  of the name that is asked for.
\<close>

definition sampleBed :: testbed where
  "sampleBed = \<lparr>
     tb_kubectl = (\<lambda>args l. if take 4 (drop 2 args) = [''get'', ''secret'', ''tls''] then (''not found'', Some ''exit status 1'')
        else if l = [] then (quoted ''False'', None) else (quoted ''True'', None)),
     tb_http = (\<lambda>req l. Inr \<lparr>hp_StatusCode = 200, hp_Body = Inr []\<rparr>),
     tb_overview = (\<lambda>url u p ca l. Inr ()), tb_readFile = (\<lambda>path l. Inr ''pem''),
     tb_dialTLS = (\<lambda>url ca l. Inr ''conn''), tb_channel = (\<lambda>conn l. Inr ''ch''),
     tb_queueDeclare = (\<lambda>ch q l. Inr q), tb_publish = (\<lambda>ch q m l. None),
     tb_consume = (\<lambda>ch q l. Inr ''msgs''), tb_receive = (\<lambda>h l. Some ''hello''),
     tb_getSecret = (\<lambda>k l. Inl (ReasonNotFound, ''not found'')), tb_getService = (\<lambda>k l. Inl (ReasonNotFound, ''not found'')), tb_listNodes = (\<lambda>l. Inr []), tb_getPod = (\<lambda>k l. Inl (ReasonNotFound, ''not found'')),
     tb_getCluster = (\<lambda>k l. Inl (ReasonNotFound, ''not found'')), tb_updateCluster = (\<lambda>c l. Inr c), tb_createCluster = (\<lambda>c l. Inr c),
     tb_tempDir = (\<lambda>l. Inr ''/tmp/certs''), tb_openFile = (\<lambda>path l. Inr ()), tb_writeFile = (\<lambda>path text l. Inr ()),
     tb_removeFile = (\<lambda>path l. Inr ()), tb_newCA = (\<lambda>req l. Inr (''ca'', ''ca-key'')),
     tb_newKey = (\<lambda>req l. Inr (''csr'', ''key'')), tb_sign = (\<lambda>s hosts csr l. Inr ''cert''),
     tb_polls = (\<lambda>timeout interval l. 3), tb_conflictRetries = 4, tb_validRequest = (\<lambda>m url. True),
     tb_tlsClient = (\<lambda>url. Inr ()), tb_marshal = (\<lambda>j. Inr ''{}''), tb_messages = (\<lambda>s. Inr []), tb_health = (\<lambda>s. Inr ''ok''), tb_flags = (\<lambda>s. Inr []),
     tb_iniHash = (\<lambda>s. Inr []), tb_peerCertificates = (\<lambda>h. []), tb_parsePrivateKey = (\<lambda>s. Inr s),
     tb_parseCertificate = (\<lambda>s. Inr s), tb_newSigner = (\<lambda>k c. Inr ''signer''),
     tb_client = (\<lambda>c l. Inr ''h''), tb_delivered = (\<lambda>h l. [])\<rparr>"

theorem update_observed_witness:
  "\<exists>l' es fs e1 e2. waitForRabbitmqUpdate sampleBed sampleCluster [] = (Ok (), l')
     \<and> l' = es @ [Kubectl (readyArgs sampleCluster) (quoted ''False'') e1] @ fs
         @ [Kubectl (readyArgs sampleCluster) (quoted ''True'') e2]"
proof -
  have args: "take 4 (drop 2 (readyArgs sampleCluster)) \<noteq> [''get'', ''secret'', ''tls'']" by (simp add: readyArgs_def)
  have "\<exists>l'. waitForRabbitmqUpdate sampleBed sampleCluster [] = (Ok (), l')"
    using args by (simp add: waitForRabbitmqUpdate_def waitForRabbitmqNotRunning_def waitForRabbitmqRunning_def
        Eventually_def readyStatus_def andThen_def run_rules sampleBed_def numeral_eq_Suc quoted_def)
  then obtain l' where run: "waitForRabbitmqUpdate sampleBed sampleCluster [] = (Ok (), l')" ..
  from update_observed [OF run] run show ?thesis by auto
qed

end
