(* ===== verification/Test_Protocols.thy ===== *)
theory Test_Protocols
  imports System_Tests
begin

text \<open>
  \<^verbatim>\<open>system_tests/utils.go\<close>: the helpers that speak AMQPS, MQTT, STOMP and the stream
  protocol to a cluster, and those that make certificates for it.

  Handlers run beside the helper that polls for what they have done: a poll sees the messages
  delivered so far, and an expectation that fails in a handler fails the test at the next poll.
\<close>

section \<open>AMQP over TLS\<close>

definition connectAMQPS :: "testbed \<Rightarrow> string \<Rightarrow> string \<Rightarrow> string \<Rightarrow> string \<Rightarrow> string \<Rightarrow> handle run" where
  "connectAMQPS T username password hostname port caFilePath =
     andThen (andThen (asks (tb_readFile T caFilePath) (ReadFile caFilePath)) orErr) (\<lambda>ca.
     let url = ''amqps://'' @ username @ '':'' @ password @ ''@'' @ hostname @ '':'' @ port @ ''/'' in
     tries 5 (seconds 5) (andThen (asks (tb_dialTLS T url ca) (DialTLS url ca)) orErr)
       (\<lambda>err. case err of None \<Rightarrow> failNow ''no attempt'' | Some e \<Rightarrow> failWith e) None)"

definition close :: "handle \<Rightarrow> unit run" where
  "close h = asks (\<lambda>l. ()) (\<lambda>u. Closed h)"

text \<open>A connection that fails is no certificate.\<close>

definition inspectServerCertificate :: "testbed \<Rightarrow> string \<Rightarrow> string \<Rightarrow> string \<Rightarrow> string \<Rightarrow> string \<Rightarrow> string option run" where
  "inspectServerCertificate T username password hostname amqpsPort caFilePath =
     andThen (trying (connectAMQPS T username password hostname amqpsPort caFilePath)) (case_sum
       (\<lambda>err. val None)
       (\<lambda>conn. deferring (close conn) (
          case tb_peerCertificates T conn of
            [cert] \<Rightarrow> val (Some cert)
          | certs \<Rightarrow> failNow ''expected one certificate'')))"

definition openChannel :: "testbed \<Rightarrow> handle \<Rightarrow> handle run" where
  "openChannel T conn = andThen (asks (tb_channel T conn) (OpenChannel conn)) orErr"

definition declareQueue :: "testbed \<Rightarrow> handle \<Rightarrow> string run" where
  "declareQueue T ch = andThen (asks (tb_queueDeclare T ch ''test-queue'') (QueueDeclare ch ''test-queue'')) orErr"

definition publishToQueueAMQPS :: "testbed \<Rightarrow> string \<Rightarrow> string \<Rightarrow> string \<Rightarrow> string \<Rightarrow> string \<Rightarrow> string \<Rightarrow> unit run" where
  "publishToQueueAMQPS T message username password hostname amqpsPort caFilePath =
     andThen (connectAMQPS T username password hostname amqpsPort caFilePath) (\<lambda>conn.
     deferring (close conn) (andThen (openChannel T conn) (\<lambda>ch.
     deferring (close ch) (andThen (declareQueue T ch) (\<lambda>q.
     andThen (asks (tb_publish T ch q message) (PublishTo ch q message)) (\<lambda>err.
     case err of Some e \<Rightarrow> failWith (ErrMsg e) | None \<Rightarrow> val ()))))))"

definition getMessageFromQueueAMQPS :: "testbed \<Rightarrow> string \<Rightarrow> string \<Rightarrow> string \<Rightarrow> string \<Rightarrow> string \<Rightarrow> string run" where
  "getMessageFromQueueAMQPS T username password hostname amqpsPort caFilePath =
     andThen (connectAMQPS T username password hostname amqpsPort caFilePath) (\<lambda>conn.
     deferring (close conn) (andThen (openChannel T conn) (\<lambda>ch.
     deferring (close ch) (andThen (declareQueue T ch) (\<lambda>q.
     andThen (andThen (asks (tb_consume T ch q) (ConsumeFrom ch q)) orErr) (\<lambda>msgs.
     andThen (asks (tb_receive T msgs) (Received msgs)) (\<lambda>msg.
     case msg of Some body \<Rightarrow> val body | None \<Rightarrow> val [])))))))"

section \<open>Certificates\<close>

definition testName :: certName where
  "testName = \<lparr>cn_C = ''UK'', cn_ST = ''London'', cn_L = ''London'', cn_O = ''VMWare'', cn_OU = ''RabbitMQ''\<rparr>"

definition testRequest :: "string \<Rightarrow> string \<Rightarrow> certificateRequest" where
  "testRequest commonName hostname =
     \<lparr>cq_Names = [testName], cq_CN = commonName, cq_Hosts = [hostname], cq_KeyRequest = (''rsa'', 2048)\<rparr>"

text \<open>A new file in a directory of its own.\<close>

definition createCertFile :: "testbed \<Rightarrow> string \<Rightarrow> string run" where
  "createCertFile T fileName =
     andThen (mustSucceed (andThen (asks (tb_tempDir T) TempDir) orErr)) (\<lambda>tmpDir.
     let path = tmpDir @ ''/'' @ fileName in
     andThen (mustSucceed (andThen (asks (tb_openFile T path) (OpenFile path)) orErr)) (\<lambda>_. val path))"

definition writeTo :: "testbed \<Rightarrow> string \<Rightarrow> string \<Rightarrow> unit run" where
  "writeTo T path text = andThen (asks (tb_writeFile T path text) (WriteFile path text)) orErr"

definition generateCertandKey :: "testbed \<Rightarrow> string \<Rightarrow> string \<Rightarrow> string \<Rightarrow> string \<Rightarrow> string \<Rightarrow> unit run" where
  "generateCertandKey T hostname caCert caKey certPath keyPath =
     andThen (orErr (tb_parsePrivateKey T caKey)) (\<lambda>caPriv.
     andThen (orErr (tb_parseCertificate T caCert)) (\<lambda>caPub.
     andThen (orErr (tb_newSigner T caPriv caPub)) (\<lambda>s.
     let serverReq = testRequest ''tests-server'' hostname in
     andThen (andThen (asks (tb_newKey T serverReq) (NewKey serverReq)) orErr) (\<lambda>(serverCsr, serverKey).
     andThen (andThen (asks (tb_sign T s (cq_Hosts serverReq) serverCsr) (Signed s (cq_Hosts serverReq) serverCsr)) orErr) (\<lambda>serverCert.
     andThen (writeTo T certPath serverCert) (\<lambda>_.
     writeTo T keyPath serverKey))))))"

definition createCertificateChain :: "testbed \<Rightarrow> string \<Rightarrow> string \<Rightarrow> string \<Rightarrow> string \<Rightarrow> (string \<times> string) run" where
  "createCertificateChain T hostname caPath certPath keyPath =
     (let caReq = testRequest ''tests-CA'' hostname in
      andThen (andThen (asks (tb_newCA T caReq) (NewCA caReq)) orErr) (\<lambda>(caCert, caKey).
      andThen (writeTo T caPath caCert) (\<lambda>_.
      andThen (generateCertandKey T hostname caCert caKey certPath keyPath) (\<lambda>_.
      val (caCert, caKey)))))"

definition removeFile :: "testbed \<Rightarrow> string \<Rightarrow> unit run" where
  "removeFile T path = andThen (asks (tb_removeFile T path) (RemoveFile path)) orErr"

definition createTLSSecret :: "testbed \<Rightarrow> string \<Rightarrow> string \<Rightarrow> string \<Rightarrow> (string \<times> string \<times> string) run" where
  "createTLSSecret T secretName secretNamespace hostname =
     andThen (createCertFile T ''server.crt'') (\<lambda>serverCertPath.
     andThen (createCertFile T ''server.key'') (\<lambda>serverKeyPath.
     andThen (createCertFile T ''ca.crt'') (\<lambda>caPath.
     andThen (mustSucceed (createCertificateChain T hostname caPath serverCertPath serverKeyPath)) (\<lambda>(caCert, caKey).
     andThen (mustSucceed (k8sCreateTLSSecret T secretName secretNamespace serverCertPath serverKeyPath)) (\<lambda>_.
     andThen (mustSucceed (removeFile T serverKeyPath)) (\<lambda>_.
     andThen (mustSucceed (removeFile T serverCertPath)) (\<lambda>_.
     val (caPath, caCert, caKey))))))))"

definition updateTLSSecret :: "testbed \<Rightarrow> string \<Rightarrow> string \<Rightarrow> string \<Rightarrow> string \<Rightarrow> string \<Rightarrow> unit run" where
  "updateTLSSecret T secretName secretNamespace hostname caCert caKey =
     andThen (createCertFile T ''server.crt'') (\<lambda>serverCertPath.
     andThen (createCertFile T ''server.key'') (\<lambda>serverKeyPath.
     andThen (mustSucceed (generateCertandKey T hostname caCert caKey serverCertPath serverKeyPath)) (\<lambda>_.
     andThen (mustSucceed (k8sCreateTLSSecret T secretName secretNamespace serverCertPath serverKeyPath)) (\<lambda>_.
     andThen (mustSucceed (removeFile T serverKeyPath)) (\<lambda>_.
     mustSucceed (removeFile T serverCertPath))))))"

section \<open>MQTT, STOMP and streams\<close>

definition client :: "testbed \<Rightarrow> clientOp \<Rightarrow> handle run" where
  "client T todo = andThen (asks (tb_client T todo) (Client todo)) orErr"

definition delivered :: "testbed \<Rightarrow> handle \<Rightarrow> delivery list run" where
  "delivered T h = asks (tb_delivered T h) (Delivered h)"

text \<open>The handlers: what they have made of the messages delivered so far.\<close>

fun mqttHandled :: "string \<Rightarrow> delivery list \<Rightarrow> bool run" where
  "mqttHandled topic [] = val False"
| "mqttHandled topic (d # ds) =
     andThen (expect (d = Inr (topic, [''test message MQTT''])) ''unexpected MQTT message'') (\<lambda>_.
     andThen (mqttHandled topic ds) (\<lambda>_. val True))"

fun stompHandled :: "delivery list \<Rightarrow> bool run" where
  "stompHandled [] = val False"
| "stompHandled (Inl err # ds) = failNow err"
| "stompHandled (Inr (queue, body) # ds) =
     andThen (expect (concat body = ''test message STOMP'') ''unexpected STOMP message'') (\<lambda>_. val True)"

fun streamHandled :: "string \<Rightarrow> delivery list \<Rightarrow> string run" where
  "streamHandled msgReceived [] = val msgReceived"
| "streamHandled msgReceived (Inl err # ds) = streamHandled msgReceived ds"
| "streamHandled msgReceived (Inr (name, data) # ds) =
     (case data of [text] \<Rightarrow> streamHandled text ds | _ \<Rightarrow> failNow ''expected one part'')"

definition mqttOptions :: "string \<Rightarrow> string \<Rightarrow> string \<Rightarrow> string \<Rightarrow> bool \<Rightarrow> string option \<Rightarrow> mqttOptions" where
  "mqttOptions hostname port username password overWebSocket tlsConfig =
     (let url = (if overWebSocket then ''ws://'' @ hostname @ '':'' @ port @ ''/ws'' else ''tcp://'' @ hostname @ '':'' @ port);
          opts = \<lparr>mo_Brokers = [url], mo_Username = username, mo_Password = password,
            mo_ClientID = ''system tests MQTT plugin'', mo_ProtocolVersion = 4, mo_TLSConfig = None\<rparr>
      in case tlsConfig of None \<Rightarrow> opts
         | Some cfg \<Rightarrow> opts\<lparr>mo_Brokers := mo_Brokers opts @ [''ssl://'' @ hostname @ '':'' @ port], mo_TLSConfig := Some cfg\<rparr>)"

definition publishAndConsumeMQTTMsg :: "testbed \<Rightarrow> string \<Rightarrow> string \<Rightarrow> string \<Rightarrow> string \<Rightarrow> bool \<Rightarrow> string option \<Rightarrow> unit run" where
  "publishAndConsumeMQTTMsg T hostname port username password overWebSocket tlsConfig =
     (let opts = mqttOptions hostname port username password overWebSocket tlsConfig; topic = ''tests/mqtt'' in
      andThen (Eventually T (seconds 30) (seconds 20) (trying (client T (MqttConnect opts))) (case_sum (\<lambda>e. False) (\<lambda>h. True))) (\<lambda>_.
      andThen (mustSucceed (client T (MqttSubscribe topic))) (\<lambda>_.
      andThen (mustSucceed (client T (MqttPublish topic ''test message MQTT''))) (\<lambda>_.
      andThen (Eventually T (seconds 10) 10000000 (andThen (delivered T topic) (mqttHandled topic)) (\<lambda>b. b)) (\<lambda>_.
      andThen (mustSucceed (client T (MqttUnsubscribe topic))) (\<lambda>_.
      andThen (trying (client T MqttDisconnect)) (\<lambda>_. val ())))))))"

text \<open>
  Over TLS the variable \<^verbatim>\<open>err\<close> the attempts assign is a new one, and the one that is
  checked after them stays nil; the connection is nil when every attempt has failed.
\<close>

definition stompConnection :: "testbed \<Rightarrow> string \<Rightarrow> string \<Rightarrow> string \<Rightarrow> handle option \<Rightarrow> handle option run" where
  "stompConnection T address username password secureConn = (case secureConn of
      Some secure \<Rightarrow> tries 5 (seconds 2) (andThen (client T (StompConnect secure username password)) (\<lambda>c. val (Some c)))
        (\<lambda>err. val None) None
    | None \<Rightarrow> tries 5 (seconds 2) (andThen (client T (StompDial address username password)) (\<lambda>c. val (Some c)))
        (\<lambda>err. case err of None \<Rightarrow> val None | Some e \<Rightarrow> failNow (errString e)) None)"

definition stompExchange :: "testbed \<Rightarrow> handle option \<Rightarrow> unit run" where
  "stompExchange T connection = (case connection of
      None \<Rightarrow> failNow ''invalid memory address or nil pointer dereference''
    | Some conn \<Rightarrow> let queue = ''/queue/system-tests-stomp'' in
        andThen (mustSucceed (client T (StompSubscribe conn queue))) (\<lambda>sub.
        andThen (mustSucceed (client T (StompSend conn queue ''test message STOMP''))) (\<lambda>_.
        andThen (Eventually T (seconds 5) 10000000 (andThen (delivered T sub) stompHandled) (\<lambda>b. b)) (\<lambda>_.
        andThen (mustSucceed (client T (StompUnsubscribe sub))) (\<lambda>_.
        andThen (mustSucceed (client T (StompDisconnect conn))) (\<lambda>_. val ()))))))"

definition publishAndConsumeSTOMPMsg :: "testbed \<Rightarrow> string \<Rightarrow> string \<Rightarrow> string \<Rightarrow> string \<Rightarrow> string option \<Rightarrow> unit run" where
  "publishAndConsumeSTOMPMsg T hostname port username password tlsConfig =
     (let address = hostname @ '':'' @ port in
      case tlsConfig of
        None \<Rightarrow> andThen (stompConnection T address username password None) (stompExchange T)
      | Some cfg \<Rightarrow> andThen (mustSucceed (client T (TlsDial address cfg))) (\<lambda>secure.
          deferring (close secure)
            (andThen (stompConnection T address username password (Some secure)) (stompExchange T))))"

definition publishAndConsumeStreamMsg :: "testbed \<Rightarrow> string \<Rightarrow> string \<Rightarrow> string \<Rightarrow> string \<Rightarrow> unit run" where
  "publishAndConsumeStreamMsg T host port username password = (case parseInt64 port of
      None \<Rightarrow> failNow ''port is not a number''
    | Some portInt \<Rightarrow> let streamName = ''system-test-stream''; msgSent = ''test message'' in
      andThen (Eventually T (portReadinessTimeout * 5) portReadinessTimeout
        (trying (client T (StreamEnvironment host portInt username password))) (case_sum (\<lambda>e. False) (\<lambda>h. True))) (\<lambda>r.
      case r of Inl e \<Rightarrow> failNow (errString e) | Inr streams \<Rightarrow>
      andThen (mustSucceed (client T (DeclareStream streams streamName 1))) (\<lambda>_.
      andThen (mustSucceed (client T (NewProducer streams streamName))) (\<lambda>producer.
      andThen (mustSucceed (client T (BatchSend producer msgSent))) (\<lambda>_.
      andThen (Eventually T (seconds 1) 10000000 (trying (client T (ConfirmedBy producer))) (case_sum (\<lambda>e. False) (\<lambda>h. True))) (\<lambda>_.
      andThen (mustSucceed (client T (CloseProducer producer))) (\<lambda>_.
      andThen (mustSucceed (client T (NewConsumer streams streamName))) (\<lambda>consumer.
      andThen (Eventually T (seconds 1) 10000000 (andThen (delivered T consumer) (streamHandled [])) (\<lambda>s. s = msgSent)) (\<lambda>_.
      andThen (mustSucceed (client T (CloseConsumer consumer))) (\<lambda>_.
      andThen (mustSucceed (client T (DeleteStream streams streamName))) (\<lambda>_.
      andThen (mustSucceed (client T (CloseEnvironment streams))) (\<lambda>_. val ()))))))))))))"

section \<open>The certificates of a secret\<close>

lemma files_Ok:
  "createCertFile T name l = (Ok path, l') \<Longrightarrow>
     \<exists>dir. path = dir @ ''/'' @ name \<and> l' = l @ [TempDir (Inr dir), OpenFile path (Inr ())]"
  "writeTo T p text l = (Ok u, l') \<Longrightarrow> l' = l @ [WriteFile p text (Inr ())]"
  "removeFile T p l = (Ok u, l') \<Longrightarrow> l' = l @ [RemoveFile p (Inr ())]"
  by (auto simp: createCertFile_def writeTo_def removeFile_def Let_def ok_rules)

text \<open>The signer of the certificate authority.\<close>

definition signerOf :: "testbed \<Rightarrow> string \<Rightarrow> string \<Rightarrow> string \<Rightarrow> bool" where
  "signerOf T caCert caKey s \<longleftrightarrow> (\<exists>priv pub. tb_parsePrivateKey T caKey = Inr priv \<and> tb_parseCertificate T caCert = Inr pub
     \<and> tb_newSigner T priv pub = Inr s)"

definition signedPair :: "testbed \<Rightarrow> string \<Rightarrow> string \<Rightarrow> string \<Rightarrow> string \<Rightarrow> string \<Rightarrow> tevent list \<Rightarrow> bool" where
  "signedPair T hostname caCert caKey certPath keyPath es \<longleftrightarrow> (\<exists>s csr cert key. signerOf T caCert caKey s
     \<and> es = [NewKey (testRequest ''tests-server'' hostname) (Inr (csr, key)), Signed s [hostname] csr (Inr cert),
         WriteFile certPath cert (Inr ()), WriteFile keyPath key (Inr ())])"

lemma generateCertandKey_Ok:
  assumes "generateCertandKey T hostname caCert caKey certPath keyPath l = (Ok (), l')"
  shows "\<exists>es. l' = l @ es \<and> signedPair T hostname caCert caKey certPath keyPath es"
proof -
  let ?req = "testRequest ''tests-server'' hostname"
  have hosts: "cq_Hosts ?req = [hostname]" by (simp add: testRequest_def)
  from assms obtain s csr key cert where "signerOf T caCert caKey s"
    and "l' = l @ [NewKey ?req (Inr (csr, key)), Signed s [hostname] csr (Inr cert),
         WriteFile certPath cert (Inr ()), WriteFile keyPath key (Inr ())]"
    unfolding generateCertandKey_def Let_def signerOf_def hosts
    by (auto simp: ok_rules dest!: files_Ok(2))
  then show ?thesis unfolding signedPair_def by blast
qed

lemma createCertificateChain_Ok:
  assumes "createCertificateChain T hostname caPath certPath keyPath l = (Ok (caCert, caKey), l')"
  shows "\<exists>es. l' = l @ [NewCA (testRequest ''tests-CA'' hostname) (Inr (caCert, caKey)), WriteFile caPath caCert (Inr ())] @ es
     \<and> signedPair T hostname caCert caKey certPath keyPath es"
  using assms unfolding createCertificateChain_def Let_def
  by (auto simp: ok_rules dest!: files_Ok(2) generateCertandKey_Ok)

text \<open>
  C36. The secret of a TLS test holds a certificate of its own authority. When the helper returns,
  it has made an authority for the host and a server key, had the certificate for this key
  signed by this authority, written both, created the secret from these two files after
  deleting one that was there, and removed the files; what it returns are the path of the
  authority's certificate, as written, and the authority's certificate and key.
\<close>

theorem tls_secret_chain:
  assumes "createTLSSecret T name ns hostname l = (Ok (caPath, caCert, caKey), l')"
  shows "\<exists>opened certPath keyPath signed secret out. l' = l @ opened
       @ [NewCA (testRequest ''tests-CA'' hostname) (Inr (caCert, caKey)), WriteFile caPath caCert (Inr ())] @ signed
       @ secret @ [Kubectl (createArgs name ns certPath keyPath) out None]
       @ [RemoveFile keyPath (Inr ()), RemoveFile certPath (Inr ())]
     \<and> signedPair T hostname caCert caKey certPath keyPath signed
     \<and> list_all (\<lambda>p. OpenFile p (Inr ()) \<in> set opened) [certPath, keyPath, caPath]
     \<and> (\<exists>found err deleted. secret = Kubectl (secretArgs ''get'' name ns) found err
          # (if err = None then [Kubectl (secretArgs ''delete'' name ns) deleted None] else []))"
proof -
  from assms obtain certPath l1 keyPath l2 l3 l4 l5 l6 where
    files: "createCertFile T ''server.crt'' l = (Ok certPath, l1)" "createCertFile T ''server.key'' l1 = (Ok keyPath, l2)"
      "createCertFile T ''ca.crt'' l2 = (Ok caPath, l3)"
    and chain: "createCertificateChain T hostname caPath certPath keyPath l3 = (Ok (caCert, caKey), l4)"
    and secret: "k8sCreateTLSSecret T name ns certPath keyPath l4 = (Ok (), l5)"
    and gone: "removeFile T keyPath l5 = (Ok (), l6)" "removeFile T certPath l6 = (Ok (), l')"
    unfolding createTLSSecret_def by (auto simp: ok_rules)
  from files_Ok(1) [OF files(1)] files_Ok(1) [OF files(2)] files_Ok(1) [OF files(3)] obtain d1 d2 d3 where
    opened: "l3 = l @ [TempDir (Inr d1), OpenFile certPath (Inr ()), TempDir (Inr d2), OpenFile keyPath (Inr ()),
        TempDir (Inr d3), OpenFile caPath (Inr ())]" by auto
  from createCertificateChain_Ok [OF chain] obtain signed where
    signed: "l4 = l3 @ [NewCA (testRequest ''tests-CA'' hostname) (Inr (caCert, caKey)), WriteFile caPath caCert (Inr ())] @ signed"
      "signedPair T hostname caCert caKey certPath keyPath signed" by blast
  from secret_replaced [OF secret] obtain found deleted out err where
    "l5 = l4 @ Kubectl (secretArgs ''get'' name ns) found err
       # (if err = None then [Kubectl (secretArgs ''delete'' name ns) deleted None] else [])
       @ [Kubectl (createArgs name ns certPath keyPath) out None]" by blast
  with opened signed gone [THEN files_Ok(3)] show ?thesis
    by (intro exI [of _ "[TempDir (Inr d1), OpenFile certPath (Inr ()), TempDir (Inr d2), OpenFile keyPath (Inr ()),
        TempDir (Inr d3), OpenFile caPath (Inr ())]"] exI [of _ certPath] exI [of _ keyPath] exI [of _ signed]
        exI [of _ "Kubectl (secretArgs ''get'' name ns) found err
          # (if err = None then [Kubectl (secretArgs ''delete'' name ns) deleted None] else [])"] exI [of _ out]) auto
qed

section \<open>Connections\<close>

lemma asked_fails: "fst (andThen (asks question ev) orErr l) \<noteq> Panic p"
  by (cases "question l") (auto simp: andThen_def run_rules)

lemma connectAMQPS_ends:
  assumes "connectAMQPS T username password hostname port caFilePath l = (r, l')"
  shows "(\<exists>conn url ca. r = Ok conn \<and> last l' = DialTLS url ca (Inr conn)) \<or> (\<exists>e. r = Err e)"
proof (cases "tb_readFile T caFilePath l")
  case (Inl e)
  with assms show ?thesis by (auto simp: connectAMQPS_def andThen_def run_rules)
next
  case (Inr ca)
  let ?url = "''amqps://'' @ username @ '':'' @ password @ ''@'' @ hostname @ '':'' @ port @ ''/''"
  let ?dial = "andThen (asks (tb_dialTLS T ?url ca) (DialTLS ?url ca)) orErr"
  from Inr assms have "tries 5 (seconds 5) ?dial (\<lambda>err. case err of None \<Rightarrow> failNow ''no attempt'' | Some e \<Rightarrow> failWith e) None
      (l @ [ReadFile caFilePath (Inr ca)]) = (r, l')"
    by (simp add: connectAMQPS_def Let_def andThen_def run_rules)
  from tries_ends [OF asked_fails this] show ?thesis
    by (auto simp: ok_rules run_rules split: option.splits)
qed

lemma deferring_close: "deferring (close h) m l = (r, l') \<Longrightarrow> last l' = Closed h"
  by (auto simp: deferring_def close_def run_rules split: prod.splits)

text \<open>
  The helpers that speak AMQPS close the connection they have made, last and whatever happens in
  between; when no attempt succeeds they return the error.
\<close>

lemma amqps_closes:
  assumes "andThen (connectAMQPS T username password hostname port caFilePath) (\<lambda>conn. deferring (close conn) (m conn)) l = (r, l')"
  shows "(\<exists>conn l1. connectAMQPS T username password hostname port caFilePath l = (Ok conn, l1) \<and> last l' = Closed conn)
    \<or> (\<exists>e. r = Err e \<and> connectAMQPS T username password hostname port caFilePath l = (Err e, l'))"
proof (cases "connectAMQPS T username password hostname port caFilePath l")
  case (Pair q l1)
  from connectAMQPS_ends [OF this] show ?thesis
  proof (elim disjE exE conjE)
    fix conn url ca
    assume "q = Ok conn"
    with assms Pair have "deferring (close conn) (m conn) l1 = (r, l')" by (simp add: andThen_def)
    from deferring_close [OF this] Pair \<open>q = Ok conn\<close> show ?thesis by blast
  next
    fix e
    assume "q = Err e"
    with assms Pair show ?thesis by (simp add: andThen_def)
  qed
qed

lemma helpers_close:
  assumes "publishToQueueAMQPS T message username password hostname port caFilePath l = (r, l')
    \<or> getMessageFromQueueAMQPS T username password hostname port caFilePath l = (s, l')"
  shows "(\<exists>conn l1. connectAMQPS T username password hostname port caFilePath l = (Ok conn, l1) \<and> last l' = Closed conn)
    \<or> (\<exists>e. connectAMQPS T username password hostname port caFilePath l = (Err e, l'))"
  using assms unfolding publishToQueueAMQPS_def getMessageFromQueueAMQPS_def
  by (elim disjE) (drule amqps_closes, blast)+

text \<open>
  When no STOMP client gets through over TLS, the test is not told so: it stops at the nil
  connection. Without TLS the error of the last attempt is the failure.
\<close>

lemma tries_none:
  assumes "\<And>l. \<exists>e l'. f l = (Err e, l')"
  shows "fst (tries n interval f (\<lambda>err. val None) err l) = Ok None"
proof (induction n arbitrary: err l)
  case 0
  then show ?case by (simp add: run_rules)
next
  case (Suc n)
  from assms [of l] obtain e l' where "f l = (Err e, l')" by blast
  with Suc.IH show ?case by (simp add: andThen_def trying_def run_rules)
qed

lemma stomp_error_lost:
  assumes "tb_client T (TlsDial (hostname @ '':'' @ port) cfg) l = Inr secure"
    and refused: "\<And>l. \<exists>e. tb_client T (StompConnect secure username password) l = Inl e"
  shows "fst (publishAndConsumeSTOMPMsg T hostname port username password (Some cfg) l)
    = Panic ''invalid memory address or nil pointer dereference''"
proof -
  let ?l = "l @ [Client (TlsDial (hostname @ '':'' @ port) cfg) (Inr secure)]"
  let ?once = "andThen (client T (StompConnect secure username password)) (\<lambda>c. val (Some c))"
  have "\<exists>e l'. ?once l = (Err e, l')" for l
    using refused [of l] by (auto simp: client_def andThen_def run_rules)
  from tries_none [of ?once, OF this]
  obtain l' where none: "tries 5 (seconds 2) ?once (\<lambda>err. val None) None ?l = (Ok None, l')" by (metis prod.collapse)
  have "client T (TlsDial (hostname @ '':'' @ port) cfg) l = (Ok secure, ?l)"
    using assms(1) by (simp add: client_def andThen_def run_rules)
  with none show ?thesis
    by (simp add: publishAndConsumeSTOMPMsg_def stompConnection_def stompExchange_def Let_def andThen_def mustSucceed_def
        deferring_def run_rules split_beta)
qed

theorem tls_secret_chain_witness:
  "\<exists>l' certPath keyPath out. createTLSSecret sampleBed ''tls'' ''ns'' ''host'' [] = (Ok (''/tmp/certs/ca.crt'', ''ca'', ''ca-key''), l')
     \<and> Kubectl (createArgs ''tls'' ''ns'' certPath keyPath) out None \<in> set l' \<and> WriteFile ''/tmp/certs/ca.crt'' ''ca'' (Inr ()) \<in> set l'"
proof -
  have "\<exists>l'. createTLSSecret sampleBed ''tls'' ''ns'' ''host'' [] = (Ok (''/tmp/certs/ca.crt'', ''ca'', ''ca-key''), l')"
    by (simp add: createTLSSecret_def createCertFile_def createCertificateChain_def generateCertandKey_def writeTo_def removeFile_def
        k8sCreateTLSSecret_def k8sSecretExists_def secretArgs_def createArgs_def Let_def andThen_def mustSucceed_def run_rules
        sampleBed_def testRequest_def)
  then obtain l' where run: "createTLSSecret sampleBed ''tls'' ''ns'' ''host'' [] = (Ok (''/tmp/certs/ca.crt'', ''ca'', ''ca-key''), l')" ..
  from tls_secret_chain [OF run] run show ?thesis by fastforce
qed

end
